(* ===== verification/Prelude.thy ===== *)
theory Prelude
  imports Main "HOL-Library.AList"
begin

text \<open>
  Shared vocabulary of the development: the types that name identifiers and clock
  values, the state-and-exception sequencing used to compose the awaited store calls
  of a handler, JavaScript object spread on association lists, and the generic list
  lemmas the component theories use.
\<close>

section \<open>Names for the model's types\<close>

type_synonym row_id = int
  \<comment> \<open>a primary or foreign key: Prisma \<open>Int\<close>, a JavaScript number on the wire\<close>

type_synonym millis = nat
  \<comment> \<open>\<open>new Date().valueOf()\<close>: milliseconds since the epoch\<close>

type_synonym 'v jsobj = "(string \<times> 'v) list"
  \<comment> \<open>a JavaScript object: keys in insertion order, no duplicates\<close>

named_theorems handler_defs "definitions of the route handlers, unfolded together"
named_theorems keeps_intros "introduction rules: a computation keeps an invariant of its state"

section \<open>Sequencing awaited calls that may throw\<close>

text \<open>
  An \<open>await\<close> of a store call either yields a value or throws; what the call already
  did to the state stays done in both cases (there is no transaction). A computation is
  therefore a function from a state to a result of type \<open>'e + 'a\<close> and the new state,
  and \<open>bindE\<close> runs the continuation only on \<open>Inr\<close>, passing the state on either way.
\<close>

type_synonym ('s, 'e, 'a) stE = "'s \<Rightarrow> ('e + 'a) \<times> 's"

definition returnE :: "'a \<Rightarrow> ('s, 'e, 'a) stE" where
  "returnE a s = (Inr a, s)"

definition bindE :: "('s, 'e, 'a) stE \<Rightarrow> ('a \<Rightarrow> ('s, 'e, 'b) stE) \<Rightarrow> ('s, 'e, 'b) stE" where
  "bindE m f s = (case m s of (Inl e, s') \<Rightarrow> (Inl e, s') | (Inr a, s') \<Rightarrow> f a s')"

text \<open>
  JavaScript object spread: \<open>{...o, k: v}\<close> keeps the keys of \<open>o\<close> in order,
  replaces the value of \<open>k\<close> where \<open>o\<close> has it and appends \<open>k\<close> otherwise:
  that is \<open>AList.update\<close>.
\<close>

abbreviation spread_set :: "'v jsobj \<Rightarrow> string \<Rightarrow> 'v \<Rightarrow> 'v jsobj" where
  "spread_set obj k v \<equiv> AList.update k v obj"

text \<open>
  A computation keeps a property of the state when every run from a state with the
  property ends in one with it, whether it returns or throws.
\<close>

abbreviation keeps :: "('s \<Rightarrow> bool) \<Rightarrow> ('s, 'e, 'a) stE \<Rightarrow> bool" where
  "keeps P m \<equiv> \<forall>s r t. P s \<longrightarrow> m s = (r, t) \<longrightarrow> P t"

section \<open>Lemmas on sequencing\<close>

lemma bindE_Inr [simp]: "m s = (Inr a, s') \<Longrightarrow> bindE m f s = f a s'"
  by (simp add: bindE_def)

lemma bindE_Inl [simp]: "m s = (Inl e, s') \<Longrightarrow> bindE m f s = (Inl e, s')"
  by (simp add: bindE_def)

lemma returnE_apply [simp]: "returnE a s = (Inr a, s)"
  by (simp add: returnE_def)

lemma bindE_returnE [simp]: "bindE (returnE a) f = f a"
  by (rule ext) (simp add: bindE_def)

lemma bindE_cases:
  assumes "bindE m f s = (r, t)"
  obtains e where "m s = (Inl e, t)" and "r = Inl e"
  | a s' where "m s = (Inr a, s')" and "f a s' = (r, t)"
  using assms by (auto simp: bindE_def split: prod.splits sum.splits)

text \<open>A property of states kept by both halves is kept by the sequence.\<close>

lemma bindE_preserves:
  assumes "\<And>s r t. P s \<Longrightarrow> m s = (r, t) \<Longrightarrow> P t"
    and "\<And>a s r t. P s \<Longrightarrow> f a s = (r, t) \<Longrightarrow> P t"
    and "P s" and "bindE m f s = (r, t)"
  shows "P t"
  using assms(4)
proof (cases rule: bindE_cases)
  case (1 e)
  then show ?thesis using assms(1,3) by blast
next
  case (2 a s')
  then have "P s'" using assms(1,3) by blast
  then show ?thesis using assms(2) 2 by blast
qed

lemma keeps_bindE [keeps_intros]: "keeps P m \<Longrightarrow> (\<And>a. keeps P (f a)) \<Longrightarrow> keeps P (bindE m f)"
  using bindE_preserves [of P m f] by blast

lemma keeps_returnE [keeps_intros]: "keeps P (returnE a)"
  by simp

section \<open>Lemmas on object spread\<close>


lemma spread_set_lookup [simp]: "map_of (spread_set obj k v) = (map_of obj)(k \<mapsto> v)"
  by (rule update_conv')

section \<open>Lists\<close>

lemma find_Some_in_set: "find P xs = Some x \<Longrightarrow> x \<in> set xs \<and> P x"
  by (induction xs) (auto split: if_splits)

lemma find_None_iff_all: "find P xs = None \<longleftrightarrow> (\<forall>x \<in> set xs. \<not> P x)"
  by (induction xs) auto

lemma find_unique_key:
  assumes "distinct (map k xs)" and "x \<in> set xs"
  shows "find (\<lambda>y. k y = k x) xs = Some x"
  using assms by (induction xs) (auto simp: rev_image_eqI)

lemma find_map_option: "find P (map f xs) = map_option f (find (P \<circ> f) xs)"
  by (induction xs) auto

lemma distinct_map_filter_keys [intro]: "distinct (map k xs) \<Longrightarrow> distinct (map k (filter P xs))"
  by (induction xs) auto

lemma set_map_filter_key: "set (map k (filter (\<lambda>x. k x \<noteq> v) xs)) = set (map k xs) - {v}"
  by auto

lemma distinct_map_rekey:
  "distinct (map k xs) \<Longrightarrow> v = old \<or> v \<notin> set (map k xs) \<Longrightarrow>
   distinct (map (\<lambda>x. if k x = old then v else k x) xs)"
  by (induction xs) (auto split: if_splits simp: image_iff)

lemma set_map_rekey:
  "old \<in> set (map k xs) \<Longrightarrow>
   set (map (\<lambda>x. if k x = old then v else k x) xs) = insert v (set (map k xs) - {old})"
  by (auto split: if_splits)

end
