(* ===== verification/Json.thy ===== *)
theory Json
  imports Prelude
begin

text \<open>
  The JavaScript values the controller handles: JSON request and response bodies,
  the opaque \<open>req.currentUser\<close>, and the two conversions the code applies to them:
  \<open>Number(...)\<close> on path parameters and identities (\<open>js_number\<close>,
  \<open>string_to_number\<close>), and the number-to-string conversion of \<open>new Date().valueOf()
  + '_'\<close> in the upload file name (\<open>show_nat\<close>). Both are ECMAScript built-ins and are
  modelled from the language specification; the roundtrip between them is proved here.
\<close>

section \<open>Values\<close>

text \<open>
  JSON as \<open>express.json()\<close> parses it and \<open>res.json\<close> prints it. Numbers are
  integers: the identifiers, counts and sizes this controller exchanges are integral, and
  fractional numbers in request bodies are outside the model.
\<close>

datatype json = JNull | JBool bool | JNum int | JStr string | JArr "json list"
  | JObj "json jsobj"

text \<open>
  The JavaScript values \<open>req.currentUser\<close> may hold (the authentication middleware that
  sets it is outside this repository): a number, a string, or nothing at all.
\<close>

datatype jsval = JsUndefined | JsNull | JsBool bool | JsNum int | JsStr string

section \<open>Number(...) on strings (ECMAScript StringToNumber)\<close>

text \<open>
  \<open>Number(s)\<close> trims white space, maps the empty string to 0, accepts the
  prefixes \<open>0x\<close>, \<open>0o\<close>, \<open>0b\<close> (unsigned), and otherwise a signed decimal literal
  with an optional fraction and exponent; anything else is \<open>NaN\<close>. The result here is
  \<open>int option\<close>: \<open>Some n\<close> when the number is the integer \<open>n\<close>, \<open>None\<close> when it is
  \<open>NaN\<close>, infinite or not integral, the values that equal no integer key in a
  \<open>where\<close> clause. Magnitudes beyond \<open>2^53\<close>, which JavaScript rounds, are outside the
  model; the identifiers of a database are far below.
\<close>

definition is_js_space :: "char \<Rightarrow> bool" where
  "is_js_space c \<longleftrightarrow> of_char c \<in> {9, 10, 11, 12, 13, 32, 160 :: nat}"

definition js_trim :: "string \<Rightarrow> string" where
  "js_trim s = rev (dropWhile is_js_space (rev (dropWhile is_js_space s)))"

definition digit_val :: "nat \<Rightarrow> char \<Rightarrow> nat option" where
  "digit_val base c =
     (let k = of_char c :: nat;
          d = (if 48 \<le> k \<and> k \<le> 57 then Some (k - 48)
               else if 97 \<le> k \<and> k \<le> 102 then Some (k - 87)
               else if 65 \<le> k \<and> k \<le> 70 then Some (k - 55) else None)
      in case d of Some v \<Rightarrow> if v < base then Some v else None | None \<Rightarrow> None)"

abbreviation is_dec :: "char \<Rightarrow> bool" where
  "is_dec c \<equiv> digit_val 10 c \<noteq> None"

fun digits_acc :: "nat \<Rightarrow> nat \<Rightarrow> string \<Rightarrow> nat option" where
  "digits_acc b acc [] = Some acc"
| "digits_acc b acc (c # cs) =
     (case digit_val b c of None \<Rightarrow> None | Some d \<Rightarrow> digits_acc b (acc * b + d) cs)"

definition parse_digits :: "nat \<Rightarrow> string \<Rightarrow> int option" where
  "parse_digits b s = (if s = [] then None else map_option int (digits_acc b 0 s))"

definition dec_value :: "string \<Rightarrow> nat" where
  "dec_value s = foldl (\<lambda>acc c. acc * 10 + (of_char c - 48)) 0 s"

definition parse_exponent :: "string \<Rightarrow> int option" where
  "parse_exponent r =
     (case r of [] \<Rightarrow> Some 0
      | c # t \<Rightarrow>
         if c \<noteq> CHR ''e'' \<and> c \<noteq> CHR ''E'' then None
         else if t \<noteq> [] \<and> hd t = CHR ''+'' then parse_digits 10 (tl t)
         else if t \<noteq> [] \<and> hd t = CHR ''-'' then map_option uminus (parse_digits 10 (tl t))
         else parse_digits 10 t)"

definition scale10 :: "nat \<Rightarrow> int \<Rightarrow> int option" where
  "scale10 m k =
     (if 0 \<le> k then Some (int m * 10 ^ nat k)
      else if m mod 10 ^ nat (- k) = 0 then Some (int (m div 10 ^ nat (- k))) else None)"

definition parse_unsigned_decimal :: "string \<Rightarrow> int option" where
  "parse_unsigned_decimal s =
     (let d1 = takeWhile is_dec s; r1 = dropWhile is_dec s;
          (f, r2) = (if r1 \<noteq> [] \<and> hd r1 = CHR ''.''
                     then (takeWhile is_dec (tl r1), dropWhile is_dec (tl r1)) else ([], r1))
      in if d1 = [] \<and> f = [] then None
         else case parse_exponent r2 of
                None \<Rightarrow> None
              | Some e \<Rightarrow> scale10 (dec_value (d1 @ f)) (e - int (length f)))"

definition unsigned_number :: "string \<Rightarrow> int option" where
  "unsigned_number u = (if u = ''Infinity'' then None else parse_unsigned_decimal u)"

definition string_to_number :: "string \<Rightarrow> int option" where
  "string_to_number s =
     (let t = js_trim s in
      if t = [] then Some 0
      else if take 2 t \<in> {''0x'', ''0X''} then parse_digits 16 (drop 2 t)
      else if take 2 t \<in> {''0o'', ''0O''} then parse_digits 8 (drop 2 t)
      else if take 2 t \<in> {''0b'', ''0B''} then parse_digits 2 (drop 2 t)
      else if hd t = CHR ''+'' then unsigned_number (tl t)
      else if hd t = CHR ''-'' then map_option uminus (unsigned_number (tl t))
      else unsigned_number t)"

text \<open>\<open>Number(v)\<close> (ECMAScript ToNumber) on the values \<open>req.currentUser\<close> may hold.\<close>

fun js_number :: "jsval \<Rightarrow> int option" where
  "js_number JsUndefined = None"
| "js_number JsNull = Some 0"
| "js_number (JsBool b) = Some (if b then 1 else 0)"
| "js_number (JsNum n) = Some n"
| "js_number (JsStr s) = string_to_number s"

text \<open>
  A JavaScript value placed into an object literal sent to Prisma: \<open>undefined\<close>
  leaves the key out.
\<close>

fun js_to_json :: "jsval \<Rightarrow> json option" where
  "js_to_json JsUndefined = None"
| "js_to_json JsNull = Some JNull"
| "js_to_json (JsBool b) = Some (JBool b)"
| "js_to_json (JsNum n) = Some (JNum n)"
| "js_to_json (JsStr s) = Some (JStr s)"

section \<open>Number to string (Number.prototype.toString, radix 10)\<close>

text \<open>
  For a non-negative integer below \<open>10^21\<close> (every millisecond timestamp is),
  JavaScript prints the decimal digits without sign, exponent or leading zeros.
\<close>

fun show_nat :: "nat \<Rightarrow> string" where
  "show_nat n =
     (if n < 10 then [char_of (48 + n)] else show_nat (n div 10) @ [char_of (48 + n mod 10)])"

definition show_int :: "int \<Rightarrow> string" where
  "show_int i = (if i < 0 then CHR ''-'' # show_nat (nat (- i)) else show_nat (nat i))"

declare show_nat.simps [simp del]

section \<open>Lemmas: decimal digits and the roundtrip\<close>

lemma digit_char_of_char: "d < 10 \<Longrightarrow> of_char (char_of (48 + d)) = (48 + d :: nat)"
  by (simp add: of_char_of)

lemma show_nat_digits: "c \<in> set (show_nat n) \<Longrightarrow> \<exists>d::nat. d < 10 \<and> c = char_of (48 + d)"
proof (induction n rule: show_nat.induct)
  case (1 n)
  show ?case
  proof (cases "n < 10")
    case True
    with "1.prems" show ?thesis by (subst (asm) show_nat.simps) auto
  next
    case False
    with "1.prems" have "c \<in> set (show_nat (n div 10)) \<or> c = char_of (48 + n mod 10)"
      by (subst (asm) show_nat.simps) auto
    with "1.IH" False show ?thesis by (metis mod_less_divisor zero_less_numeral)
  qed
qed

lemma show_nat_of_char: "c \<in> set (show_nat n) \<Longrightarrow> 48 \<le> (of_char c :: nat) \<and> of_char c \<le> (57 :: nat)"
  using show_nat_digits [of c n] by (auto simp: digit_char_of_char)

lemma show_nat_not_Nil [simp]: "show_nat n \<noteq> []"
  by (subst show_nat.simps) simp

lemma digit_val_dec: "48 \<le> (of_char c :: nat) \<Longrightarrow> of_char c \<le> (57 :: nat) \<Longrightarrow> digit_val 10 c = Some (of_char c - 48)"
  by (simp add: digit_val_def Let_def)

lemma show_nat_all_dec: "\<forall>c \<in> set (show_nat n). is_dec c"
  using show_nat_of_char digit_val_dec by fastforce

lemma dec_value_snoc: "dec_value (xs @ [c]) = dec_value xs * 10 + (of_char c - 48)"
  by (simp add: dec_value_def)

lemma dec_value_show_nat: "dec_value (show_nat n) = n"
proof (induction n rule: show_nat.induct)
  case (1 n)
  show ?case
  proof (cases "n < 10")
    case True
    then show ?thesis
      by (subst show_nat.simps) (simp add: dec_value_def digit_char_of_char)
  next
    case False
    then have "dec_value (show_nat n) = dec_value (show_nat (n div 10)) * 10 + n mod 10"
      by (subst show_nat.simps) (simp add: dec_value_snoc digit_char_of_char)
    with "1" False show ?thesis by simp
  qed
qed

lemma parse_unsigned_decimal_show_nat: "parse_unsigned_decimal (show_nat n) = Some (int n)"
proof -
  have all: "\<forall>c \<in> set (show_nat n). is_dec c" by (rule show_nat_all_dec)
  then have tw: "takeWhile is_dec (show_nat n) = show_nat n" and dw: "dropWhile is_dec (show_nat n) = []"
    by (simp_all add: takeWhile_eq_all_conv dropWhile_eq_Nil_conv)
  show ?thesis
    unfolding parse_unsigned_decimal_def tw dw
    by (simp add: parse_exponent_def scale10_def dec_value_show_nat)
qed

lemma show_nat_no_char: "(of_char c :: nat) < 48 \<or> 57 < (of_char c :: nat) \<Longrightarrow> c \<notin> set (show_nat n)"
  using show_nat_of_char by fastforce

lemma show_nat_no_space: "c \<in> set (show_nat n) \<Longrightarrow> \<not> is_js_space c"
  using show_nat_of_char [of c n] by (auto simp: is_js_space_def)

lemma js_trim_no_space: "\<forall>c \<in> set t. \<not> is_js_space c \<Longrightarrow> js_trim t = t"
proof -
  assume no: "\<forall>c \<in> set t. \<not> is_js_space c"
  then have d1: "dropWhile is_js_space t = t"
    by (simp add: dropWhile_eq_self_iff)
  from no have "dropWhile is_js_space (rev t) = rev t"
    using last_in_set by (auto simp: dropWhile_eq_self_iff hd_rev)
  with d1 show ?thesis by (simp add: js_trim_def)
qed

lemma js_trim_show_nat: "js_trim (show_nat n) = show_nat n"
  using show_nat_no_space by (blast intro: js_trim_no_space)

lemma take2_in_set: "take 2 t = [a, b] \<Longrightarrow> b \<in> set t"
  by (metis in_set_takeD list.set_intros(1) list.set_intros(2))

lemma show_nat_prefix_free: "take 2 (show_nat n) \<notin> {''0x'', ''0X'', ''0o'', ''0O'', ''0b'', ''0B''}"
proof
  assume "take 2 (show_nat n) \<in> {''0x'', ''0X'', ''0o'', ''0O'', ''0b'', ''0B''}"
  then obtain b where "b \<in> set (show_nat n)" and "b \<in> {CHR ''x'', CHR ''X'', CHR ''o'', CHR ''O'', CHR ''b'', CHR ''B''}"
    using take2_in_set by fastforce
  then show False using show_nat_no_char by auto
qed

lemma show_nat_hd_not_sign: "hd (show_nat n) \<noteq> CHR ''+'' \<and> hd (show_nat n) \<noteq> CHR ''-''"
  using show_nat_no_char [of "hd (show_nat n)" n] by auto

lemma unsigned_number_show_nat: "unsigned_number (show_nat n) = Some (int n)"
proof -
  have "CHR ''I'' \<notin> set (show_nat n)" by (rule show_nat_no_char) simp
  then have "show_nat n \<noteq> ''Infinity''" by auto
  then show ?thesis by (simp add: unsigned_number_def parse_unsigned_decimal_show_nat)
qed

theorem string_to_number_show_int: "string_to_number (show_int i) = Some i"
proof (cases "i < 0")
  case False
  then show ?thesis
    using show_nat_prefix_free [of "nat i"] show_nat_hd_not_sign [of "nat i"]
    by (simp add: string_to_number_def show_int_def js_trim_show_nat unsigned_number_show_nat)
next
  case True
  let ?t = "CHR ''-'' # show_nat (nat (- i))"
  have "\<not> is_js_space CHR ''-''" by (simp add: is_js_space_def)
  with show_nat_no_space have "js_trim ?t = ?t"
    by (auto intro!: js_trim_no_space)
  then show ?thesis using True
    by (simp add: string_to_number_def show_int_def unsigned_number_show_nat)
qed

lemma show_int_segment: "show_int i \<noteq> [] \<and> CHR ''/'' \<notin> set (show_int i)"
  using show_nat_no_char [of "CHR ''/''"] by (simp add: show_int_def)

end
