(* ===== verification/Upload.thy ===== *)
theory Upload
  imports Json
begin

text \<open>
  The upload adapter of \<open>src/controllers/posts.js\<close> (lines 6--15): a multer instance
  with disk storage, destination \<open>image/\<close> and file name
  \<open>new Date().valueOf() + '_' + file.originalname\<close>, used as \<open>upload.single('image')\<close>
  on \<open>POST /create/image\<close>. The multipart parser (busboy) and multer itself are
  libraries; what this controller relies on from them is modelled from their documented
  behaviour: the client's file name is cut to its base name, every file part must come
  from the field \<open>image\<close> and at most one may, a stored file is written to
  \<open>destination/filename\<close> (overwriting a file of the same name), and on an error the
  files already stored are removed. The file system is a map from paths to contents.
\<close>

section \<open>Multipart parts, multer's file object and the file system\<close>

record file_part =
  part_field :: string
  part_name :: string
  part_encoding :: string
  part_mimetype :: string
  part_data :: string

text \<open>The object multer's disk storage puts into \<open>req.file\<close>.\<close>

record upload_file =
  fieldname :: string
  originalname :: string
  encoding :: string
  mimetype :: string
  destination :: string
  filename :: string
  path :: string
  size :: nat

type_synonym filesystem = "string \<rightharpoonup> string"

datatype multer_error = LimitUnexpectedFile string

section \<open>Storage\<close>

text \<open>
  busboy (with \<open>preservePath\<close> off, multer's default) keeps what follows the last
  \<open>/\<close> or \<open>\\\<close> of the client's file name, and drops \<open>.\<close> and \<open>..\<close>.
\<close>

definition is_path_sep :: "char \<Rightarrow> bool" where
  "is_path_sep c \<longleftrightarrow> c = CHR ''/'' \<or> c = CHR 0x5C"

definition js_basename :: "string \<Rightarrow> string" where
  "js_basename s =
     (let b = rev (takeWhile (\<lambda>c. \<not> is_path_sep c) (rev s))
      in if b = ''.'' \<or> b = ''..'' then [] else b)"

definition upload_destination :: string where
  "upload_destination = ''image/''"

text \<open>\<open>cb(null, new Date().valueOf() + '_' + file.originalname)\<close>\<close>

definition upload_filename :: "millis \<Rightarrow> string \<Rightarrow> string" where
  "upload_filename now orig = show_nat now @ ''_'' @ orig"

text \<open>
  Disk storage of one part at time \<open>now\<close>: the path is \<open>path.join(destination,
  filename)\<close>, which is the concatenation since the file name contains no separator.
\<close>

definition disk_store :: "millis \<Rightarrow> file_part \<Rightarrow> filesystem \<Rightarrow> upload_file \<times> filesystem" where
  "disk_store now fp fs =
     (let orig = js_basename (part_name fp);
          fname = upload_filename now orig;
          p = upload_destination @ fname
      in (\<lparr>fieldname = part_field fp, originalname = orig, encoding = part_encoding fp,
           mimetype = part_mimetype fp, destination = upload_destination, filename = fname,
           path = p, size = length (part_data fp)\<rparr>,
          fs(p \<mapsto> part_data fp)))"

text \<open>
  \<open>single(name)\<close> accepts one file of field \<open>name\<close>: the first part of another
  field, or a second part of \<open>name\<close>, is \<open>LIMIT_UNEXPECTED_FILE\<close>.
\<close>

fun unexpected_part :: "string \<Rightarrow> bool \<Rightarrow> file_part list \<Rightarrow> string option" where
  "unexpected_part name seen [] = None"
| "unexpected_part name seen (fp # fps) =
     (if part_field fp \<noteq> name \<or> seen then Some (part_field fp)
      else unexpected_part name True fps)"

text \<open>
  The middleware: on an error the file stored before it (the first part, when it was
  an accepted one) is removed again and the error goes to \<open>next(err)\<close>; otherwise
  \<open>req.file\<close> is the stored file, or undefined when the request carried none.
\<close>

definition upload_single ::
  "string \<Rightarrow> millis \<Rightarrow> file_part list \<Rightarrow> filesystem \<Rightarrow>
   (multer_error + upload_file option) \<times> filesystem" where
  "upload_single name now parts fs =
     (case unexpected_part name False parts of
        Some f \<Rightarrow>
          (Inl (LimitUnexpectedFile f),
           (case parts of
              fp # _ \<Rightarrow> if part_field fp = name then fs(path (fst (disk_store now fp fs)) := None) else fs
            | [] \<Rightarrow> fs))
      | None \<Rightarrow>
          (case parts of
             [] \<Rightarrow> (Inr None, fs)
           | fp # _ \<Rightarrow> (let (f, fs') = disk_store now fp fs in (Inr (Some f), fs'))))"

text \<open>A part as a browser sends it, with the client's path in the file name.\<close>

definition demo_part :: file_part where
  "demo_part = \<lparr>part_field = ''image'', part_name = ''../up/a.png'', part_encoding = ''7bit'',
     part_mimetype = ''image/png'', part_data = ''xy''\<rparr>"

section \<open>Lemmas: where files go, and the file name\<close>

lemma js_basename_no_sep: "c \<in> set (js_basename s) \<Longrightarrow> \<not> is_path_sep c"
  by (auto simp: js_basename_def Let_def split: if_splits dest: set_takeWhileD)

lemma show_nat_no_sep: "c \<in> set (show_nat n) \<Longrightarrow> \<not> is_path_sep c"
  using show_nat_of_char [of c n] by (auto simp: is_path_sep_def)

lemma upload_filename_no_sep: "c \<in> set (upload_filename now (js_basename s)) \<Longrightarrow> \<not> is_path_sep c"
  by (auto simp: upload_filename_def is_path_sep_def dest: show_nat_no_sep js_basename_no_sep)

lemma show_nat_inj: "show_nat m = show_nat n \<Longrightarrow> m = n"
  by (metis dec_value_show_nat)

lemma show_nat_no_underscore: "CHR ''_'' \<notin> set (show_nat n)"
  by (rule show_nat_no_char) simp

lemma upload_filename_split:
  "takeWhile (\<lambda>c. c \<noteq> CHR ''_'') (upload_filename now orig) = show_nat now \<and>
   dropWhile (\<lambda>c. c \<noteq> CHR ''_'') (upload_filename now orig) = CHR ''_'' # orig"
  using show_nat_no_underscore [of now]
  by (auto simp: upload_filename_def takeWhile_append2 dropWhile_append3 takeWhile_tail)

text \<open>
  C10. The stored file name \<open><millis>_<originalname>\<close> determines both the upload time and
  the original name: two uploads collide on disk exactly when they have the same
  millisecond and the same original name.
\<close>

theorem upload_filename_inj:
  "upload_filename t1 o1 = upload_filename t2 o2 \<longleftrightarrow> t1 = t2 \<and> o1 = o2"
proof
  assume eq: "upload_filename t1 o1 = upload_filename t2 o2"
  then have "show_nat t1 = show_nat t2" and "CHR ''_'' # o1 = CHR ''_'' # o2"
    by (metis upload_filename_split)+
  then show "t1 = t2 \<and> o1 = o2" by (auto dest: show_nat_inj)
qed simp

text \<open>
  C11. Disk storage writes each upload directly inside \<open>image/\<close>, under a file name
  that contains no path separator whatever name the client sent, and changes the file
  system at that path only.
\<close>

theorem disk_store_confined:
  assumes "disk_store now fp fs = (f, fs')"
  shows "path f = upload_destination @ filename f \<and> (\<forall>c \<in> set (filename f). \<not> is_path_sep c)
         \<and> fs' = fs(path f \<mapsto> part_data fp)"
  using assms upload_filename_no_sep by (auto simp: disk_store_def Let_def)

lemma unexpected_part_seen [simp]: "unexpected_part name True xs = None \<longleftrightarrow> xs = []"
  by (cases xs) auto

lemma upload_single_none: "upload_single name now [] fs = (Inr None, fs)"
  by (simp add: upload_single_def)

lemma upload_single_one:
  "part_field fp = name \<Longrightarrow>
   upload_single name now [fp] fs = (Inr (Some (fst (disk_store now fp fs))), snd (disk_store now fp fs))"
  by (simp add: upload_single_def split: prod.splits)

lemma upload_single_error_fs:
  assumes "upload_single name now parts fs = (Inl e, fs')"
  shows "\<forall>q. q \<noteq> upload_destination @ upload_filename now (js_basename (part_name (hd parts))) \<longrightarrow> fs' q = fs q"
  using assms by (auto simp: upload_single_def disk_store_def Let_def split: option.splits list.splits if_splits prod.splits)

lemma upload_single_ok:
  assumes "upload_single name now parts fs = (Inr (Some f), fs')"
  shows "\<exists>fp. parts = [fp] \<and> part_field fp = name \<and> (f, fs') = disk_store now fp fs"
  using assms by (auto simp: upload_single_def split: option.splits list.splits if_splits prod.splits)

theorem disk_store_confined_witness:
  "disk_store 17 demo_part Map.empty = (fst (disk_store 17 demo_part Map.empty), snd (disk_store 17 demo_part Map.empty))
   \<and> path (fst (disk_store 17 demo_part Map.empty)) = ''image/17_a.png''
   \<and> path (fst (disk_store 17 demo_part Map.empty)) = upload_destination @ filename (fst (disk_store 17 demo_part Map.empty))
   \<and> snd (disk_store 17 demo_part Map.empty) ''image/17_a.png'' = Some ''xy''"
proof -
  have h: "disk_store 17 demo_part Map.empty = (fst (disk_store 17 demo_part Map.empty), snd (disk_store 17 demo_part Map.empty))"
    by simp
  have p: "path (fst (disk_store 17 demo_part Map.empty)) = ''image/17_a.png''"
    by code_simp
  have d: "part_data demo_part = ''xy''" by (simp add: demo_part_def)
  show ?thesis using h p d disk_store_confined [OF h] by simp
qed

lemma length_show_nat: "10 ^ k \<le> n \<Longrightarrow> n < 10 ^ Suc k \<Longrightarrow> length (show_nat n) = Suc k"
proof (induction k arbitrary: n)
  case 0
  then show ?case by (simp add: show_nat.simps)
next
  case (Suc k)
  have "(10::nat) \<le> 10 ^ Suc k" using one_le_power [of "10::nat" k] by simp
  then have ge: "10 \<le> n" using Suc.prems(1) by linarith
  have "10 ^ k \<le> n div 10" using div_le_mono [OF Suc.prems(1), of 10] by simp
  moreover have "n div 10 < 10 ^ Suc k"
    using Suc.prems(2) by (intro less_mult_imp_div_less) (simp add: mult.commute)
  ultimately have "length (show_nat (n div 10)) = Suc k" by (rule Suc.IH)
  then show ?case using ge by (simp add: show_nat.simps [of n])
qed

text \<open>
  C24. For every upload time from 2001 to 2286 (\<open>10^12 \<le> now < 10^13\<close> milliseconds),
  the stored file name is the original base name with exactly 14 characters in front
  (13 digits and \<open>_\<close>): an original name longer than 241 characters gives a name past
  the 255 bytes most file systems allow, and the write fails.
\<close>

theorem upload_filename_length:
  assumes "10 ^ 12 \<le> now" and "now < 10 ^ 13" and "disk_store now fp fs = (f, fs')"
  shows "length (filename f) = 14 + length (originalname f) \<and> originalname f = js_basename (part_name fp)"
proof -
  have "length (show_nat now) = 13" using length_show_nat [of 12 now] assms(1,2) by simp
  then show ?thesis using assms(3) by (auto simp: disk_store_def Let_def upload_filename_def)
qed

theorem upload_filename_length_witness:
  "10 ^ 12 \<le> (1700000000000::nat) \<and> (1700000000000::nat) < 10 ^ 13
   \<and> length (filename (fst (disk_store 1700000000000 demo_part Map.empty)))
       = 14 + length (originalname (fst (disk_store 1700000000000 demo_part Map.empty)))"
proof -
  have h: "10 ^ 12 \<le> (1700000000000::nat)" "(1700000000000::nat) < 10 ^ 13"
    "disk_store 1700000000000 demo_part Map.empty
       = (fst (disk_store 1700000000000 demo_part Map.empty), snd (disk_store 1700000000000 demo_part Map.empty))"
    by simp_all
  show ?thesis using h upload_filename_length [OF h] by blast
qed



end
