(* ===== verification/Store.thy ===== *)
theory Store
  imports Upload
begin

text \<open>
  The persistent store as the controller sees it through the Prisma client \<open>db\<close>
  (\<open>src/utils/generatePrisma.js\<close>, not part of the sources): five tables, each a list
  of rows in insertion order (the order \<open>findMany\<close> returns them in), and the
  sequences that number new posts and images. The schema is not in the repository;
  it is taken from the specification (section 3) and the field names the controller
  uses, with Prisma's default referential actions: deleting a post, or a user, that a
  row still references is refused (\<open>Restrict\<close>); deleting a comment sets the
  \<open>parentId\<close> of its replies to null (\<open>SetNull\<close>, the relation is optional); changing
  a post's id carries over to the rows that reference it (\<open>Cascade\<close>, the default for
  updates). Each operation returns the thrown error (\<open>Inl\<close>) or its result, and the
  new state; an operation that throws changes nothing, except that a failed insert has
  consumed its sequence value, as a database sequence does.
\<close>

section \<open>Rows and state\<close>

record user =
  user_id :: row_id
  user_name :: string

record post =
  post_id :: row_id
  title :: string
  content :: "string option"
  published :: bool
  authorId :: row_id
  categories :: "string list"

record comment =
  comment_id :: row_id
  comment_content :: string
  comment_postId :: row_id
  comment_authorId :: row_id
  parentId :: "row_id option"

record like =
  like_id :: row_id
  like_postId :: row_id
  like_authorId :: row_id

record image =
  image_id :: row_id
  image_file :: upload_file
  image_postId :: row_id
  image_authorId :: row_id

record db =
  users :: "user list"
  posts :: "post list"
  comments :: "comment list"
  likes :: "like list"
  images :: "image list"
  post_seq :: row_id
  image_seq :: row_id

text \<open>
  The errors the Prisma client throws for these calls: a query argument of the wrong
  type (\<open>PrismaClientValidationError\<close>), an integer that does not fit the 32-bit \<open>Int\<close>
  of the schema, and the codes P2025, P2003, P2002.
\<close>

datatype store_error = ValidationError | OutOfRange | RecordNotFound | ForeignKeyViolation | UniqueViolation

abbreviation user_ids :: "db \<Rightarrow> row_id list" where
  "user_ids d \<equiv> map user_id (users d)"

abbreviation post_ids :: "db \<Rightarrow> row_id list" where
  "post_ids d \<equiv> map post_id (posts d)"

abbreviation comment_ids :: "db \<Rightarrow> row_id list" where
  "comment_ids d \<equiv> map comment_id (comments d)"

section \<open>Queries: where, include and select\<close>

text \<open>
  Prisma checks every argument of a query before it sends it. An \<open>Int\<close> field takes an
  integral number that fits 32 bits: \<open>Number(...)\<close> of a non-numeric string is \<open>NaN\<close>,
  which (like a fraction) is refused with a validation error, and a larger integer is
  refused as out of range. \<open>int_arg\<close> is that check on the \<open>int option\<close> that models
  the result of \<open>Number(...)\<close> (\<open>None\<close> for \<open>NaN\<close> and for non-integers).
\<close>

definition in_int4 :: "int \<Rightarrow> bool" where
  "in_int4 n \<longleftrightarrow> - (2 ^ 31) \<le> n \<and> n < 2 ^ 31"

fun int_arg :: "int option \<Rightarrow> store_error + row_id" where
  "int_arg None = Inl ValidationError"
| "int_arg (Some n) = (if in_int4 n then Inr n else Inl OutOfRange)"

text \<open>
  The conditions of the controller's \<open>where\<close> clauses on posts; \<open>cond_arg\<close> is the
  error Prisma raises for a condition's argument, if any.
\<close>

datatype post_cond = IdIs "int option" | PublishedIs bool | AuthorIs "int option"

fun post_matches :: "post_cond \<Rightarrow> post \<Rightarrow> bool" where
  "post_matches (IdIs k) p = (k = Some (post_id p))"
| "post_matches (PublishedIs b) p = (published p = b)"
| "post_matches (AuthorIs k) p = (k = Some (authorId p))"

fun cond_arg :: "post_cond \<Rightarrow> store_error option" where
  "cond_arg (IdIs k) = (case int_arg k of Inl e \<Rightarrow> Some e | Inr n \<Rightarrow> None)"
| "cond_arg (PublishedIs b) = None"
| "cond_arg (AuthorIs k) = (case int_arg k of Inl e \<Rightarrow> Some e | Inr n \<Rightarrow> None)"

definition where_post :: "post_cond list \<Rightarrow> post \<Rightarrow> bool" where
  "where_post cs p = list_all (\<lambda>c. post_matches c p) cs"

text \<open>
  What a query puts into each returned post: the scalar fields, or single selected
  ones, and the relations, each with the nested \<open>include\<close> of comments.
\<close>

record comment_include =
  ci_author :: bool
  ci_child :: bool

datatype post_out = OScalars | OTitle | OCategories | OAuthor | OComments comment_include
  | OLikes | OImage

definition user_json :: "user \<Rightarrow> json" where
  "user_json u = JObj [(''id'', JNum (user_id u)), (''name'', JStr (user_name u))]"

definition opt_str_json :: "string option \<Rightarrow> json" where
  "opt_str_json v = (case v of None \<Rightarrow> JNull | Some s \<Rightarrow> JStr s)"

definition post_scalars :: "post \<Rightarrow> json jsobj" where
  "post_scalars p =
     [(''id'', JNum (post_id p)), (''title'', JStr (title p)), (''content'', opt_str_json (content p)),
      (''published'', JBool (published p)), (''authorId'', JNum (authorId p)),
      (''categories'', JArr (map JStr (categories p)))]"

definition comment_scalars :: "comment \<Rightarrow> json jsobj" where
  "comment_scalars c =
     [(''id'', JNum (comment_id c)), (''content'', JStr (comment_content c)),
      (''postId'', JNum (comment_postId c)), (''authorId'', JNum (comment_authorId c)),
      (''parentId'', (case parentId c of None \<Rightarrow> JNull | Some q \<Rightarrow> JNum q))]"

definition like_json :: "like \<Rightarrow> json" where
  "like_json l =
     JObj [(''id'', JNum (like_id l)), (''postId'', JNum (like_postId l)),
           (''authorId'', JNum (like_authorId l))]"

definition file_fields :: "upload_file \<Rightarrow> json jsobj" where
  "file_fields f =
     [(''fieldname'', JStr (fieldname f)), (''originalname'', JStr (originalname f)),
      (''encoding'', JStr (encoding f)), (''mimetype'', JStr (mimetype f)),
      (''destination'', JStr (destination f)), (''filename'', JStr (filename f)),
      (''path'', JStr (path f)), (''size'', JNum (int (size f)))]"

definition image_json :: "image \<Rightarrow> json" where
  "image_json i =
     JObj ((''id'', JNum (image_id i)) # file_fields (image_file i) @
           [(''postId'', JNum (image_postId i)), (''authorId'', JNum (image_authorId i))])"

definition author_of :: "db \<Rightarrow> row_id \<Rightarrow> json" where
  "author_of d u = (case find (\<lambda>x. user_id x = u) (users d) of None \<Rightarrow> JNull | Some x \<Rightarrow> user_json x)"

definition comments_of :: "db \<Rightarrow> row_id \<Rightarrow> comment list" where
  "comments_of d pid = filter (\<lambda>c. comment_postId c = pid) (comments d)"

definition child_comments :: "db \<Rightarrow> row_id \<Rightarrow> comment list" where
  "child_comments d cid = filter (\<lambda>c. parentId c = Some cid) (comments d)"

definition likes_of :: "db \<Rightarrow> row_id \<Rightarrow> like list" where
  "likes_of d pid = filter (\<lambda>l. like_postId l = pid) (likes d)"

definition image_of :: "db \<Rightarrow> row_id \<Rightarrow> image option" where
  "image_of d pid = find (\<lambda>i. image_postId i = pid) (images d)"

definition render_comment :: "db \<Rightarrow> comment_include \<Rightarrow> comment \<Rightarrow> json" where
  "render_comment d ci c =
     JObj (comment_scalars c
           @ (if ci_author ci then [(''author'', author_of d (comment_authorId c))] else [])
           @ (if ci_child ci
              then [(''childComments'', JArr (map (JObj \<circ> comment_scalars) (child_comments d (comment_id c))))]
              else []))"

fun render_field :: "db \<Rightarrow> post \<Rightarrow> post_out \<Rightarrow> json jsobj" where
  "render_field d p OScalars = post_scalars p"
| "render_field d p OTitle = [(''title'', JStr (title p))]"
| "render_field d p OCategories = [(''categories'', JArr (map JStr (categories p)))]"
| "render_field d p OAuthor = [(''author'', author_of d (authorId p))]"
| "render_field d p (OComments ci) =
     [(''comments'', JArr (map (render_comment d ci) (comments_of d (post_id p))))]"
| "render_field d p OLikes = [(''likes'', JArr (map like_json (likes_of d (post_id p))))]"
| "render_field d p OImage =
     [(''image'', (case image_of d (post_id p) of None \<Rightarrow> JNull | Some i \<Rightarrow> image_json i))]"

definition render_post :: "db \<Rightarrow> post_out list \<Rightarrow> post \<Rightarrow> json" where
  "render_post d outs p = JObj (concat (map (render_field d p) outs))"

text \<open>\<open>db.post.findMany({where, include | select})\<close> and \<open>db.post.findUnique\<close>.\<close>

definition find_posts :: "post_cond list \<Rightarrow> db \<Rightarrow> post list" where
  "find_posts cs d = filter (where_post cs) (posts d)"

definition post_find_many :: "post_cond list \<Rightarrow> post_out list \<Rightarrow> db \<Rightarrow> store_error + json list" where
  "post_find_many cs outs d =
     (case List.map_filter cond_arg cs of
        e # _ \<Rightarrow> Inl e
      | [] \<Rightarrow> Inr (map (render_post d outs) (find_posts cs d)))"

text \<open>The post a \<open>where: {id: k}\<close> selects; an argument Prisma refuses selects none.\<close>

definition lookup_post :: "int option \<Rightarrow> db \<Rightarrow> post option" where
  "lookup_post k d = (case int_arg k of Inl e \<Rightarrow> None | Inr n \<Rightarrow> find (\<lambda>p. post_id p = n) (posts d))"

definition post_find_unique :: "int option \<Rightarrow> post_out list \<Rightarrow> db \<Rightarrow> store_error + json" where
  "post_find_unique k outs d =
     (case int_arg k of
        Inl e \<Rightarrow> Inl e
      | Inr n \<Rightarrow> Inr (case lookup_post k d of None \<Rightarrow> JNull | Some p \<Rightarrow> render_post d outs p))"

section \<open>Writes: parsing \<open>data\<close>, create, update, delete\<close>

text \<open>
  The \<open>data\<close> object of \<open>post.create\<close> and \<open>post.update\<close>, as Prisma validates it:
  each key must be a field of the post input with a value of the field's type;
  \<open>author\<close> takes a nested \<open>{connect: {id}}\<close>, \<open>authorId\<close> the raw key, and the two
  may not be mixed. An unknown key or a value of the wrong type is a validation error.
\<close>

record post_data =
  d_id :: "row_id option"
  d_title :: "string option"
  d_content :: "string option option"
  d_published :: "bool option"
  d_categories :: "string list option"
  d_authorId :: "row_id option"
  d_connect :: "row_id option"

definition no_post_data :: post_data where
  "no_post_data = \<lparr>d_id = None, d_title = None, d_content = None, d_published = None,
     d_categories = None, d_authorId = None, d_connect = None\<rparr>"

fun json_strs :: "json list \<Rightarrow> string list option" where
  "json_strs [] = Some []"
| "json_strs (JStr s # vs) = map_option (Cons s) (json_strs vs)"
| "json_strs (_ # vs) = None"

definition connect_id :: "json \<Rightarrow> row_id option" where
  "connect_id v =
     (case v of
        JObj [(k, JObj [(k', JNum n)])] \<Rightarrow> if k = ''connect'' \<and> k' = ''id'' then Some n else None
      | _ \<Rightarrow> None)"

definition post_data_field :: "string \<Rightarrow> json \<Rightarrow> post_data \<Rightarrow> store_error + post_data" where
  "post_data_field k v pd =
     (if k = ''id'' then (case v of JNum n \<Rightarrow> Inr (pd\<lparr>d_id := Some n\<rparr>) | _ \<Rightarrow> Inl ValidationError)
      else if k = ''title'' then
        (case v of JStr t \<Rightarrow> Inr (pd\<lparr>d_title := Some t\<rparr>) | _ \<Rightarrow> Inl ValidationError)
      else if k = ''content'' then
        (case v of JStr t \<Rightarrow> Inr (pd\<lparr>d_content := Some (Some t)\<rparr>)
         | JNull \<Rightarrow> Inr (pd\<lparr>d_content := Some None\<rparr>) | _ \<Rightarrow> Inl ValidationError)
      else if k = ''published'' then
        (case v of JBool b \<Rightarrow> Inr (pd\<lparr>d_published := Some b\<rparr>) | _ \<Rightarrow> Inl ValidationError)
      else if k = ''categories'' then
        (case v of JArr vs \<Rightarrow>
           (case json_strs vs of Some cs \<Rightarrow> Inr (pd\<lparr>d_categories := Some cs\<rparr>) | None \<Rightarrow> Inl ValidationError)
         | _ \<Rightarrow> Inl ValidationError)
      else if k = ''authorId'' then
        (case v of JNum n \<Rightarrow> Inr (pd\<lparr>d_authorId := Some n\<rparr>) | _ \<Rightarrow> Inl ValidationError)
      else if k = ''author'' then
        (case connect_id v of Some n \<Rightarrow> Inr (pd\<lparr>d_connect := Some n\<rparr>) | None \<Rightarrow> Inl ValidationError)
      else Inl ValidationError)"

fun parse_post_data :: "json jsobj \<Rightarrow> post_data \<Rightarrow> store_error + post_data" where
  "parse_post_data [] pd = Inr pd"
| "parse_post_data ((k, v) # kvs) pd =
     (case post_data_field k v pd of Inl e \<Rightarrow> Inl e | Inr pd' \<Rightarrow> parse_post_data kvs pd')"

text \<open>
  The integers of \<open>data\<close> must fit the 32-bit columns; the database refuses a larger
  one when the query runs, after the client's validation has passed.
\<close>

definition data_in_range :: "post_data \<Rightarrow> bool" where
  "data_in_range pd \<longleftrightarrow>
     pred_option in_int4 (d_id pd) \<and> pred_option in_int4 (d_authorId pd) \<and> pred_option in_int4 (d_connect pd)"

definition valid_author_input :: "post_data \<Rightarrow> bool" where
  "valid_author_input pd \<longleftrightarrow> d_authorId pd = None \<or> d_connect pd = None"

text \<open>
  The author a write sets: a nested \<open>connect\<close> to a missing user is P2025, a raw
  \<open>authorId\<close> that no user has violates the foreign key.
\<close>

definition check_author :: "post_data \<Rightarrow> db \<Rightarrow> store_error + row_id option" where
  "check_author pd d =
     (case d_connect pd of
        Some u \<Rightarrow> if u \<in> set (user_ids d) then Inr (Some u) else Inl RecordNotFound
      | None \<Rightarrow>
          (case d_authorId pd of
             Some u \<Rightarrow> if u \<in> set (user_ids d) then Inr (Some u) else Inl ForeignKeyViolation
           | None \<Rightarrow> Inr None))"

definition new_post :: "post_data \<Rightarrow> row_id \<Rightarrow> row_id \<Rightarrow> post" where
  "new_post pd pid u =
     \<lparr>post_id = pid, title = (case d_title pd of None \<Rightarrow> [] | Some t \<Rightarrow> t),
      content = (case d_content pd of None \<Rightarrow> None | Some c \<Rightarrow> c),
      published = (case d_published pd of None \<Rightarrow> False | Some b \<Rightarrow> b),
      authorId = u, categories = (case d_categories pd of None \<Rightarrow> [] | Some cs \<Rightarrow> cs)\<rparr>"

text \<open>
  \<open>db.post.create({data})\<close>: validation, then the author, then the key: an explicit
  \<open>id\<close> that exists is a unique violation; otherwise the sequence gives the key (and
  is advanced even when that key turns out to be taken). The sequence of the 32-bit
  \<open>autoincrement\<close> key fails once it has passed the largest \<open>Int\<close>.
\<close>

definition post_create :: "json jsobj \<Rightarrow> db \<Rightarrow> (store_error + post) \<times> db" where
  "post_create data d =
     (case parse_post_data data no_post_data of
        Inl e \<Rightarrow> (Inl e, d)
      | Inr pd \<Rightarrow>
          if \<not> valid_author_input pd \<or> d_title pd = None then (Inl ValidationError, d)
          else if \<not> data_in_range pd then (Inl OutOfRange, d)
          else (case check_author pd d of
                  Inl e \<Rightarrow> (Inl e, d)
                | Inr None \<Rightarrow> (Inl ValidationError, d)
                | Inr (Some u) \<Rightarrow>
                    (case d_id pd of
                       Some pid \<Rightarrow>
                         if pid \<in> set (post_ids d) then (Inl UniqueViolation, d)
                         else (Inr (new_post pd pid u), d\<lparr>posts := posts d @ [new_post pd pid u]\<rparr>)
                     | None \<Rightarrow>
                         (let pid = post_seq d; d1 = d\<lparr>post_seq := pid + 1\<rparr> in
                          if \<not> in_int4 pid then (Inl OutOfRange, d)
                          else if pid \<in> set (post_ids d) then (Inl UniqueViolation, d1)
                          else (Inr (new_post pd pid u), d1\<lparr>posts := posts d @ [new_post pd pid u]\<rparr>)))))"

definition apply_post_data :: "post_data \<Rightarrow> row_id option \<Rightarrow> post \<Rightarrow> post" where
  "apply_post_data pd u p =
     p\<lparr>post_id := (case d_id pd of None \<Rightarrow> post_id p | Some n \<Rightarrow> n),
       title := (case d_title pd of None \<Rightarrow> title p | Some t \<Rightarrow> t),
       content := (case d_content pd of None \<Rightarrow> content p | Some c \<Rightarrow> c),
       published := (case d_published pd of None \<Rightarrow> published p | Some b \<Rightarrow> b),
       authorId := (case u of None \<Rightarrow> authorId p | Some a \<Rightarrow> a),
       categories := (case d_categories pd of None \<Rightarrow> categories p | Some cs \<Rightarrow> cs)\<rparr>"

text \<open>Replacing the post with key \<open>old\<close>; a new key cascades to the referencing rows.\<close>

definition replace_post :: "row_id \<Rightarrow> post \<Rightarrow> db \<Rightarrow> db" where
  "replace_post old p' d =
     d\<lparr>posts := map (\<lambda>q. if post_id q = old then p' else q) (posts d),
       comments := map (\<lambda>c. if comment_postId c = old then c\<lparr>comment_postId := post_id p'\<rparr> else c) (comments d),
       likes := map (\<lambda>l. if like_postId l = old then l\<lparr>like_postId := post_id p'\<rparr> else l) (likes d),
       images := map (\<lambda>i. if image_postId i = old then i\<lparr>image_postId := post_id p'\<rparr> else i) (images d)\<rparr>"

text \<open>\<open>db.post.update({where: {id}, data})\<close>\<close>

definition post_update :: "int option \<Rightarrow> json jsobj \<Rightarrow> db \<Rightarrow> (store_error + post) \<times> db" where
  "post_update k data d =
     (if k = None then (Inl ValidationError, d) else
      case parse_post_data data no_post_data of
        Inl e \<Rightarrow> (Inl e, d)
      | Inr pd \<Rightarrow>
          if \<not> valid_author_input pd then (Inl ValidationError, d)
          else if \<not> (pred_option in_int4 k \<and> data_in_range pd) then (Inl OutOfRange, d)
          else (case lookup_post k d of
                  None \<Rightarrow> (Inl RecordNotFound, d)
                | Some p \<Rightarrow>
                    (case check_author pd d of
                       Inl e \<Rightarrow> (Inl e, d)
                     | Inr u \<Rightarrow>
                         (let p' = apply_post_data pd u p in
                          if post_id p' \<noteq> post_id p \<and> post_id p' \<in> set (post_ids d)
                          then (Inl UniqueViolation, d)
                          else (Inr p', replace_post (post_id p) p' d)))))"

text \<open>
  The relation filter \<open>{posts: {id: k}}\<close> of the three \<open>deleteMany\<close> calls: the row's
  post exists and has the key \<open>k\<close>.
\<close>

definition rel_post_is :: "int option \<Rightarrow> db \<Rightarrow> row_id \<Rightarrow> bool" where
  "rel_post_is k d pid \<longleftrightarrow> k = Some pid \<and> pid \<in> set (post_ids d)"

definition like_delete_many :: "int option \<Rightarrow> db \<Rightarrow> (store_error + nat) \<times> db" where
  "like_delete_many k d =
     (case int_arg k of Inl e \<Rightarrow> (Inl e, d) | Inr n \<Rightarrow>
       (Inr (length (filter (\<lambda>l. rel_post_is k d (like_postId l)) (likes d))),
        d\<lparr>likes := filter (\<lambda>l. \<not> rel_post_is k d (like_postId l)) (likes d)\<rparr>))"

definition unlink_parent :: "row_id list \<Rightarrow> comment \<Rightarrow> comment" where
  "unlink_parent gone c =
     (case parentId c of Some q \<Rightarrow> if q \<in> set gone then c\<lparr>parentId := None\<rparr> else c | None \<Rightarrow> c)"

definition comment_delete_many :: "int option \<Rightarrow> db \<Rightarrow> (store_error + nat) \<times> db" where
  "comment_delete_many k d =
     (case int_arg k of Inl e \<Rightarrow> (Inl e, d) | Inr n \<Rightarrow>
      let gone = filter (\<lambda>c. rel_post_is k d (comment_postId c)) (comments d);
          kept = filter (\<lambda>c. \<not> rel_post_is k d (comment_postId c)) (comments d)
      in (Inr (length gone), d\<lparr>comments := map (unlink_parent (map comment_id gone)) kept\<rparr>))"

definition image_delete_many :: "int option \<Rightarrow> db \<Rightarrow> (store_error + nat) \<times> db" where
  "image_delete_many k d =
     (case int_arg k of Inl e \<Rightarrow> (Inl e, d) | Inr n \<Rightarrow>
       (Inr (length (filter (\<lambda>i. rel_post_is k d (image_postId i)) (images d))),
        d\<lparr>images := filter (\<lambda>i. \<not> rel_post_is k d (image_postId i)) (images d)\<rparr>))"

definition post_referenced :: "row_id \<Rightarrow> db \<Rightarrow> bool" where
  "post_referenced pid d \<longleftrightarrow>
     list_ex (\<lambda>l. like_postId l = pid) (likes d) \<or> list_ex (\<lambda>c. comment_postId c = pid) (comments d)
     \<or> list_ex (\<lambda>i. image_postId i = pid) (images d)"

text \<open>\<open>db.post.delete({where: {id}})\<close>: refused while a row references the post.\<close>

definition post_delete :: "int option \<Rightarrow> db \<Rightarrow> (store_error + post) \<times> db" where
  "post_delete k d =
     (case int_arg k of Inl e \<Rightarrow> (Inl e, d) | Inr n \<Rightarrow>
      case lookup_post k d of
        None \<Rightarrow> (Inl RecordNotFound, d)
      | Some p \<Rightarrow>
          if post_referenced (post_id p) d then (Inl ForeignKeyViolation, d)
          else (Inr p, d\<lparr>posts := filter (\<lambda>q. post_id q \<noteq> post_id p) (posts d)\<rparr>))"

text \<open>
  \<open>db.image.create({data: {...file, posts: {connect: {id: pid}}, author: {connect:
  {id: u}}}})\<close>. Without a file the spread adds no field and the required file fields
  are missing. A post has at most one image (the relation is one-to-one).
\<close>

definition image_create :: "upload_file option \<Rightarrow> row_id \<Rightarrow> row_id \<Rightarrow> db \<Rightarrow> (store_error + image) \<times> db" where
  "image_create file pid u d =
     (case file of
        None \<Rightarrow> (Inl ValidationError, d)
      | Some f \<Rightarrow>
          if pid \<notin> set (post_ids d) \<or> u \<notin> set (user_ids d) then (Inl RecordNotFound, d)
          else (let iid = image_seq d; d1 = d\<lparr>image_seq := iid + 1\<rparr> in
                if list_ex (\<lambda>i. image_postId i = pid) (images d) \<or> iid \<in> set (map image_id (images d))
                then (Inl UniqueViolation, d1)
                else (let i = \<lparr>image_id = iid, image_file = f, image_postId = pid, image_authorId = u\<rparr>
                      in (Inr i, d1\<lparr>images := images d @ [i]\<rparr>))))"

section \<open>Referential integrity\<close>

text \<open>
  The invariant the store keeps: keys are unique, every reference names an existing
  row, a post has at most one image, and the image sequence is ahead of every image key.
\<close>

definition keys_ok :: "db \<Rightarrow> bool" where
  "keys_ok d \<longleftrightarrow> distinct (user_ids d) \<and> list_all in_int4 (user_ids d)
     \<and> distinct (post_ids d) \<and> list_all in_int4 (post_ids d) \<and> distinct (comment_ids d)
     \<and> distinct (map like_id (likes d)) \<and> distinct (map image_id (images d))
     \<and> distinct (map image_postId (images d))"

definition posts_ok :: "db \<Rightarrow> bool" where
  "posts_ok d \<longleftrightarrow> list_all (\<lambda>p. authorId p \<in> set (user_ids d)) (posts d)"

definition comments_ok :: "db \<Rightarrow> bool" where
  "comments_ok d \<longleftrightarrow> list_all (\<lambda>c. comment_postId c \<in> set (post_ids d)
     \<and> comment_authorId c \<in> set (user_ids d)
     \<and> (\<forall>q \<in> set_option (parentId c). q \<in> set (comment_ids d))) (comments d)"

definition likes_ok :: "db \<Rightarrow> bool" where
  "likes_ok d \<longleftrightarrow> list_all (\<lambda>l. like_postId l \<in> set (post_ids d) \<and> like_authorId l \<in> set (user_ids d)) (likes d)"

definition images_ok :: "db \<Rightarrow> bool" where
  "images_ok d \<longleftrightarrow> list_all (\<lambda>i. image_postId i \<in> set (post_ids d) \<and> image_authorId i \<in> set (user_ids d)
     \<and> image_id i < image_seq d) (images d)"

definition db_wf :: "db \<Rightarrow> bool" where
  "db_wf d \<longleftrightarrow> keys_ok d \<and> posts_ok d \<and> comments_ok d \<and> likes_ok d \<and> images_ok d"

section \<open>Lemmas: every store operation keeps referential integrity\<close>

lemmas db_wf_unfold = db_wf_def keys_ok_def posts_ok_def comments_ok_def likes_ok_def images_ok_def

lemma check_author_user: "check_author pd d = Inr (Some u) \<Longrightarrow> u \<in> set (user_ids d)"
  by (auto simp: check_author_def split: option.splits if_splits)

lemma new_post_keys [simp]: "post_id (new_post pd pid u) = pid" "authorId (new_post pd pid u) = u"
  by (simp_all add: new_post_def)

lemma db_wf_post_seq [simp]: "db_wf (d\<lparr>post_seq := s\<rparr>) = db_wf d"
  by (simp add: db_wf_unfold)

lemma int_arg_Inr [simp]: "int_arg k = Inr n \<longleftrightarrow> k = Some n \<and> in_int4 n"
  by (cases k) auto

lemma db_wf_add_post:
  assumes "db_wf d" and "post_id p \<notin> set (post_ids d)" and "authorId p \<in> set (user_ids d)"
    and "in_int4 (post_id p)"
  shows "db_wf (d\<lparr>posts := posts d @ [p]\<rparr>)"
  using assms by (auto simp: db_wf_unfold list_all_iff)

lemma post_create_wf:
  assumes "db_wf d" and "post_create data d = (r, d')"
  shows "db_wf d'"
proof -
  have seq: "db_wf (d\<lparr>post_seq := s, posts := posts d @ [p]\<rparr>)"
    if "post_id p \<notin> set (post_ids d)" and "authorId p \<in> set (user_ids d)" and "in_int4 (post_id p)" for s p
    using db_wf_add_post [OF assms(1) that] by (simp add: db_wf_unfold)
  show ?thesis
    using assms db_wf_add_post seq check_author_user
    by (auto simp: post_create_def Let_def data_in_range_def split: sum.splits if_splits option.splits)
qed

lemma like_delete_many_wf:
  assumes "db_wf d" and "like_delete_many k d = (r, d')"
  shows "db_wf d'"
  using assms by (auto simp: like_delete_many_def db_wf_unfold list_all_iff distinct_map_filter split: sum.splits)

lemma image_delete_many_wf:
  assumes "db_wf d" and "image_delete_many k d = (r, d')"
  shows "db_wf d'"
  using assms by (auto simp: image_delete_many_def db_wf_unfold list_all_iff distinct_map_filter split: sum.splits)

lemma unlink_parent_keys [simp]:
  "comment_id (unlink_parent g c) = comment_id c"
  "comment_postId (unlink_parent g c) = comment_postId c"
  "comment_authorId (unlink_parent g c) = comment_authorId c"
  by (simp_all add: unlink_parent_def split: option.splits)

lemma comment_id_comp_unlink [simp]: "comment_id \<circ> unlink_parent g = comment_id"
  by (rule ext) simp

lemma unlink_parent_parent:
  "set_option (parentId (unlink_parent g c)) = set_option (parentId c) - set g"
  by (auto simp: unlink_parent_def split: option.splits)

lemma comment_delete_many_wf:
  assumes "db_wf d" and "comment_delete_many k d = (r, d')"
  shows "db_wf d'"
proof (cases "int_arg k")
  case (Inl e)
  then show ?thesis using assms by (simp add: comment_delete_many_def)
next
  case (Inr n)
  let ?gone = "filter (\<lambda>c. rel_post_is k d (comment_postId c)) (comments d)"
  let ?kept = "filter (\<lambda>c. \<not> rel_post_is k d (comment_postId c)) (comments d)"
  have d': "d' = d\<lparr>comments := map (unlink_parent (map comment_id ?gone)) ?kept\<rparr>"
    using assms(2) Inr by (simp add: comment_delete_many_def Let_def)
  have ids: "map comment_id (map (unlink_parent g) xs) = map comment_id xs" for g xs
    by (induction xs) auto
  have parent_kept: "q \<in> comment_id ` set ?kept"
    if "q \<in> set (comment_ids d)" and "q \<notin> set (map comment_id ?gone)" for q
    using that by auto
  show ?thesis
    using assms(1) parent_kept unfolding d'
    by (auto simp: db_wf_unfold list_all_iff ids distinct_map_filter unlink_parent_parent)
qed

lemma no_reference:
  "\<not> post_referenced pid d \<Longrightarrow>
     (\<forall>l \<in> set (likes d). like_postId l \<noteq> pid) \<and> (\<forall>c \<in> set (comments d). comment_postId c \<noteq> pid)
     \<and> (\<forall>i \<in> set (images d). image_postId i \<noteq> pid)"
  by (auto simp: post_referenced_def list_ex_iff)

lemma lookup_post_Some:
  "lookup_post k d = Some p \<Longrightarrow> p \<in> set (posts d) \<and> k = Some (post_id p) \<and> in_int4 (post_id p)"
  unfolding lookup_post_def by (auto split: sum.splits dest: find_Some_in_set)

lemma post_delete_wf:
  assumes "db_wf d" and "post_delete k d = (r, d')"
  shows "db_wf d'"
proof (cases "lookup_post k d")
  case None
  then show ?thesis using assms by (simp add: post_delete_def split: sum.splits)
next
  case (Some p)
  show ?thesis
  proof (cases "post_referenced (post_id p) d")
    case True
    then show ?thesis using assms Some lookup_post_Some [OF Some] by (simp add: post_delete_def)
  next
    case False
    let ?d = "d\<lparr>posts := filter (\<lambda>q. post_id q \<noteq> post_id p) (posts d)\<rparr>"
    have d': "d' = ?d" using assms(2) Some False lookup_post_Some [OF Some] by (simp add: post_delete_def)
    have ids: "set (post_ids ?d) = set (post_ids d) - {post_id p}"
      by auto
    show ?thesis
      using assms(1) no_reference [OF False] unfolding d'
      by (simp only: db_wf_unfold ids) (auto simp: list_all_iff distinct_map_filter)
  qed
qed

lemma image_create_wf:
  assumes "db_wf d" and "image_create file pid u d = (r, d')"
  shows "db_wf d'"
proof (cases "file = None \<or> pid \<notin> set (post_ids d) \<or> u \<notin> set (user_ids d)")
  case True
  then show ?thesis using assms by (auto simp: image_create_def split: option.splits)
next
  case False
  then obtain f where f: "file = Some f" and pid: "pid \<in> set (post_ids d)" and u: "u \<in> set (user_ids d)"
    by auto
  let ?d1 = "d\<lparr>image_seq := image_seq d + 1\<rparr>"
  let ?i = "\<lparr>image_id = image_seq d, image_file = f, image_postId = pid, image_authorId = u\<rparr>"
  have wf1: "db_wf ?d1"
    using assms(1) by (auto simp: db_wf_unfold list_all_iff)
  show ?thesis
  proof (cases "list_ex (\<lambda>i. image_postId i = pid) (images d) \<or> image_seq d \<in> set (map image_id (images d))")
    case True
    then have "d' = ?d1" using assms(2) f pid u by (simp add: image_create_def Let_def)
    then show ?thesis using wf1 by simp
  next
    case False
    then have d': "d' = ?d1\<lparr>images := images d @ [?i]\<rparr>"
      using assms(2) f pid u by (simp add: image_create_def Let_def)
    show ?thesis
      using assms(1) False pid u unfolding d'
      by (auto simp: db_wf_unfold list_all_iff list_ex_iff)
  qed
qed

lemma replace_post_tables:
  "post_ids (replace_post old p' d) = map (\<lambda>q. if post_id q = old then post_id p' else post_id q) (posts d)"
  "map comment_postId (comments (replace_post old p' d)) =
     map (\<lambda>c. if comment_postId c = old then post_id p' else comment_postId c) (comments d)"
  "map like_postId (likes (replace_post old p' d)) =
     map (\<lambda>l. if like_postId l = old then post_id p' else like_postId l) (likes d)"
  "map image_postId (images (replace_post old p' d)) =
     map (\<lambda>i. if image_postId i = old then post_id p' else image_postId i) (images d)"
  "users (replace_post old p' d) = users d"
  "image_seq (replace_post old p' d) = image_seq d"
  "comment_ids (replace_post old p' d) = comment_ids d"
  "map like_id (likes (replace_post old p' d)) = map like_id (likes d)"
  "map image_id (images (replace_post old p' d)) = map image_id (images d)"
  by (simp_all add: replace_post_def comp_def if_distrib)

lemma replace_post_rows:
  "c' \<in> set (comments (replace_post old p' d)) \<Longrightarrow> \<exists>c \<in> set (comments d).
     comment_postId c' = (if comment_postId c = old then post_id p' else comment_postId c)
     \<and> comment_authorId c' = comment_authorId c \<and> parentId c' = parentId c"
  "l' \<in> set (likes (replace_post old p' d)) \<Longrightarrow> \<exists>l \<in> set (likes d).
     like_postId l' = (if like_postId l = old then post_id p' else like_postId l)
     \<and> like_authorId l' = like_authorId l"
  "i' \<in> set (images (replace_post old p' d)) \<Longrightarrow> \<exists>i \<in> set (images d).
     image_postId i' = (if image_postId i = old then post_id p' else image_postId i)
     \<and> image_authorId i' = image_authorId i \<and> image_id i' = image_id i"
  "q' \<in> set (posts (replace_post old p' d)) \<Longrightarrow> q' = p' \<or> q' \<in> set (posts d)"
  by (auto simp: replace_post_def)

lemma replace_post_wf:
  assumes wf: "db_wf d" and p: "p \<in> set (posts d)"
    and key: "post_id p' = post_id p \<or> post_id p' \<notin> set (post_ids d)"
    and au: "authorId p' \<in> set (user_ids d)" and rng: "in_int4 (post_id p')"
  shows "db_wf (replace_post (post_id p) p' d)"
proof -
  let ?old = "post_id p" and ?new = "post_id p'" and ?d = "replace_post (post_id p) p' d"
  have old: "?old \<in> set (post_ids d)" using p by simp
  have "set (post_ids ?d) = insert ?new (set (post_ids d) - {?old})"
    unfolding replace_post_tables(1) by (rule set_map_rekey [OF old])
  then have ids: "post_id ` set (posts ?d) = insert ?new (post_id ` set (posts d) - {?old})"
    by simp
  have moved: "(if x = ?old then ?new else x) \<in> post_id ` set (posts ?d)"
    if "x \<in> post_id ` set (posts d)" for x
    using that ids by auto
  have cids: "comment_id ` set (comments ?d) = comment_id ` set (comments d)"
    using replace_post_tables(7) [of ?old p' d] by (metis list.set_map)
  have img_key: "?new = ?old \<or> ?new \<notin> set (map image_postId (images d))"
    using key wf by (auto simp: db_wf_def images_ok_def list_all_iff)
  have ints: "list_all in_int4 (post_ids ?d)"
    using wf rng unfolding replace_post_tables(1) by (auto simp: db_wf_def keys_ok_def list_all_iff)
  have "keys_ok ?d"
    using wf key img_key ints
    by (simp only: keys_ok_def) (simp add: db_wf_def keys_ok_def replace_post_tables distinct_map_rekey)
  moreover have "posts_ok ?d"
    using wf au replace_post_rows(4) [of _ ?old p' d]
    by (auto simp: db_wf_def posts_ok_def list_all_iff replace_post_tables(5))
  moreover have "comments_ok ?d"
    unfolding comments_ok_def list_all_iff
  proof
    fix c' assume "c' \<in> set (comments ?d)"
    then obtain c where "c \<in> set (comments d)"
      and "comment_postId c' = (if comment_postId c = ?old then ?new else comment_postId c)"
      and "comment_authorId c' = comment_authorId c" and "parentId c' = parentId c"
      by (blast dest: replace_post_rows(1))
    with wf moved cids show "comment_postId c' \<in> set (post_ids ?d) \<and> comment_authorId c' \<in> set (user_ids ?d)
        \<and> (\<forall>q \<in> set_option (parentId c'). q \<in> set (comment_ids ?d))"
      by (auto simp: db_wf_def comments_ok_def list_all_iff replace_post_tables(5))
  qed
  moreover have "likes_ok ?d"
    unfolding likes_ok_def list_all_iff
  proof
    fix l' assume "l' \<in> set (likes ?d)"
    then obtain l where "l \<in> set (likes d)"
      and "like_postId l' = (if like_postId l = ?old then ?new else like_postId l)"
      and "like_authorId l' = like_authorId l"
      by (blast dest: replace_post_rows(2))
    with wf moved show "like_postId l' \<in> set (post_ids ?d) \<and> like_authorId l' \<in> set (user_ids ?d)"
      by (auto simp: db_wf_def likes_ok_def list_all_iff replace_post_tables(5))
  qed
  moreover have "images_ok ?d"
    unfolding images_ok_def list_all_iff
  proof
    fix i' assume "i' \<in> set (images ?d)"
    then obtain i where "i \<in> set (images d)"
      and "image_postId i' = (if image_postId i = ?old then ?new else image_postId i)"
      and "image_authorId i' = image_authorId i" and "image_id i' = image_id i"
      by (blast dest: replace_post_rows(3))
    with wf moved show "image_postId i' \<in> set (post_ids ?d) \<and> image_authorId i' \<in> set (user_ids ?d)
        \<and> image_id i' < image_seq ?d"
      by (auto simp: db_wf_def images_ok_def list_all_iff replace_post_tables(5,6))
  qed
  ultimately show ?thesis by (simp add: db_wf_def)
qed

lemma apply_post_data_author:
  assumes "db_wf d" and "p \<in> set (posts d)" and "check_author pd d = Inr u"
  shows "authorId (apply_post_data pd u p) \<in> set (user_ids d)"
proof (cases u)
  case None
  then show ?thesis using assms(1,2) by (auto simp: apply_post_data_def db_wf_def posts_ok_def list_all_iff)
next
  case (Some a)
  then show ?thesis using assms(3) check_author_user by (simp add: apply_post_data_def)
qed

lemma apply_post_data_int4:
  assumes "data_in_range pd" and "in_int4 (post_id p)"
  shows "in_int4 (post_id (apply_post_data pd u p))"
  using assms by (auto simp: apply_post_data_def data_in_range_def split: option.splits)

lemma post_update_wf:
  assumes "db_wf d" and "post_update k data d = (r, d')"
  shows "db_wf d'"
  using assms lookup_post_Some replace_post_wf apply_post_data_author apply_post_data_int4
  by (auto simp: post_update_def Let_def split: sum.splits if_splits option.splits)

lemma where_post_fun: "where_post cs = (\<lambda>p. list_all (\<lambda>c. post_matches c p) cs)"
  by (rule ext) (simp add: where_post_def)

end
