(* ===== verification/Handlers.thy ===== *)
theory Handlers
  imports Store
begin

text \<open>
  The nine route handlers of \<open>src/controllers/posts.js\<close>, one definition each, over
  the server's state: the store, the file system the upload middleware writes to, and the
  clock \<open>new Date()\<close> reads. Each handler awaits its store calls in the order of the
  source; they are sequenced with \<open>bindE\<close>, so a call that throws ends the handler and
  leaves the effects of the calls before it in place. A thrown error is not caught: the
  handler is an \<open>async\<close> function and Express 4 does not pass its rejected promise on,
  so no response is sent (\<open>Unhandled\<close>). An error of the upload middleware goes to
  \<open>next(err)\<close> and Express's default error page (\<open>ErrorPage\<close>).
\<close>

section \<open>Server state, requests and outcomes\<close>

record srv =
  store :: db
  files :: filesystem
  clock :: millis

text \<open>
  What a handler reads from the request besides the path parameter: \<open>req.body\<close> as the
  JSON body parser left it, \<open>req.currentUser\<close>, and the multipart text fields and file
  parts that multer parses on the upload route.
\<close>

record request =
  req_body :: "json jsobj"
  req_currentUser :: jsval
  req_form :: "string jsobj"
  req_parts :: "file_part list"

datatype outcome = Respond json | Unhandled store_error | ErrorPage multer_error

definition run_db :: "(db \<Rightarrow> (store_error + 'a) \<times> db) \<Rightarrow> (srv, store_error, 'a) stE" where
  "run_db f s = (let (r, d') = f (store s) in (r, s\<lparr>store := d'\<rparr>))"

text \<open>An awaited query: it reads the store and may reject.\<close>

definition read_db :: "(db \<Rightarrow> store_error + 'a) \<Rightarrow> (srv, store_error, 'a) stE" where
  "read_db f s = (f (store s), s)"

definition respond :: "(srv, store_error, json) stE \<Rightarrow> srv \<Rightarrow> outcome \<times> srv" where
  "respond m s = (case m s of (Inl e, s') \<Rightarrow> (Unhandled e, s') | (Inr j, s') \<Rightarrow> (Respond j, s'))"

section \<open>Includes and selections of the queries\<close>

text \<open>\<open>include: {author: true, comments: {include: {author: true}}, likes: true, image: true}\<close>\<close>

definition full_include :: "post_out list" where
  "full_include = [OScalars, OAuthor, OComments \<lparr>ci_author = True, ci_child = False\<rparr>, OLikes, OImage]"

text \<open>The same with \<open>childComments: true\<close> in the comments' include.\<close>

definition threaded_include :: "post_out list" where
  "threaded_include = [OScalars, OAuthor, OComments \<lparr>ci_author = True, ci_child = True\<rparr>, OLikes, OImage]"

text \<open>The include of \<open>/unpublished\<close>, which has no \<open>image\<close>.\<close>

definition own_unpublished_include :: "post_out list" where
  "own_unpublished_include = [OScalars, OAuthor, OComments \<lparr>ci_author = True, ci_child = True\<rparr>, OLikes]"

text \<open>\<open>select: {title, categories, author, comments, likes, image}\<close>\<close>

definition profile_select :: "post_out list" where
  "profile_select = [OTitle, OCategories, OAuthor, OComments \<lparr>ci_author = False, ci_child = False\<rparr>, OLikes, OImage]"

definition posts_json :: "json list \<Rightarrow> json" where
  "posts_json ps = JObj [(''posts'', JArr ps)]"

definition count_json :: "nat \<Rightarrow> json" where
  "count_json n = JObj [(''count'', JNum (int n))]"

section \<open>The handlers\<close>

text \<open>\<open>GET /\<close>: all published posts.\<close>

definition get_published :: "srv \<Rightarrow> outcome \<times> srv" where
  "get_published =
     respond (bindE (read_db (post_find_many [PublishedIs True] full_include)) (\<lambda>ps. returnE (posts_json ps)))"

text \<open>
  \<open>GET /:id\<close>: \<open>findUnique\<close> on \<open>Number(req.params.id)\<close>; a miss is \<open>{post: null}\<close>,
  an argument Prisma refuses is a rejection the handler does not catch.
\<close>

definition get_post_by_id :: "string \<Rightarrow> srv \<Rightarrow> outcome \<times> srv" where
  "get_post_by_id param_id =
     respond (bindE (read_db (post_find_unique (string_to_number param_id) full_include))
       (\<lambda>p. returnE (JObj [(''post'', p)])))"

text \<open>\<open>router.use('/allunpublished')\<close>: every unpublished post, of any author.\<close>

definition get_all_unpublished :: "srv \<Rightarrow> outcome \<times> srv" where
  "get_all_unpublished =
     respond (bindE (read_db (post_find_many [PublishedIs False] threaded_include)) (\<lambda>ps. returnE (posts_json ps)))"

text \<open>\<open>router.use('/unpublished')\<close>: the unpublished posts of \<open>Number(req.currentUser)\<close>.\<close>

definition get_own_unpublished :: "jsval \<Rightarrow> srv \<Rightarrow> outcome \<times> srv" where
  "get_own_unpublished cu =
     respond (bindE (read_db (post_find_many [AuthorIs (js_number cu), PublishedIs False] own_unpublished_include))
       (\<lambda>ps. returnE (posts_json ps)))"

text \<open>\<open>GET /published\<close>: the published posts of \<open>Number(req.currentUser)\<close>, narrowed.\<close>

definition get_own_published :: "jsval \<Rightarrow> srv \<Rightarrow> outcome \<times> srv" where
  "get_own_published cu =
     respond (bindE (read_db (post_find_many [AuthorIs (js_number cu), PublishedIs True] profile_select))
       (\<lambda>ps. returnE (posts_json ps)))"

text \<open>
  \<open>POST /create\<close>: \<open>data: {...req.body, author: {connect: {id: req.currentUser}}}\<close>;
  the identity is passed as it is, without \<open>Number(...)\<close>.
\<close>

definition connect_to :: "jsval \<Rightarrow> json" where
  "connect_to cu = JObj [(''connect'', JObj (case js_to_json cu of None \<Rightarrow> [] | Some v \<Rightarrow> [(''id'', v)]))]"

definition create_data :: "json jsobj \<Rightarrow> jsval \<Rightarrow> json jsobj" where
  "create_data body cu = spread_set body ''author'' (connect_to cu)"

definition create_post :: "json jsobj \<Rightarrow> jsval \<Rightarrow> srv \<Rightarrow> outcome \<times> srv" where
  "create_post body cu =
     respond (bindE (run_db (post_create (create_data body cu)))
       (\<lambda>p. returnE (JObj [(''message'', JStr ''Created Post''), (''post'', JObj (post_scalars p))])))"

text \<open>
  \<open>POST /create/image\<close>: multer's \<open>single('image')\<close> first; then the post, from the
  multipart text fields (strings) with \<open>authorId: 1\<close>, and the image of \<open>req.file\<close>
  connected to it and to user 1. The identity \<open>req.currentUser\<close> is only logged.
\<close>

definition image_post_data :: "string jsobj \<Rightarrow> json jsobj" where
  "image_post_data form = spread_set (map (\<lambda>(k, v). (k, JStr v)) form) ''authorId'' (JNum 1)"

definition create_post_with_image :: "request \<Rightarrow> srv \<Rightarrow> outcome \<times> srv" where
  "create_post_with_image r s =
     (case upload_single ''image'' (clock s) (req_parts r) (files s) of
        (Inl me, fs') \<Rightarrow> (ErrorPage me, s\<lparr>files := fs'\<rparr>)
      | (Inr file, fs') \<Rightarrow>
          respond (bindE (run_db (post_create (image_post_data (req_form r))))
            (\<lambda>p. bindE (run_db (image_create file (post_id p) 1))
              (\<lambda>i. returnE (JObj [(''message'', JStr ''Created Post''), (''post'', JObj (post_scalars p)),
                                   (''image'', image_json i)]))))
            (s\<lparr>files := fs'\<rparr>))"

text \<open>\<open>PUT /:id\<close>: \<open>update({where: {id: Number(req.params.id)}, data: req.body})\<close>.\<close>

definition update_post :: "string \<Rightarrow> json jsobj \<Rightarrow> srv \<Rightarrow> outcome \<times> srv" where
  "update_post param_id body =
     respond (bindE (run_db (post_update (string_to_number param_id) body))
       (\<lambda>p. returnE (JObj [(''message'', JStr ''the post has been updated''), (''post'', JObj (post_scalars p))])))"

text \<open>
  \<open>DELETE /:id\<close>: the likes, the comments and the images of the post, then the post,
  four awaited calls in this order and outside any transaction.
\<close>

definition delete_post :: "string \<Rightarrow> srv \<Rightarrow> outcome \<times> srv" where
  "delete_post param_id =
     (let k = string_to_number param_id in
      respond (bindE (run_db (like_delete_many k))
        (\<lambda>nl. bindE (run_db (comment_delete_many k))
        (\<lambda>nc. bindE (run_db (image_delete_many k))
        (\<lambda>ni. bindE (run_db (post_delete k))
        (\<lambda>p. returnE (JObj [(''message'', JStr ''the post has been deleted''), (''post'', JObj (post_scalars p)),
                             (''likes'', count_json nl), (''comments'', count_json nc),
                             (''image'', count_json ni)])))))))"

section \<open>The contract of the cascading delete\<close>

text \<open>
  What the specification (section 4.4) asks of \<open>DELETE /:id\<close>: the post is gone, and
  with it every like, comment and image that referenced it; replies elsewhere that
  pointed at a removed comment lose their parent, as the store does on a comment's
  deletion. \<open>delete_response\<close> is the body the handler sends.
\<close>

definition cascade_delete :: "row_id \<Rightarrow> db \<Rightarrow> db" where
  "cascade_delete n d =
     d\<lparr>posts := filter (\<lambda>q. post_id q \<noteq> n) (posts d),
       likes := filter (\<lambda>l. like_postId l \<noteq> n) (likes d),
       comments := map (unlink_parent (map comment_id (comments_of d n)))
                     (filter (\<lambda>c. comment_postId c \<noteq> n) (comments d)),
       images := filter (\<lambda>i. image_postId i \<noteq> n) (images d)\<rparr>"

definition delete_response :: "post \<Rightarrow> nat \<Rightarrow> nat \<Rightarrow> nat \<Rightarrow> json" where
  "delete_response p nl nc ni =
     JObj [(''message'', JStr ''the post has been deleted''), (''post'', JObj (post_scalars p)),
           (''likes'', count_json nl), (''comments'', count_json nc), (''image'', count_json ni)]"

section \<open>A small store for concrete instances\<close>

text \<open>User 7 with one unpublished post, which has one comment and one like.\<close>

definition demo_post :: post where
  "demo_post = \<lparr>post_id = 1, title = ''A'', content = None, published = False, authorId = 7, categories = []\<rparr>"

definition demo_db :: db where
  "demo_db =
     \<lparr>users = [\<lparr>user_id = 7, user_name = ''ann''\<rparr>], posts = [demo_post],
      comments = [\<lparr>comment_id = 1, comment_content = ''hi'', comment_postId = 1, comment_authorId = 7,
                   parentId = None\<rparr>],
      likes = [\<lparr>like_id = 1, like_postId = 1, like_authorId = 7\<rparr>], images = [], post_seq = 2, image_seq = 1\<rparr>"

definition demo_srv :: srv where
  "demo_srv = \<lparr>store = demo_db, files = Map.empty, clock = 17\<rparr>"

abbreviation srv_wf :: "srv \<Rightarrow> bool" where
  "srv_wf s \<equiv> db_wf (store s)"

declare get_published_def [handler_defs] get_post_by_id_def [handler_defs]
  get_all_unpublished_def [handler_defs] get_own_unpublished_def [handler_defs]
  get_own_published_def [handler_defs] create_post_def [handler_defs]
  create_post_with_image_def [handler_defs] update_post_def [handler_defs] delete_post_def [handler_defs]

lemmas demo_defs = demo_srv_def demo_db_def demo_post_def

section \<open>Lemmas: the handlers keep referential integrity\<close>

lemma respond_read [simp]:
  "respond (bindE (read_db f) (\<lambda>x. returnE (g x))) s =
     (case f (store s) of Inl e \<Rightarrow> (Unhandled e, s) | Inr x \<Rightarrow> (Respond (g x), s))"
  by (simp add: respond_def bindE_def read_db_def returnE_def split: sum.splits)

lemma read_handlers_state [simp]:
  "snd (get_published s) = s" "snd (get_post_by_id i s) = s" "snd (get_all_unpublished s) = s"
  "snd (get_own_unpublished cu s) = s" "snd (get_own_published cu s) = s"
  by (simp_all add: handler_defs split: sum.splits)

lemma post_find_many_valid:
  "List.map_filter cond_arg cs = [] \<Longrightarrow> post_find_many cs outs d = Inr (map (render_post d outs) (find_posts cs d))"
  by (simp add: post_find_many_def)

lemma run_db_apply [simp]: "run_db f s = (fst (f (store s)), s\<lparr>store := snd (f (store s))\<rparr>)"
  by (simp add: run_db_def split: prod.splits)

lemma keeps_run_db:
  "(\<And>d r d'. db_wf d \<Longrightarrow> f d = (r, d') \<Longrightarrow> db_wf d') \<Longrightarrow> keeps srv_wf (run_db f)"
  by (auto simp del: run_db_apply simp: run_db_def split: prod.splits)

lemma respond_keeps:
  "keeps srv_wf m \<Longrightarrow> srv_wf s \<Longrightarrow> respond m s = (out, s') \<Longrightarrow> srv_wf s'"
  by (auto simp: respond_def split: prod.splits sum.splits)

lemma keeps_store_ops [keeps_intros]:
  "keeps srv_wf (run_db (post_create data))"
  "keeps srv_wf (run_db (post_update k data))"
  "keeps srv_wf (run_db (like_delete_many k))"
  "keeps srv_wf (run_db (comment_delete_many k))"
  "keeps srv_wf (run_db (image_delete_many k))"
  "keeps srv_wf (run_db (post_delete k))"
  "keeps srv_wf (run_db (image_create file pid u))"
  by (rule keeps_run_db; erule (1) post_create_wf post_update_wf like_delete_many_wf
      comment_delete_many_wf image_delete_many_wf post_delete_wf image_create_wf)+

lemma create_post_wf:
  assumes "srv_wf s" and "create_post body cu s = (out, s')"
  shows "srv_wf s'"
  by (rule respond_keeps [OF _ assms(1) assms(2) [unfolded create_post_def]]) (intro keeps_intros)

lemma update_post_wf:
  assumes "srv_wf s" and "update_post i body s = (out, s')"
  shows "srv_wf s'"
  by (rule respond_keeps [OF _ assms(1) assms(2) [unfolded update_post_def]]) (intro keeps_intros)

lemma delete_post_wf:
  assumes "srv_wf s" and "delete_post i s = (out, s')"
  shows "srv_wf s'"
  by (rule respond_keeps [OF _ assms(1) assms(2) [unfolded delete_post_def Let_def]]) (intro keeps_intros)

lemma create_post_with_image_wf:
  assumes "srv_wf s" and "create_post_with_image r s = (out, s')"
  shows "srv_wf s'"
proof (cases "upload_single ''image'' (clock s) (req_parts r) (files s)")
  case (Pair res fs')
  show ?thesis
  proof (cases res)
    case (Inl me)
    then show ?thesis using assms Pair by (auto simp: create_post_with_image_def)
  next
    case (Inr upl)
    have "srv_wf (s\<lparr>files := fs'\<rparr>)" using assms(1) by simp
    moreover have "respond (bindE (run_db (post_create (image_post_data (req_form r))))
            (\<lambda>p. bindE (run_db (image_create upl (post_id p) 1))
              (\<lambda>i. returnE (JObj [(''message'', JStr ''Created Post''), (''post'', JObj (post_scalars p)),
                                   (''image'', image_json i)])))) (s\<lparr>files := fs'\<rparr>) = (out, s')"
      using assms(2) Pair Inr by (simp add: create_post_with_image_def)
    ultimately show ?thesis by (rule respond_keeps [rotated]) (intro keeps_intros)
  qed
qed

lemma rel_post_is_missing: "lookup_post k d = None \<Longrightarrow> int_arg k = Inr n \<Longrightarrow> \<not> rel_post_is k d pid"
  by (auto simp: rel_post_is_def lookup_post_def find_None_iff_all)

lemma rel_post_is_present: "lookup_post k d = Some p \<Longrightarrow> rel_post_is k d pid \<longleftrightarrow> pid = post_id p"
  by (auto simp: rel_post_is_def dest: lookup_post_Some)

lemma lookup_post_arg: "lookup_post k d = Some p \<Longrightarrow> int_arg k = Inr (post_id p)"
  by (auto dest: lookup_post_Some)

lemma unlink_parent_Nil [simp]: "unlink_parent [] = (\<lambda>c. c)"
  by (rule ext) (simp add: unlink_parent_def split: option.splits)

text \<open>
  Deleting a post that does not exist: a key Prisma refuses rejects the first call; a
  valid key that no post has makes the three \<open>deleteMany\<close> calls match nothing and
  \<open>post.delete\<close> throw.
\<close>

lemma delete_missing_eq:
  assumes "lookup_post (string_to_number i) (store s) = None"
  shows "delete_post i s =
           (Unhandled (case int_arg (string_to_number i) of Inl e \<Rightarrow> e | Inr n \<Rightarrow> RecordNotFound), s)"
proof (cases "int_arg (string_to_number i)")
  case (Inl e)
  then show ?thesis by (simp add: delete_post_def respond_def bindE_def Let_def like_delete_many_def)
next
  case (Inr n)
  let ?k = "string_to_number i"
  have none: "\<And>pid. \<not> rel_post_is ?k (store s) pid" using assms Inr by (rule rel_post_is_missing)
  then have "like_delete_many ?k (store s) = (Inr 0, store s)"
    and "comment_delete_many ?k (store s) = (Inr 0, store s)"
    and "image_delete_many ?k (store s) = (Inr 0, store s)"
    using Inr by (simp_all add: like_delete_many_def comment_delete_many_def image_delete_many_def)
  moreover have "post_delete ?k (store s) = (Inl RecordNotFound, store s)"
    using assms Inr by (simp add: post_delete_def)
  ultimately show ?thesis using Inr by (simp add: delete_post_def respond_def bindE_def Let_def)
qed

text \<open>
  C9. A delete of a post that does not exist changes nothing and sends no response. For
  a parameter whose \<open>Number\<close> is not an integer (\<open>NaN\<close>) or does not fit 32 bits, Prisma
  refuses the argument of the first call, \<open>like.deleteMany\<close>; for a valid key that no
  post has, the three \<open>deleteMany\<close> calls match nothing (their relation filter needs the
  post to exist) and \<open>post.delete\<close> throws \<open>P2025\<close>.
\<close>

theorem delete_post_missing:
  assumes "lookup_post (string_to_number i) (store s) = None"
  shows "delete_post i s =
           (Unhandled (case int_arg (string_to_number i) of Inl e \<Rightarrow> e | Inr n \<Rightarrow> RecordNotFound), s)"
  using assms by (rule delete_missing_eq)

lemma delete_present_eq:
  assumes "lookup_post (string_to_number i) (store s) = Some p"
  shows "delete_post i s =
           (Respond (delete_response p (length (likes_of (store s) (post_id p)))
                       (length (comments_of (store s) (post_id p)))
                       (length (filter (\<lambda>i. image_postId i = post_id p) (images (store s))))),
            s\<lparr>store := cascade_delete (post_id p) (store s)\<rparr>)"
proof -
  let ?k = "string_to_number i" and ?d = "store s" and ?n = "post_id p"
  have k: "int_arg ?k = Inr ?n" using assms by (rule lookup_post_arg)
  let ?d1 = "?d\<lparr>likes := filter (\<lambda>l. like_postId l \<noteq> ?n) (likes ?d)\<rparr>"
  let ?d2 = "?d1\<lparr>comments := map (unlink_parent (map comment_id (comments_of ?d ?n)))
                     (filter (\<lambda>c. comment_postId c \<noteq> ?n) (comments ?d))\<rparr>"
  let ?d3 = "?d2\<lparr>images := filter (\<lambda>i. image_postId i \<noteq> ?n) (images ?d)\<rparr>"
  have l1: "lookup_post ?k ?d1 = Some p" and l2: "lookup_post ?k ?d2 = Some p"
    and l3: "lookup_post ?k ?d3 = Some p"
    using assms k by (simp_all add: lookup_post_def)
  have rel: "\<And>d' pid. lookup_post ?k d' = Some p \<Longrightarrow> rel_post_is ?k d' pid \<longleftrightarrow> pid = ?n"
    by (rule rel_post_is_present)
  have s1: "like_delete_many ?k ?d = (Inr (length (likes_of ?d ?n)), ?d1)"
    using rel [OF assms] k by (simp add: like_delete_many_def likes_of_def)
  have s2: "comment_delete_many ?k ?d1 = (Inr (length (comments_of ?d ?n)), ?d2)"
    using rel [OF l1] k by (simp add: comment_delete_many_def comments_of_def Let_def)
  have s3: "image_delete_many ?k ?d2 = (Inr (length (filter (\<lambda>i. image_postId i = ?n) (images ?d))), ?d3)"
    using rel [OF l2] k by (simp add: image_delete_many_def)
  have "\<not> post_referenced ?n ?d3"
    by (auto simp: post_referenced_def list_ex_iff)
  then have s4: "post_delete ?k ?d3 = (Inr p, cascade_delete ?n ?d)"
    using l3 k by (simp add: post_delete_def cascade_delete_def)
  show ?thesis
    using s1 s2 s3 s4 by (simp add: delete_post_def respond_def bindE_def Let_def delete_response_def)
qed

text \<open>
  C6. When the parameter names an existing post, the four awaited calls of \<open>DELETE /:id\<close>
  implement the cascading delete of the specification: the response reports the post
  and the numbers of likes, comments and images removed, and the new store is
  \<open>cascade_delete\<close> of the old one.
\<close>

theorem delete_post_cascades:
  assumes "lookup_post (string_to_number i) (store s) = Some p"
  shows "delete_post i s =
           (Respond (delete_response p (length (likes_of (store s) (post_id p)))
                       (length (comments_of (store s) (post_id p)))
                       (length (filter (\<lambda>i. image_postId i = post_id p) (images (store s))))),
            s\<lparr>store := cascade_delete (post_id p) (store s)\<rparr>)"
  using assms by (rule delete_present_eq)


lemma lookup_post_cascade_delete: "lookup_post (Some n) (cascade_delete n d) = None"
  by (simp add: lookup_post_def cascade_delete_def find_None_iff_all split: sum.splits)

text \<open>
  C7. After a successful delete of post \<open>n\<close>, \<open>GET /:id\<close> with the same parameter
  answers \<open>{post: null}\<close>, and no like, comment or image refers to \<open>n\<close> any more.
\<close>

theorem delete_then_get_null:
  assumes "lookup_post (string_to_number i) (store s) = Some p" and "delete_post i s = (out, s')"
  shows "get_post_by_id i s' = (Respond (JObj [(''post'', JNull)]), s')
         \<and> (\<forall>l \<in> set (likes (store s')). like_postId l \<noteq> post_id p)
         \<and> (\<forall>c \<in> set (comments (store s')). comment_postId c \<noteq> post_id p)
         \<and> (\<forall>i \<in> set (images (store s')). image_postId i \<noteq> post_id p)"
proof -
  have k: "string_to_number i = Some (post_id p)" and r: "in_int4 (post_id p)"
    using lookup_post_Some [OF assms(1)] by simp_all
  have s': "s' = s\<lparr>store := cascade_delete (post_id p) (store s)\<rparr>"
    using assms delete_present_eq [OF assms(1)] by simp
  show ?thesis
    unfolding s' using lookup_post_cascade_delete [of "post_id p" "store s"] k r
    by (auto simp: get_post_by_id_def post_find_unique_def cascade_delete_def)
qed


lemma inj_JStr: "inj JStr"
  by (rule injI) simp

lemma post_scalars_inj: "post_scalars p = post_scalars q \<Longrightarrow> p = q"
  by (cases p, cases q)
     (auto simp: post_scalars_def opt_str_json_def inj_map_eq_map [OF inj_JStr] split: option.splits)

lemma render_post_scalars:
  "render_post d (OScalars # outs) p = JObj (post_scalars p @ concat (map (render_field d p) outs))"
  by (simp add: render_post_def)

lemma length_post_scalars [simp]: "length (post_scalars p) = 6"
  by (simp add: post_scalars_def)

lemma render_post_inj:
  "render_post d (OScalars # outs) p = render_post d' (OScalars # outs') q \<Longrightarrow> p = q"
  by (auto simp: render_post_scalars append_eq_append_conv intro: post_scalars_inj)

text \<open>
  C3. \<open>GET /\<close> responds with exactly the published posts, in store order, each
  expanded with its author, its comments with their authors, its likes and its image;
  a post appears in the listing if and only if it is stored and published.
\<close>

theorem get_published_lists:
  "get_published s =
     (Respond (posts_json (map (render_post (store s) full_include) (filter published (posts (store s))))), s)
   \<and> (render_post (store s) full_include p
          \<in> set (map (render_post (store s) full_include) (filter published (posts (store s))))
        \<longleftrightarrow> p \<in> set (posts (store s)) \<and> published p)"
proof -
  have "render_post (store s) full_include p \<in> render_post (store s) full_include ` X \<longleftrightarrow> p \<in> X" for X
    using render_post_inj [of "store s" _ p "store s"] by (auto simp: full_include_def)
  then show ?thesis
    by (simp add: get_published_def post_find_many_valid find_posts_def where_post_fun map_filter_simps)
qed

text \<open>
  C4. \<open>GET /:id\<close> for a key that no post has answers \<open>{post: null}\<close> without throwing,
  as the specification requires, only while the key fits Prisma's 32-bit \<open>Int\<close>; a
  larger key is refused and the request gets no response. The state is unchanged.
\<close>

theorem get_post_by_id_missing:
  assumes "n \<notin> set (post_ids (store s))"
  shows "get_post_by_id (show_int n) s =
           (if in_int4 n then (Respond (JObj [(''post'', JNull)]), s) else (Unhandled OutOfRange, s))"
proof -
  have "find (\<lambda>p. post_id p = n) (posts (store s)) = None"
    using assms by (auto simp: find_None_iff_all)
  then show ?thesis
    by (simp add: get_post_by_id_def post_find_unique_def lookup_post_def string_to_number_show_int)
qed

lemma lookup_post_Some_key: "in_int4 n \<Longrightarrow> lookup_post (Some n) d = find (\<lambda>q. post_id q = n) (posts d)"
  by (simp add: lookup_post_def)

lemma get_post_by_id_found:
  assumes "db_wf (store s)" and "p \<in> set (posts (store s))"
  shows "get_post_by_id (show_int (post_id p)) s = (Respond (JObj [(''post'', render_post (store s) full_include p)]), s)"
proof -
  have "distinct (post_ids (store s))" and r: "in_int4 (post_id p)"
    using assms by (simp_all add: db_wf_def keys_ok_def list_all_iff)
  then have "find (\<lambda>y. post_id y = post_id p) (posts (store s)) = Some p"
    using assms(2) by (intro find_unique_key)
  then have "lookup_post (Some (post_id p)) (store s) = Some p"
    using r by (simp add: lookup_post_Some_key)
  then show ?thesis
    using r by (simp add: get_post_by_id_def post_find_unique_def string_to_number_show_int)
qed

section \<open>Witnesses on the small store\<close>

lemma demo_lookup: "lookup_post (string_to_number (show_int 1)) (store demo_srv) = Some demo_post"
  by (simp add: string_to_number_show_int lookup_post_def demo_defs in_int4_def)

lemma demo_wf: "db_wf demo_db"
  by (simp add: demo_defs db_wf_unfold in_int4_def)

theorem delete_post_cascades_witness:
  "lookup_post (string_to_number (show_int 1)) (store demo_srv) = Some demo_post \<and>
   delete_post (show_int 1) demo_srv =
     (Respond (delete_response demo_post 1 1 0), demo_srv\<lparr>store := cascade_delete 1 demo_db\<rparr>)"
  using demo_lookup delete_post_cascades [OF demo_lookup]
  by (simp add: demo_defs likes_of_def comments_of_def)

theorem delete_then_get_null_witness:
  "lookup_post (string_to_number (show_int 1)) (store demo_srv) = Some demo_post \<and>
   get_post_by_id (show_int 1) (demo_srv\<lparr>store := cascade_delete 1 demo_db\<rparr>)
     = (Respond (JObj [(''post'', JNull)]), demo_srv\<lparr>store := cascade_delete 1 demo_db\<rparr>)"
proof -
  have d: "delete_post (show_int 1) demo_srv = (Respond (delete_response demo_post 1 1 0),
             demo_srv\<lparr>store := cascade_delete 1 demo_db\<rparr>)"
    using delete_present_eq [OF demo_lookup] by (simp add: demo_defs likes_of_def comments_of_def)
  show ?thesis using demo_lookup delete_then_get_null [OF demo_lookup d] by simp
qed


theorem delete_post_missing_witness:
  "lookup_post (string_to_number ''published'') (store demo_srv) = None \<and>
   delete_post ''published'' demo_srv = (Unhandled ValidationError, demo_srv)"
proof -
  have n: "string_to_number ''published'' = None" by code_simp
  then have m: "lookup_post (string_to_number ''published'') (store demo_srv) = None"
    by (simp add: lookup_post_def)
  show ?thesis using m delete_post_missing [OF m] n by simp
qed

theorem get_post_by_id_missing_witness:
  "5 \<notin> set (post_ids (store demo_srv)) \<and>
   get_post_by_id (show_int 5) demo_srv = (Respond (JObj [(''post'', JNull)]), demo_srv)"
proof -
  have m: "5 \<notin> set (post_ids (store demo_srv))"
    by (simp add: demo_defs)
  show ?thesis using m get_post_by_id_missing [OF m] by (simp add: in_int4_def)
qed

end
