(* ===== verification/Router.thy ===== *)
theory Router
  imports Prelude
begin

text \<open>
  The Express router of \<open>src/controllers/posts.js\<close>: nine layers registered in the
  order of the source (\<open>router.get\<close>, \<open>router.use\<close>, \<open>router.post\<close>,
  \<open>router.put\<close>, \<open>router.delete\<close>), and Express 4's dispatch, which runs the first
  layer whose method and path match. Paths are matched as path-to-regexp 0.1 compiles
  them with Express's defaults: case-insensitively, with an optional trailing slash; a
  \<open>:id\<close> parameter is one non-empty segment; a \<open>router.use\<close> path matches any method
  and any path that continues it at a segment boundary. A \<open>get\<close> route also answers
  \<open>HEAD\<close>. The path is the request's path name relative to the router's mount point.
  Percent-decoding of the parameter is not modelled.
\<close>

datatype http_method = GET | HEAD | POST | PUT | DELETE | PATCH | OPTIONS

datatype pattern = PExact string | PParam | PPrefix string

datatype target = T_GetPublished | T_GetById | T_AllUnpublished | T_OwnUnpublished
  | T_OwnPublished | T_Create | T_CreateImage | T_Update | T_Delete

text \<open>A layer: the method of its route (\<open>None\<close> for \<open>router.use\<close>), its path, its handler.\<close>

datatype layer = Layer "http_method option" pattern target

definition posts_routes :: "layer list" where
  "posts_routes =
     [Layer (Some GET) (PExact ''/'') T_GetPublished,
      Layer (Some GET) PParam T_GetById,
      Layer None (PPrefix ''/allunpublished'') T_AllUnpublished,
      Layer None (PPrefix ''/unpublished'') T_OwnUnpublished,
      Layer (Some GET) (PExact ''/published'') T_OwnPublished,
      Layer (Some POST) (PExact ''/create'') T_Create,
      Layer (Some POST) (PExact ''/create/image'') T_CreateImage,
      Layer (Some PUT) PParam T_Update,
      Layer (Some DELETE) PParam T_Delete]"

section \<open>Matching\<close>

definition lower_char :: "char \<Rightarrow> char" where
  "lower_char c = (if 65 \<le> (of_char c :: nat) \<and> of_char c \<le> (90 :: nat) then char_of (of_char c + (32 :: nat)) else c)"

definition ci_eq :: "string \<Rightarrow> string \<Rightarrow> bool" where
  "ci_eq a b \<longleftrightarrow> map lower_char a = map lower_char b"

definition method_matches :: "http_method option \<Rightarrow> http_method \<Rightarrow> bool" where
  "method_matches r m \<longleftrightarrow>
     (case r of None \<Rightarrow> True | Some GET \<Rightarrow> m = GET \<or> m = HEAD | Some r' \<Rightarrow> m = r')"

text \<open>
  \<open>^/published/?$\<close> for a route path not ending in a slash, \<open>^/?$\<close> for \<open>/\<close>;
  \<open>^/(?:([^/]+?))/?$\<close> for \<open>/:id\<close>; \<open>^/allunpublished/?(?=/|$)\<close> for a \<open>use\<close> path.
  The result is the parameter (empty for a pattern without one).
\<close>

fun match_pattern :: "pattern \<Rightarrow> string \<Rightarrow> string option" where
  "match_pattern (PExact s) p =
     (if (if s \<noteq> [] \<and> last s = CHR ''/'' then ci_eq p (butlast s) \<or> ci_eq p s
          else ci_eq p s \<or> ci_eq p (s @ ''/'')) then Some [] else None)"
| "match_pattern PParam p =
     (case p of
        c # rest \<Rightarrow>
          (let seg = (if rest \<noteq> [] \<and> last rest = CHR ''/'' then butlast rest else rest)
           in if c = CHR ''/'' \<and> seg \<noteq> [] \<and> CHR ''/'' \<notin> set seg then Some seg else None)
      | [] \<Rightarrow> None)"
| "match_pattern (PPrefix s) p =
     (if ci_eq (take (length s) p) s \<and>
         (drop (length s) p = [] \<or> hd (drop (length s) p) = CHR ''/'')
      then Some [] else None)"

fun dispatch_layers :: "layer list \<Rightarrow> http_method \<Rightarrow> string \<Rightarrow> (target \<times> string) option" where
  "dispatch_layers [] m p = None"
| "dispatch_layers (Layer r pat t # ls) m p =
     (if method_matches r m then
        (case match_pattern pat p of Some a \<Rightarrow> Some (t, a) | None \<Rightarrow> dispatch_layers ls m p)
      else dispatch_layers ls m p)"

definition dispatch :: "http_method \<Rightarrow> string \<Rightarrow> (target \<times> string) option" where
  "dispatch m p = dispatch_layers posts_routes m p"

section \<open>Lemmas: matching, and which layers can run\<close>

lemma lower_char_slash [simp]: "lower_char c = CHR ''/'' \<longleftrightarrow> c = CHR ''/''"
proof
  assume a: "lower_char c = CHR ''/''"
  show "c = CHR ''/''"
  proof (cases "65 \<le> (of_char c :: nat) \<and> of_char c \<le> (90 :: nat)")
    case True
    then have "of_char (lower_char c) = (of_char c + 32 :: nat)"
      by (simp add: lower_char_def of_char_of)
    with True a show ?thesis by simp
  next
    case False
    with a show ?thesis by (simp add: lower_char_def)
  qed
qed (simp add: lower_char_def)

lemma lower_char_slash_id [simp]: "lower_char (CHR ''/'') = CHR ''/''"
  by (simp add: lower_char_def)

lemma slash_lower_char [simp]: "CHR ''/'' = lower_char c \<longleftrightarrow> c = CHR ''/''"
  using lower_char_slash by metis

lemma slash_in_lower: "CHR ''/'' \<in> set (map lower_char xs) \<longleftrightarrow> CHR ''/'' \<in> set xs"
  by (induction xs) auto

lemma last_not_slash: "xs \<noteq> [] \<Longrightarrow> CHR ''/'' \<notin> set xs \<Longrightarrow> last xs \<noteq> CHR ''/''"
  using last_in_set by fastforce

lemma ci_eq_slash_cons:
  assumes "ci_eq p (CHR ''/'' # w)"
  shows "\<exists>rest. p = CHR ''/'' # rest \<and> map lower_char rest = map lower_char w"
  using assms by (cases p) (auto simp: ci_eq_def)

lemma param_of_segment:
  assumes "rest \<noteq> []" and "CHR ''/'' \<notin> set rest"
  shows "match_pattern PParam (CHR ''/'' # rest) = Some rest"
  using assms last_not_slash [OF assms] by (simp add: Let_def)

lemma param_of_segment_slash:
  assumes "rest \<noteq> []" and "CHR ''/'' \<notin> set rest"
  shows "match_pattern PParam (CHR ''/'' # rest @ ''/'') = Some rest"
  using assms by (simp add: Let_def)


lemma exact_segment_cases:
  assumes "match_pattern (PExact (CHR ''/'' # w)) p \<noteq> None" and "w \<noteq> []" and "CHR ''/'' \<notin> set w"
  shows "ci_eq p (CHR ''/'' # w) \<or> ci_eq p (CHR ''/'' # w @ ''/'')"
proof -
  have nl: "last (CHR ''/'' # w) \<noteq> CHR ''/''" using last_not_slash [OF assms(2,3)] assms(2) by simp
  show ?thesis using assms(1) nl by (simp only: match_pattern.simps split: if_splits) simp_all
qed

lemma param_of_ci_segment:
  assumes "ci_eq p (CHR ''/'' # w)" and "w \<noteq> []" and "CHR ''/'' \<notin> set w"
  shows "match_pattern PParam p \<noteq> None"
proof -
  obtain rest where p: "p = CHR ''/'' # rest" and r: "map lower_char rest = map lower_char w"
    using ci_eq_slash_cons [OF assms(1)] by blast
  have "rest \<noteq> []" using r assms(2) by auto
  moreover have "CHR ''/'' \<notin> set rest"
    using r assms(3) slash_in_lower [of rest] slash_in_lower [of w] by metis
  ultimately show ?thesis using p by (simp del: match_pattern.simps add: param_of_segment)
qed

lemma param_of_ci_segment_slash:
  assumes "ci_eq p (CHR ''/'' # w @ ''/'')" and "w \<noteq> []" and "CHR ''/'' \<notin> set w"
  shows "match_pattern PParam p \<noteq> None"
proof -
  obtain rest where p: "p = CHR ''/'' # rest"
    and r: "map lower_char rest = map lower_char w @ [CHR ''/'']"
    using ci_eq_slash_cons [OF assms(1)] by auto
  have ne: "rest \<noteq> []" using r by (cases rest) auto
  define rest' where "rest' = butlast rest"
  have rc: "rest = rest' @ [last rest]" using ne by (simp add: rest'_def)
  have "map lower_char rest' @ [lower_char (last rest)] = map lower_char w @ [CHR ''/'']"
    using r rc by (metis list.simps(8,9) map_append)
  then have r': "map lower_char rest' = map lower_char w" and c: "lower_char (last rest) = CHR ''/''"
    by simp_all
  have "rest' \<noteq> []" using r' assms(2) by auto
  moreover have "CHR ''/'' \<notin> set rest'"
    using r' assms(3) slash_in_lower [of rest'] slash_in_lower [of w] by metis
  moreover have "p = CHR ''/'' # rest' @ ''/''" using p rc c by simp
  ultimately show ?thesis by (simp del: match_pattern.simps add: param_of_segment_slash)
qed

text \<open>A path that matches a one-segment exact route also matches \<open>/:id\<close>.\<close>

lemma exact_segment_matches_param:
  assumes "match_pattern (PExact (CHR ''/'' # w)) p \<noteq> None" and "w \<noteq> []" and "CHR ''/'' \<notin> set w"
  shows "match_pattern PParam p \<noteq> None"
  using exact_segment_cases [OF assms] param_of_ci_segment [OF _ assms(2,3)]
    param_of_ci_segment_slash [OF _ assms(2,3)] by blast

text \<open>
  C1. The handler of \<open>GET /published\<close> (the profile view of the current user's
  published posts) never runs: every request whose path matches \<open>/published\<close> also
  matches \<open>/:id\<close>, which is registered before it, so no method and path dispatch to it.
\<close>

theorem own_published_unreachable: "dispatch m p \<noteq> Some (T_OwnPublished, a)"
proof
  assume d: "dispatch m p = Some (T_OwnPublished, a)"
  have ex: "match_pattern (PExact ''/published'') p \<noteq> None \<Longrightarrow> match_pattern PParam p \<noteq> None"
    using exact_segment_matches_param [of "''published''" p] by simp
  from d ex show False
    unfolding dispatch_def posts_routes_def
    by (simp del: match_pattern.simps add: method_matches_def split: if_splits option.splits)
qed

lemma root_not_segment:
  assumes "seg \<noteq> []"
  shows "match_pattern (PExact ''/'') (CHR ''/'' # seg) = None"
  using assms by (simp add: ci_eq_def)

lemma dispatch_get_segment:
  assumes "m = GET \<or> m = HEAD" and "seg \<noteq> []" and "CHR ''/'' \<notin> set seg"
  shows "dispatch m (CHR ''/'' # seg) = Some (T_GetById, seg)"
  using assms root_not_segment [OF assms(2)] param_of_segment [OF assms(2,3)]
  by (auto simp del: match_pattern.simps simp: dispatch_def posts_routes_def method_matches_def)

text \<open>
  C2. A \<open>GET\<close> or \<open>HEAD\<close> request for any one-segment path is handled by the
  get-by-id handler with that segment as its parameter; in particular \<open>GET
  /allunpublished\<close>, \<open>GET /unpublished\<close> and \<open>GET /published\<close> are.
\<close>

theorem get_segment_is_get_by_id:
  assumes "m = GET \<or> m = HEAD" and "seg \<noteq> []" and "CHR ''/'' \<notin> set seg"
  shows "dispatch m (CHR ''/'' # seg) = Some (T_GetById, seg)"
  using assms by (rule dispatch_get_segment)

theorem get_segment_is_get_by_id_witness:
  "(GET = GET \<or> GET = HEAD) \<and> ''unpublished'' \<noteq> [] \<and> CHR ''/'' \<notin> set ''unpublished''
   \<and> dispatch GET (CHR ''/'' # ''unpublished'') = Some (T_GetById, ''unpublished'')"
proof -
  have h: "GET = GET \<or> GET = HEAD" "''unpublished'' \<noteq> []" "CHR ''/'' \<notin> set ''unpublished''"
    by simp_all
  show ?thesis using h get_segment_is_get_by_id [OF h] by simp
qed

lemma ci_eq_length: "ci_eq a b \<Longrightarrow> length a = length b"
  by (metis ci_eq_def length_map)

lemma prefix_segment:
  assumes "CHR ''/'' \<notin> set seg" and "s \<noteq> []"
  shows "match_pattern (PPrefix s) (CHR ''/'' # seg) \<noteq> None \<longleftrightarrow> ci_eq (CHR ''/'' # seg) s"
proof
  assume m: "match_pattern (PPrefix s) (CHR ''/'' # seg) \<noteq> None"
  show "ci_eq (CHR ''/'' # seg) s"
  proof (cases "drop (length s) (CHR ''/'' # seg) = []")
    case True
    then show ?thesis using m by (simp split: if_splits)
  next
    case False
    then have "hd (drop (length s) (CHR ''/'' # seg)) = CHR ''/''" using m by (simp split: if_splits)
    moreover have "drop (length s) (CHR ''/'' # seg) = drop (length s - 1) seg"
      using assms(2) by (cases "length s") simp_all
    ultimately have "CHR ''/'' \<in> set seg" using False by (metis hd_in_set in_set_dropD)
    then show ?thesis using assms(1) by simp
  qed
next
  assume "ci_eq (CHR ''/'' # seg) s"
  then show "match_pattern (PPrefix s) (CHR ''/'' # seg) \<noteq> None"
    using ci_eq_length [of "CHR ''/'' # seg" s] by simp
qed


lemma prefix_segment_eq:
  assumes "CHR ''/'' \<notin> set seg" and "s \<noteq> []"
  shows "match_pattern (PPrefix s) (CHR ''/'' # seg) = (if ci_eq (CHR ''/'' # seg) s then Some [] else None)"
  using prefix_segment [OF assms] by (auto simp del: match_pattern.simps) (auto split: if_splits)

lemma dispatch_write_segment:
  assumes "seg \<noteq> []" and "CHR ''/'' \<notin> set seg" and "m = PUT \<or> m = DELETE"
  shows "dispatch m (CHR ''/'' # seg) =
           (if ci_eq (CHR ''/'' # seg) ''/allunpublished'' then Some (T_AllUnpublished, [])
            else if ci_eq (CHR ''/'' # seg) ''/unpublished'' then Some (T_OwnUnpublished, [])
            else Some (if m = PUT then T_Update else T_Delete, seg))"
  using assms(3) prefix_segment_eq [OF assms(2), of "''/allunpublished''"]
    prefix_segment_eq [OF assms(2), of "''/unpublished''"] param_of_segment [OF assms(1,2)]
  by (auto simp del: match_pattern.simps simp: dispatch_def posts_routes_def method_matches_def)

text \<open>
  C27. A \<open>PUT\<close> or \<open>DELETE\<close> of a one-segment path goes to the update or delete
  handler with that segment, except \<open>/allunpublished\<close> and \<open>/unpublished\<close> (in any
  case), which the \<open>use\<close> layers registered before take: \<open>DELETE /unpublished\<close> lists
  the current user's drafts instead of deleting anything.
\<close>

theorem write_segment_routing:
  assumes "seg \<noteq> []" and "CHR ''/'' \<notin> set seg" and "m = PUT \<or> m = DELETE"
  shows "dispatch m (CHR ''/'' # seg) =
           (if ci_eq (CHR ''/'' # seg) ''/allunpublished'' then Some (T_AllUnpublished, [])
            else if ci_eq (CHR ''/'' # seg) ''/unpublished'' then Some (T_OwnUnpublished, [])
            else Some (if m = PUT then T_Update else T_Delete, seg))"
  using assms by (rule dispatch_write_segment)

theorem write_segment_routing_witness:
  "''unpublished'' \<noteq> [] \<and> CHR ''/'' \<notin> set ''unpublished'' \<and> (DELETE = PUT \<or> DELETE = DELETE)
   \<and> dispatch DELETE (CHR ''/'' # ''unpublished'') = Some (T_OwnUnpublished, [])"
proof -
  have h: "''unpublished'' \<noteq> []" "CHR ''/'' \<notin> set ''unpublished''" "DELETE = PUT \<or> DELETE = DELETE"
    by simp_all
  have c: "\<not> ci_eq (CHR ''/'' # ''unpublished'') ''/allunpublished''" "ci_eq (CHR ''/'' # ''unpublished'') ''/unpublished''"
    by (simp_all add: ci_eq_def)
  show ?thesis using h c write_segment_routing [OF h] by simp
qed

end
