(* ===== verification/Server.thy ===== *)
theory Server
  imports Handlers Router
begin

text \<open>
  The controller as a whole: a request is dispatched by the router and handled by the
  handler of the layer that matched, or falls through the router (\<open>NoRoute\<close>, Express's
  404 further out). Between requests the clock advances, and the rest of the application
  (routers not in this repository) adds users, comments and likes; those writes are
  modelled as the store's own inserts, which check their references. The reachable
  server states are the least set that holds the empty server and is closed under
  these steps.
\<close>

datatype response = Reply outcome | NoRoute

definition run_target :: "target \<Rightarrow> string \<Rightarrow> request \<Rightarrow> srv \<Rightarrow> outcome \<times> srv" where
  "run_target t a r s =
     (case t of
        T_GetPublished \<Rightarrow> get_published s
      | T_GetById \<Rightarrow> get_post_by_id a s
      | T_AllUnpublished \<Rightarrow> get_all_unpublished s
      | T_OwnUnpublished \<Rightarrow> get_own_unpublished (req_currentUser r) s
      | T_OwnPublished \<Rightarrow> get_own_published (req_currentUser r) s
      | T_Create \<Rightarrow> create_post (req_body r) (req_currentUser r) s
      | T_CreateImage \<Rightarrow> create_post_with_image r s
      | T_Update \<Rightarrow> update_post a (req_body r) s
      | T_Delete \<Rightarrow> delete_post a s)"

definition serve :: "http_method \<Rightarrow> string \<Rightarrow> request \<Rightarrow> srv \<Rightarrow> response \<times> srv" where
  "serve m p r s =
     (case dispatch m p of
        None \<Rightarrow> (NoRoute, s)
      | Some (t, a) \<Rightarrow> (let (out, s') = run_target t a r s in (Reply out, s')))"

section \<open>The rest of the application\<close>

text \<open>
  Inserts made by other routers: each checks that the rows it references exist, and
  a new user's key is an \<open>Int\<close> of the schema (32 bits).
\<close>

definition add_user :: "user \<Rightarrow> db \<Rightarrow> db" where
  "add_user u d = (if user_id u \<in> set (user_ids d) \<or> \<not> in_int4 (user_id u) then d else d\<lparr>users := users d @ [u]\<rparr>)"

definition add_comment :: "comment \<Rightarrow> db \<Rightarrow> db" where
  "add_comment c d =
     (if comment_id c \<notin> set (comment_ids d) \<and> comment_postId c \<in> set (post_ids d)
         \<and> comment_authorId c \<in> set (user_ids d)
         \<and> (\<forall>q \<in> set_option (parentId c). q \<in> set (comment_ids d))
      then d\<lparr>comments := comments d @ [c]\<rparr> else d)"

definition add_like :: "like \<Rightarrow> db \<Rightarrow> db" where
  "add_like l d =
     (if like_id l \<notin> set (map like_id (likes d)) \<and> like_postId l \<in> set (post_ids d)
         \<and> like_authorId l \<in> set (user_ids d)
      then d\<lparr>likes := likes d @ [l]\<rparr> else d)"

definition empty_db :: db where
  "empty_db = \<lparr>users = [], posts = [], comments = [], likes = [], images = [], post_seq = 1, image_seq = 1\<rparr>"

definition init_srv :: srv where
  "init_srv = \<lparr>store = empty_db, files = Map.empty, clock = 0\<rparr>"

inductive server_step :: "srv \<Rightarrow> srv \<Rightarrow> bool" where
  request: "serve m p r s = (resp, s') \<Longrightarrow> server_step s s'"
| tick: "clock s \<le> t \<Longrightarrow> server_step s (s\<lparr>clock := t\<rparr>)"
| user: "server_step s (s\<lparr>store := add_user u (store s)\<rparr>)"
| comment: "server_step s (s\<lparr>store := add_comment c (store s)\<rparr>)"
| like: "server_step s (s\<lparr>store := add_like l (store s)\<rparr>)"

inductive reachable :: "srv \<Rightarrow> bool" where
  init: "reachable init_srv"
| step: "reachable s \<Longrightarrow> server_step s s' \<Longrightarrow> reachable s'"

inductive_cases server_stepE: "server_step s s'"

section \<open>Lemmas: every step keeps referential integrity\<close>

lemma write_handlers_wf:
  assumes "srv_wf s"
  shows "srv_wf (snd (create_post b cu s))" "srv_wf (snd (update_post i b s))"
    "srv_wf (snd (delete_post i s))" "srv_wf (snd (create_post_with_image r s))"
  using create_post_wf [OF assms, of b cu] update_post_wf [OF assms, of i b]
    delete_post_wf [OF assms, of i] create_post_with_image_wf [OF assms, of r]
  by (metis prod.collapse)+

lemma run_target_wf: "srv_wf s \<Longrightarrow> srv_wf (snd (run_target t a r s))"
  by (cases t) (simp_all add: run_target_def write_handlers_wf)

lemma serve_wf: "srv_wf s \<Longrightarrow> serve m p r s = (resp, s') \<Longrightarrow> srv_wf s'"
  using run_target_wf [of s] by (auto simp: serve_def split: option.splits prod.splits) (metis snd_conv)

lemma env_steps_wf:
  assumes "db_wf d"
  shows "db_wf (add_user u d)" "db_wf (add_comment c d)" "db_wf (add_like l d)"
  using assms by (auto simp: add_user_def add_comment_def add_like_def db_wf_unfold list_all_iff)

lemma server_step_wf: "server_step s s' \<Longrightarrow> srv_wf s \<Longrightarrow> srv_wf s'"
  by (induction rule: server_step.induct) (auto intro: serve_wf env_steps_wf)

end
