(* ===== verification/Writes.thy ===== *)
theory Writes
  imports Handlers
begin

text \<open>
  The behaviour of the write handlers of \<open>src/controllers/posts.js\<close>: \<open>POST /create\<close>
  (lines 119--128), \<open>POST /create/image\<close> (131--160) and \<open>PUT /:id\<close> (164--172). It
  holds lemmas on how Prisma's validation of \<open>data\<close> (\<open>parse_post_data\<close>) treats an
  object built by spreading, and the theorems on what each handler stores and answers,
  its errors included.
\<close>

section \<open>A store with user 1, for the upload route\<close>

text \<open>
  The upload route writes as user 1; this store adds that user to the small store of
  \<open>Handlers\<close>. The request sends the title \<open>T\<close> and the part \<open>demo_part\<close>.
\<close>

definition image_demo_srv :: srv where
  "image_demo_srv = demo_srv\<lparr>store := demo_db\<lparr>users := \<lparr>user_id = 1, user_name = ''root''\<rparr> # users demo_db\<rparr>\<rparr>"

definition image_demo_req :: request where
  "image_demo_req = \<lparr>req_body = [], req_currentUser = JsNum 7, req_form = [(''title'', ''T'')],
     req_parts = [demo_part]\<rparr>"

definition image_demo_post :: post where
  "image_demo_post = new_post (no_post_data\<lparr>d_title := Some ''T'', d_authorId := Some 1\<rparr>) 2 1"

definition image_demo_image :: image where
  "image_demo_image = \<lparr>image_id = 1, image_file = fst (disk_store 17 demo_part Map.empty), image_postId = 2,
     image_authorId = 1\<rparr>"

definition image_demo_after :: srv where
  "image_demo_after =
     image_demo_srv\<lparr>files := snd (disk_store 17 demo_part Map.empty),
        store := (store image_demo_srv)\<lparr>posts := posts (store image_demo_srv) @ [image_demo_post],
                   images := [image_demo_image], post_seq := 3, image_seq := 2\<rparr>\<rparr>"

lemmas image_demo_defs = image_demo_req_def image_demo_srv_def demo_srv_def demo_part_def
  demo_db_def demo_post_def image_demo_post_def image_demo_image_def data_in_range_def in_int4_def

section \<open>Validation of spread objects\<close>

lemma parse_post_data_append:
  "parse_post_data (xs @ ys) pd =
     (case parse_post_data xs pd of Inl e \<Rightarrow> Inl e | Inr pd' \<Rightarrow> parse_post_data ys pd')"
  by (induction xs arbitrary: pd) (auto split: sum.splits)

lemma post_data_field_error: "post_data_field k v pd = Inl e \<Longrightarrow> e = ValidationError"
  by (auto simp: post_data_field_def split: if_splits json.splits option.splits)

lemma parse_post_data_error: "parse_post_data xs pd = Inl e \<Longrightarrow> e = ValidationError"
  by (induction xs pd rule: parse_post_data.induct)
     (auto split: sum.splits dest: post_data_field_error)

text \<open>Every field of data that validates is a field that validates on its own.\<close>

lemma parse_post_data_field:
  assumes "parse_post_data xs pd = Inr pd'" and "(k, v) \<in> set xs"
  shows "\<exists>q q'. post_data_field k v q = Inr q'"
  using assms by (induction xs pd rule: parse_post_data.induct) (auto split: sum.splits)

lemma post_data_field_author:
  "post_data_field ''author'' v q = Inr q' \<Longrightarrow> connect_id v \<noteq> None"
  by (auto simp: post_data_field_def split: option.splits)

lemma connect_to_number: "connect_id (connect_to cu) \<noteq> None \<Longrightarrow> \<exists>n. cu = JsNum n"
  by (cases cu) (simp_all add: connect_to_def connect_id_def)

lemma update_mem: "(k, v) \<in> set (AList.update k v al)"
proof -
  have "map_of (AList.update k v al) k = Some v" by (simp add: update_conv')
  then show ?thesis by (rule map_of_SomeD)
qed

lemma update_absent: "k \<notin> set (map fst al) \<Longrightarrow> AList.update k v al = al @ [(k, v)]"
  by (induction al) auto

text \<open>
  Spreading \<open>author: {connect: {id: cu}}\<close> into a body validates only when \<open>cu\<close> is a
  number: a string, \<open>null\<close>, a boolean or \<open>undefined\<close> identity is a validation error,
  whatever the body holds.
\<close>

lemma create_data_invalid:
  assumes "\<forall>n. cu \<noteq> JsNum n"
  shows "parse_post_data (create_data body cu) pd = Inl ValidationError"
proof (cases "parse_post_data (create_data body cu) pd")
  case (Inl e)
  then show ?thesis by (simp add: parse_post_data_error)
next
  case (Inr pd')
  have "(''author'', connect_to cu) \<in> set (create_data body cu)"
    by (simp add: create_data_def update_mem)
  then obtain q q' where "post_data_field ''author'' (connect_to cu) q = Inr q'"
    using parse_post_data_field [OF Inr] by blast
  then have "connect_id (connect_to cu) \<noteq> None" by (rule post_data_field_author)
  then show ?thesis using assms connect_to_number by blast
qed

lemma create_data_number:
  assumes "''author'' \<notin> set (map fst body)" and "parse_post_data body no_post_data = Inr pd"
  shows "parse_post_data (create_data body (JsNum u)) no_post_data = Inr (pd\<lparr>d_connect := Some u\<rparr>)"
  using assms
  by (simp add: create_data_def update_absent parse_post_data_append connect_to_def
                post_data_field_def connect_id_def)

section \<open>\<open>POST /create\<close>\<close>

text \<open>
  C13. \<open>POST /create\<close> with a current user that is not a number (a string, as an
  identity decoded from a token often is, or \<open>null\<close>, or none at all) never creates a
  post: the nested \<open>connect\<close> fails Prisma's validation, the rejection is unhandled, and
  the state is unchanged.
\<close>

theorem create_post_non_number_identity:
  assumes "\<forall>n. cu \<noteq> JsNum n"
  shows "create_post body cu s = (Unhandled ValidationError, s)"
  using create_data_invalid [OF assms]
  by (simp add: create_post_def post_create_def respond_def bindE_def)

theorem create_post_non_number_identity_witness:
  "(\<forall>n. JsStr ''7'' \<noteq> JsNum n) \<and>
   create_post [(''title'', JStr ''B'')] (JsStr ''7'') demo_srv = (Unhandled ValidationError, demo_srv)"
proof -
  have h: "\<forall>n. JsStr ''7'' \<noteq> JsNum n" by simp
  show ?thesis using h create_post_non_number_identity [OF h] by simp
qed

lemma create_post_success:
  assumes "parse_post_data body no_post_data = Inr pd" and "''author'' \<notin> set (map fst body)"
    and "d_id pd = None" and "d_authorId pd = None" and "d_title pd \<noteq> None"
    and "u \<in> set (user_ids (store s))" and "post_seq (store s) \<notin> set (post_ids (store s))"
    and "in_int4 (post_seq (store s))" and "in_int4 u"
  shows "create_post body (JsNum u) s =
           (Respond (JObj [(''message'', JStr ''Created Post''),
                           (''post'', JObj (post_scalars (new_post pd (post_seq (store s)) u)))]),
            s\<lparr>store := (store s)\<lparr>post_seq := post_seq (store s) + 1,
                                posts := posts (store s) @ [new_post pd (post_seq (store s)) u]\<rparr>\<rparr>)"
proof -
  have np: "new_post (pd\<lparr>d_connect := Some u\<rparr>) = new_post pd"
    by (simp add: new_post_def fun_eq_iff)
  show ?thesis
    using assms create_data_number [OF assms(2,1), of u] np
    by (auto simp: create_post_def post_create_def valid_author_input_def check_author_def
                   respond_def bindE_def Let_def data_in_range_def)
qed

text \<open>
  C14. \<open>POST /create\<close> with a numeric current user \<open>u\<close> that exists and a body that
  validates, names a title and sets neither \<open>id\<close>, \<open>authorId\<close> nor \<open>author\<close>, while
  \<open>u\<close> and the next key of the sequence fit the 32-bit \<open>Int\<close>: the post
  is appended with the next key of the sequence, the fields of the body and author
  \<open>u\<close>, the sequence advances, and the response carries the created post.
\<close>

theorem create_post_stores:
  assumes "parse_post_data body no_post_data = Inr pd" and "''author'' \<notin> set (map fst body)"
    and "d_id pd = None" and "d_authorId pd = None" and "d_title pd \<noteq> None"
    and "u \<in> set (user_ids (store s))" and "post_seq (store s) \<notin> set (post_ids (store s))"
    and "in_int4 (post_seq (store s))" and "in_int4 u"
  shows "create_post body (JsNum u) s =
           (Respond (JObj [(''message'', JStr ''Created Post''),
                           (''post'', JObj (post_scalars (new_post pd (post_seq (store s)) u)))]),
            s\<lparr>store := (store s)\<lparr>post_seq := post_seq (store s) + 1,
                                posts := posts (store s) @ [new_post pd (post_seq (store s)) u]\<rparr>\<rparr>)"
  using assms by (rule create_post_success)

theorem create_post_stores_witness:
  "parse_post_data [(''title'', JStr ''B'')] no_post_data = Inr (no_post_data\<lparr>d_title := Some ''B''\<rparr>)
   \<and> ''author'' \<notin> set (map fst [(''title'', JStr ''B'')])
   \<and> d_id (no_post_data\<lparr>d_title := Some ''B''\<rparr>) = None
   \<and> d_authorId (no_post_data\<lparr>d_title := Some ''B''\<rparr>) = None
   \<and> d_title (no_post_data\<lparr>d_title := Some ''B''\<rparr>) \<noteq> None
   \<and> 7 \<in> set (user_ids (store demo_srv)) \<and> post_seq (store demo_srv) \<notin> set (post_ids (store demo_srv))
   \<and> in_int4 (post_seq (store demo_srv)) \<and> in_int4 7
   \<and> create_post [(''title'', JStr ''B'')] (JsNum 7) demo_srv =
       (Respond (JObj [(''message'', JStr ''Created Post''),
                       (''post'', JObj (post_scalars (new_post (no_post_data\<lparr>d_title := Some ''B''\<rparr>) 2 7)))]),
        demo_srv\<lparr>store := demo_db\<lparr>post_seq := 3,
                    posts := [demo_post, new_post (no_post_data\<lparr>d_title := Some ''B''\<rparr>) 2 7]\<rparr>\<rparr>)"
proof -
  have h: "parse_post_data [(''title'', JStr ''B'')] no_post_data = Inr (no_post_data\<lparr>d_title := Some ''B''\<rparr>)"
    "''author'' \<notin> set (map fst [(''title'', JStr ''B'')])"
    "d_id (no_post_data\<lparr>d_title := Some ''B''\<rparr>) = None"
    "d_authorId (no_post_data\<lparr>d_title := Some ''B''\<rparr>) = None"
    "d_title (no_post_data\<lparr>d_title := Some ''B''\<rparr>) \<noteq> None"
    "7 \<in> set (user_ids (store demo_srv))" "post_seq (store demo_srv) \<notin> set (post_ids (store demo_srv))"
    "in_int4 (post_seq (store demo_srv))" "in_int4 7"
    by (simp_all add: post_data_field_def no_post_data_def demo_defs in_int4_def)
  have st: "store demo_srv = demo_db" "post_seq demo_db = 2" "posts demo_db = [demo_post]"
    by (simp_all add: demo_srv_def demo_db_def)
  show ?thesis using h create_post_stores [OF h] by (simp add: st)
qed

section \<open>\<open>POST /create/image\<close>: the data built from the multipart fields\<close>

text \<open>
  The entries of \<open>{...req.body, authorId: 1}\<close> on the upload route: string fields,
  and the key \<open>authorId\<close> with the number 1.
\<close>

lemma update_set_cases: "x \<in> set (AList.update k v al) \<Longrightarrow> x \<in> set al \<or> x = (k, v)"
  by (induction al) (auto split: if_splits)

lemma image_post_data_entries:
  "(k, v) \<in> set (image_post_data form) \<Longrightarrow> (\<exists>t. v = JStr t) \<or> (k = ''authorId'' \<and> v = JNum 1)"
  unfolding image_post_data_def by (drule update_set_cases) auto

lemma image_post_data_authorId: "''authorId'' \<in> set (map fst (image_post_data form))"
  using update_mem [of "''authorId''" "JNum 1"] by (force simp: image_post_data_def)

lemma post_data_field_str:
  "post_data_field k (JStr t) q = Inr q' \<Longrightarrow>
     d_authorId q' = d_authorId q \<and> d_connect q' = d_connect q \<and> d_published q' = d_published q"
  by (auto simp: post_data_field_def connect_id_def split: if_splits)

lemma parse_image_fields:
  assumes "parse_post_data xs pd = Inr pd'"
    and "\<forall>(k, v) \<in> set xs. (\<exists>t. v = JStr t) \<or> (k = ''authorId'' \<and> v = JNum 1)"
  shows "d_connect pd' = d_connect pd \<and> d_published pd' = d_published pd \<and>
         d_authorId pd' = (if ''authorId'' \<in> set (map fst xs) then Some 1 else d_authorId pd)"
  using assms
proof (induction xs arbitrary: pd)
  case Nil
  then show ?case by simp
next
  case (Cons kv xs)
  obtain k v where kv: "kv = (k, v)" by fastforce
  from Cons.prems kv obtain q where f: "post_data_field k v pd = Inr q"
    and r: "parse_post_data xs q = Inr pd'" by (auto split: sum.splits)
  have "d_connect q = d_connect pd \<and> d_published q = d_published pd \<and>
        d_authorId q = (if k = ''authorId'' then Some 1 else d_authorId pd)"
    using Cons.prems(2) kv f post_data_field_str [of k _ pd q]
    by (auto simp: post_data_field_def)
  then show ?case using Cons.IH [OF r] Cons.prems(2) kv by auto
qed

lemma post_create_Inr:
  assumes "post_create data d = (Inr p, d')"
  shows "\<exists>pd. parse_post_data data no_post_data = Inr pd \<and> check_author pd d = Inr (Some (authorId p))
           \<and> p = new_post pd (post_id p) (authorId p) \<and> post_id p \<notin> set (post_ids d)
           \<and> posts d' = posts d @ [p] \<and> images d' = images d \<and> users d' = users d"
  using assms
  by (auto simp: post_create_def Let_def split: sum.splits if_splits option.splits)

lemma image_create_Inr:
  assumes "image_create upl pid u d = (Inr i, d')"
  shows "upl = Some (image_file i) \<and> image_postId i = pid \<and> image_authorId i = u
         \<and> images d' = images d @ [i] \<and> posts d' = posts d"
  using assms
  by (auto simp: image_create_def Let_def split: option.splits if_splits)

lemma image_create_None: "image_create None pid u d = (Inl ValidationError, d)"
  by (simp add: image_create_def)

lemma post_create_image_data:
  assumes "post_create (image_post_data form) d = (Inr p, d')"
  shows "authorId p = 1 \<and> published p = False \<and> posts d' = posts d @ [p] \<and> images d' = images d"
proof -
  obtain pd where pd: "parse_post_data (image_post_data form) no_post_data = Inr pd"
    and ca: "check_author pd d = Inr (Some (authorId p))"
    and np: "p = new_post pd (post_id p) (authorId p)"
    and tabs: "posts d' = posts d @ [p]" "images d' = images d"
    using post_create_Inr [OF assms] by blast
  have f: "d_connect pd = None \<and> d_published pd = None \<and> d_authorId pd = Some 1"
    using parse_image_fields [OF pd] image_post_data_entries image_post_data_authorId
    by (auto simp: no_post_data_def)
  then have "authorId p = 1" using ca by (simp add: check_author_def split: if_splits)
  moreover have "published p = False" using f np by (metis new_post_def option.simps(4) post.select_convs(4))
  ultimately show ?thesis using tabs by simp
qed

text \<open>The route's store calls after a successful upload, as one step of the state.\<close>

lemma create_image_after_upload:
  assumes "upload_single ''image'' (clock s) (req_parts r) (files s) = (Inr upl, fs')"
  shows "create_post_with_image r s =
           (case post_create (image_post_data (req_form r)) (store s) of
              (Inl e, d1) \<Rightarrow> (Unhandled e, s\<lparr>files := fs', store := d1\<rparr>)
            | (Inr p, d1) \<Rightarrow>
                (case image_create upl (post_id p) 1 d1 of
                   (Inl e, d2) \<Rightarrow> (Unhandled e, s\<lparr>files := fs', store := d2\<rparr>)
                 | (Inr i, d2) \<Rightarrow>
                     (Respond (JObj [(''message'', JStr ''Created Post''), (''post'', JObj (post_scalars p)),
                                     (''image'', image_json i)]), s\<lparr>files := fs', store := d2\<rparr>)))"
proof -
  obtain r1 d1 where pc: "post_create (image_post_data (req_form r)) (store s) = (r1, d1)"
    by fastforce
  show ?thesis
  proof (cases r1)
    case (Inl e)
    then show ?thesis using assms pc by (simp add: create_post_with_image_def respond_def bindE_def)
  next
    case (Inr p)
    obtain r2 d2 where "image_create upl (post_id p) 1 d1 = (r2, d2)" by fastforce
    then show ?thesis using assms pc Inr
      by (cases r2) (simp_all add: create_post_with_image_def respond_def bindE_def)
  qed
qed

section \<open>\<open>POST /create/image\<close>: what it stores\<close>

text \<open>
  C15. When \<open>POST /create/image\<close> responds, the request carried exactly one file, in
  the field \<open>image\<close>; it was written by disk storage; one post was appended, by user 1
  whoever is signed in, and unpublished; and one image was appended, linked to that post
  and to user 1, describing the stored file.
\<close>

theorem create_image_links:
  assumes "create_post_with_image r s = (Respond j, s')"
  shows "\<exists>fp p i. req_parts r = [fp] \<and> files s' = snd (disk_store (clock s) fp (files s))
           \<and> posts (store s') = posts (store s) @ [p] \<and> authorId p = 1 \<and> published p = False
           \<and> images (store s') = images (store s) @ [i] \<and> image_postId i = post_id p
           \<and> image_authorId i = 1 \<and> image_file i = fst (disk_store (clock s) fp (files s))"
proof -
  obtain res fs' where up: "upload_single ''image'' (clock s) (req_parts r) (files s) = (res, fs')"
    by fastforce
  obtain upl where res: "res = Inr upl"
    using assms up by (cases res) (auto simp: create_post_with_image_def)
  obtain p d1 where pc: "post_create (image_post_data (req_form r)) (store s) = (Inr p, d1)"
    using assms create_image_after_upload [OF up [unfolded res]]
    by (auto split: prod.splits sum.splits)
  obtain i d2 where ic: "image_create upl (post_id p) 1 d1 = (Inr i, d2)"
    and s': "s' = s\<lparr>files := fs', store := d2\<rparr>"
    using assms create_image_after_upload [OF up [unfolded res]] pc
    by (auto split: prod.splits sum.splits)
  note P = post_create_image_data [OF pc] and I = image_create_Inr [OF ic]
  have "upload_single ''image'' (clock s) (req_parts r) (files s) = (Inr (Some (image_file i)), fs')"
    using up res I by simp
  then obtain fp where fp: "req_parts r = [fp]" "(image_file i, fs') = disk_store (clock s) fp (files s)"
    using upload_single_ok by blast
  show ?thesis
    using P I fp s' by (auto simp: prod_eq_iff)
qed

theorem create_image_links_witness:
  "create_post_with_image image_demo_req image_demo_srv =
     (Respond (JObj [(''message'', JStr ''Created Post''), (''post'', JObj (post_scalars image_demo_post)),
                     (''image'', image_json image_demo_image)]), image_demo_after)
   \<and> (\<exists>fp p i. req_parts image_demo_req = [fp]
           \<and> files image_demo_after = snd (disk_store (clock image_demo_srv) fp (files image_demo_srv))
           \<and> posts (store image_demo_after) = posts (store image_demo_srv) @ [p] \<and> authorId p = 1
           \<and> published p = False \<and> images (store image_demo_after) = images (store image_demo_srv) @ [i]
           \<and> image_postId i = post_id p \<and> image_authorId i = 1
           \<and> image_file i = fst (disk_store (clock image_demo_srv) fp (files image_demo_srv)))"
proof -
  have h: "create_post_with_image image_demo_req image_demo_srv =
     (Respond (JObj [(''message'', JStr ''Created Post''), (''post'', JObj (post_scalars image_demo_post)),
                     (''image'', image_json image_demo_image)]), image_demo_after)"
    unfolding image_demo_after_def
    apply (subst create_image_after_upload)
     apply (simp add: image_demo_req_def image_demo_srv_def demo_srv_def upload_single_one demo_part_def)
    apply (simp add: image_demo_defs upload_single_one image_post_data_def post_create_def post_data_field_def
       no_post_data_def check_author_def image_create_def Let_def valid_author_input_def)
    done
  show ?thesis using h create_image_links [OF h] by blast
qed

lemma update_keeps_other: "x \<in> set al \<Longrightarrow> fst x \<noteq> k \<Longrightarrow> x \<in> set (AList.update k v al)"
  by (induction al) auto

lemma image_post_data_field:
  "(k, t) \<in> set form \<Longrightarrow> k \<noteq> ''authorId'' \<Longrightarrow> (k, JStr t) \<in> set (image_post_data form)"
  unfolding image_post_data_def by (rule update_keeps_other) force+

lemma post_create_published_str:
  assumes "(''published'', t) \<in> set form"
  shows "post_create (image_post_data form) d = (Inl ValidationError, d)"
proof (cases "parse_post_data (image_post_data form) no_post_data")
  case (Inl e)
  then show ?thesis by (simp add: post_create_def parse_post_data_error)
next
  case (Inr pd)
  have "(''published'', JStr t) \<in> set (image_post_data form)"
    using assms by (simp add: image_post_data_field)
  from parse_post_data_field [OF Inr this] show ?thesis
    by (auto simp: post_data_field_def)
qed

section \<open>\<open>POST /create/image\<close>: failures\<close>

text \<open>
  C16. \<open>POST /create/image\<close> is not atomic: a request without a file whose fields
  create a post stores that post, then fails in \<open>db.image.create\<close> (the spread of an
  undefined \<open>req.file\<close> leaves the image's required fields out), so no response is
  sent and the post stays, without an image.
\<close>

theorem create_image_without_file_keeps_post:
  assumes "req_parts r = []" and "post_create (image_post_data (req_form r)) (store s) = (Inr p, d')"
  shows "create_post_with_image r s = (Unhandled ValidationError, s\<lparr>store := d'\<rparr>) \<and> p \<in> set (posts d')"
proof -
  have "create_post_with_image r s = (Unhandled ValidationError, s\<lparr>store := d'\<rparr>)"
    using create_image_after_upload [of s r None "files s"] assms
    by (simp add: upload_single_none image_create_None)
  moreover have "p \<in> set (posts d')" using post_create_Inr [OF assms(2)] by auto
  ultimately show ?thesis by blast
qed

theorem create_image_without_file_keeps_post_witness:
  "req_parts (image_demo_req\<lparr>req_parts := []\<rparr>) = []
   \<and> post_create (image_post_data (req_form (image_demo_req\<lparr>req_parts := []\<rparr>))) (store image_demo_srv)
       = (Inr image_demo_post, (store image_demo_srv)\<lparr>post_seq := 3, posts := posts (store image_demo_srv) @ [image_demo_post]\<rparr>)
   \<and> create_post_with_image (image_demo_req\<lparr>req_parts := []\<rparr>) image_demo_srv
       = (Unhandled ValidationError,
          image_demo_srv\<lparr>store := (store image_demo_srv)\<lparr>post_seq := 3, posts := posts (store image_demo_srv) @ [image_demo_post]\<rparr>\<rparr>)"
proof -
  have h: "req_parts (image_demo_req\<lparr>req_parts := []\<rparr>) = []"
    "post_create (image_post_data (req_form (image_demo_req\<lparr>req_parts := []\<rparr>))) (store image_demo_srv)
       = (Inr image_demo_post, (store image_demo_srv)\<lparr>post_seq := 3, posts := posts (store image_demo_srv) @ [image_demo_post]\<rparr>)"
    by (simp_all add: image_demo_defs image_post_data_def post_create_def post_data_field_def
       no_post_data_def check_author_def Let_def valid_author_input_def)
  show ?thesis using h create_image_without_file_keeps_post [OF h] by blast
qed

text \<open>
  C17. A post with \<open>published\<close> set can never be created on \<open>POST /create/image\<close>:
  multipart fields are strings, and a string for the boolean \<open>published\<close> fails
  validation. No post or image is stored, no response is sent, and the file the upload
  middleware stored stays on disk.
\<close>

theorem create_image_published_rejected:
  assumes "(''published'', t) \<in> set (req_form r)" and "create_post_with_image r s = (out, s')"
  shows "store s' = store s \<and> files s' = snd (upload_single ''image'' (clock s) (req_parts r) (files s))
         \<and> (\<forall>j. out \<noteq> Respond j)"
proof -
  obtain res fs' where up: "upload_single ''image'' (clock s) (req_parts r) (files s) = (res, fs')"
    by fastforce
  show ?thesis
  proof (cases res)
    case (Inl me)
    then show ?thesis using assms(2) up by (auto simp: create_post_with_image_def)
  next
    case (Inr upl)
    then show ?thesis
      using assms(2) up create_image_after_upload [of s r upl fs']
        post_create_published_str [OF assms(1), of "store s"]
      by auto
  qed
qed

theorem create_image_published_rejected_witness:
  "(''published'', ''true'') \<in> set (req_form (image_demo_req\<lparr>req_form := [(''title'', ''T''), (''published'', ''true'')]\<rparr>))
   \<and> create_post_with_image (image_demo_req\<lparr>req_form := [(''title'', ''T''), (''published'', ''true'')]\<rparr>) image_demo_srv
       = (Unhandled ValidationError, image_demo_srv\<lparr>files := snd (disk_store 17 demo_part Map.empty)\<rparr>)
   \<and> files (image_demo_srv\<lparr>files := snd (disk_store 17 demo_part Map.empty)\<rparr>) ''image/17_a.png'' = Some ''xy''"
proof -
  let ?r = "image_demo_req\<lparr>req_form := [(''title'', ''T''), (''published'', ''true'')]\<rparr>"
  have m: "(''published'', ''true'') \<in> set (req_form ?r)" by simp
  have up: "upload_single ''image'' (clock image_demo_srv) (req_parts ?r) (files image_demo_srv)
              = (Inr (Some (fst (disk_store 17 demo_part Map.empty))), snd (disk_store 17 demo_part Map.empty))"
    by (simp add: image_demo_defs upload_single_one)
  have h: "create_post_with_image ?r image_demo_srv
             = (Unhandled ValidationError, image_demo_srv\<lparr>files := snd (disk_store 17 demo_part Map.empty)\<rparr>)"
    using create_image_after_upload [OF up] post_create_published_str [OF m] by simp
  have p: "path (fst (disk_store 17 demo_part Map.empty)) = ''image/17_a.png''" by code_simp
  have f: "snd (disk_store 17 demo_part Map.empty) ''image/17_a.png'' = Some ''xy''"
    using p by (simp add: disk_store_def Let_def demo_part_def)
  show ?thesis using m h f create_image_published_rejected [OF m h] by simp
qed

section \<open>\<open>PUT /:id\<close>\<close>

lemma post_update_found:
  assumes "lookup_post k d = Some p" and "parse_post_data body no_post_data = Inr pd"
    and "d_id pd = None" and "d_connect pd = None" and "set_option (d_authorId pd) \<subseteq> set (user_ids d)"
    and "pred_option in_int4 (d_authorId pd)"
  shows "post_update k body d =
           (Inr (apply_post_data pd (d_authorId pd) p), replace_post (post_id p) (apply_post_data pd (d_authorId pd) p) d)"
proof -
  have "check_author pd d = Inr (d_authorId pd)"
    using assms(4,5) by (auto simp: check_author_def split: option.splits)
  moreover have "post_id (apply_post_data pd (d_authorId pd) p) = post_id p"
    using assms(3) by (simp add: apply_post_data_def)
  ultimately show ?thesis using assms(1-4,6) lookup_post_arg [OF assms(1)]
    by (simp add: post_update_def valid_author_input_def Let_def data_in_range_def)
qed

lemma image_demo_lookup: "lookup_post (string_to_number (show_int 1)) (store image_demo_srv) = Some demo_post"
  by (simp add: string_to_number_show_int lookup_post_def image_demo_srv_def demo_srv_def demo_db_def demo_post_def in_int4_def)

text \<open>
  C18. \<open>PUT /:id\<close> of a stored post with a body that validates, keeps the key and
  names an existing author (a key that fits the 32-bit \<open>Int\<close>) if any: the post is replaced by the body's fields merged into
  it, and the response carries the updated post.
\<close>

theorem update_post_applies:
  assumes "lookup_post (string_to_number i) (store s) = Some p" and "parse_post_data body no_post_data = Inr pd"
    and "d_id pd = None" and "d_connect pd = None" and "set_option (d_authorId pd) \<subseteq> set (user_ids (store s))"
    and "pred_option in_int4 (d_authorId pd)"
  shows "update_post i body s =
           (Respond (JObj [(''message'', JStr ''the post has been updated''),
                           (''post'', JObj (post_scalars (apply_post_data pd (d_authorId pd) p)))]),
            s\<lparr>store := replace_post (post_id p) (apply_post_data pd (d_authorId pd) p) (store s)\<rparr>)"
  using post_update_found [OF assms] by (simp add: update_post_def respond_def bindE_def)

theorem update_post_applies_witness:
  "lookup_post (string_to_number (show_int 1)) (store image_demo_srv) = Some demo_post
   \<and> parse_post_data [(''title'', JStr ''Z'')] no_post_data = Inr (no_post_data\<lparr>d_title := Some ''Z''\<rparr>)
   \<and> d_id (no_post_data\<lparr>d_title := Some ''Z''\<rparr>) = None \<and> d_connect (no_post_data\<lparr>d_title := Some ''Z''\<rparr>) = None
   \<and> set_option (d_authorId (no_post_data\<lparr>d_title := Some ''Z''\<rparr>)) \<subseteq> set (user_ids (store image_demo_srv))
   \<and> pred_option in_int4 (d_authorId (no_post_data\<lparr>d_title := Some ''Z''\<rparr>))
   \<and> update_post (show_int 1) [(''title'', JStr ''Z'')] image_demo_srv =
       (Respond (JObj [(''message'', JStr ''the post has been updated''),
                       (''post'', JObj (post_scalars (demo_post\<lparr>title := ''Z''\<rparr>)))]),
        image_demo_srv\<lparr>store := replace_post 1 (demo_post\<lparr>title := ''Z''\<rparr>) (store image_demo_srv)\<rparr>)"
proof -
  have h: "lookup_post (string_to_number (show_int 1)) (store image_demo_srv) = Some demo_post"
    "parse_post_data [(''title'', JStr ''Z'')] no_post_data = Inr (no_post_data\<lparr>d_title := Some ''Z''\<rparr>)"
    "d_id (no_post_data\<lparr>d_title := Some ''Z''\<rparr>) = None" "d_connect (no_post_data\<lparr>d_title := Some ''Z''\<rparr>) = None"
    "set_option (d_authorId (no_post_data\<lparr>d_title := Some ''Z''\<rparr>)) \<subseteq> set (user_ids (store image_demo_srv))"
    "pred_option in_int4 (d_authorId (no_post_data\<lparr>d_title := Some ''Z''\<rparr>))"
    by (simp_all add: image_demo_lookup post_data_field_def no_post_data_def)
  have a: "apply_post_data (no_post_data\<lparr>d_title := Some ''Z''\<rparr>) (d_authorId (no_post_data\<lparr>d_title := Some ''Z''\<rparr>)) demo_post
             = demo_post\<lparr>title := ''Z''\<rparr>" "post_id demo_post = 1"
    by (simp_all add: apply_post_data_def no_post_data_def demo_post_def)
  show ?thesis using h update_post_applies [OF h] by (simp only: a)
qed

end
