(* ===== verification/Interleave.thy ===== *)
theory Interleave
  imports Server
begin

text \<open>
  \<open>DELETE /:id\<close> (\<open>src/controllers/posts.js\<close>, lines 176--207) is an \<open>async\<close> function
  with four \<open>await\<close>s. Node runs other requests while it waits, so the store may change
  between its calls. This theory models the handler as a task that resumes at each
  \<open>await\<close>: \<open>del_task\<close> is its frame (the key, where it stands, the counts it has),
  \<open>delete_resume\<close> runs it up to its next \<open>await\<close>, and \<open>conc_step\<close> interleaves it with
  every step of the server (\<open>Server.server_step\<close>: other requests, other routers'
  inserts, the clock). Interleaved, it may stop half way.
\<close>

section \<open>The handler as a resumable task\<close>

datatype del_pc = AtLikes | AtComments | AtImages | AtPost | Finished outcome

record del_task =
  dt_key :: "int option"
  dt_pc :: del_pc
  dt_nl :: nat
  dt_nc :: nat
  dt_ni :: nat

text \<open>The frame when the handler starts: \<open>Number(req.params.id)\<close>, before the first await.\<close>

definition delete_start :: "string \<Rightarrow> del_task" where
  "delete_start param_id =
     \<lparr>dt_key = string_to_number param_id, dt_pc = AtLikes, dt_nl = 0, dt_nc = 0, dt_ni = 0\<rparr>"

text \<open>One awaited call: a rejection finishes the task unhandled, a result continues it.\<close>

definition await_call ::
  "(db \<Rightarrow> (store_error + 'a) \<times> db) \<Rightarrow> ('a \<Rightarrow> del_task) \<Rightarrow> del_task \<Rightarrow> db \<Rightarrow> del_task \<times> db" where
  "await_call f k t d =
     (case f d of (Inl e, d') \<Rightarrow> (t\<lparr>dt_pc := Finished (Unhandled e)\<rparr>, d') | (Inr a, d') \<Rightarrow> (k a, d'))"

definition delete_resume :: "del_task \<Rightarrow> db \<Rightarrow> del_task \<times> db" where
  "delete_resume t d =
     (case dt_pc t of
        AtLikes \<Rightarrow> await_call (like_delete_many (dt_key t)) (\<lambda>n. t\<lparr>dt_pc := AtComments, dt_nl := n\<rparr>) t d
      | AtComments \<Rightarrow> await_call (comment_delete_many (dt_key t)) (\<lambda>n. t\<lparr>dt_pc := AtImages, dt_nc := n\<rparr>) t d
      | AtImages \<Rightarrow> await_call (image_delete_many (dt_key t)) (\<lambda>n. t\<lparr>dt_pc := AtPost, dt_ni := n\<rparr>) t d
      | AtPost \<Rightarrow> await_call (post_delete (dt_key t))
                   (\<lambda>p. t\<lparr>dt_pc := Finished (Respond (delete_response p (dt_nl t) (dt_nc t) (dt_ni t)))\<rparr>) t d
      | Finished out \<Rightarrow> (t, d))"

definition finished :: "del_task \<Rightarrow> bool" where
  "finished t \<longleftrightarrow> (case dt_pc t of Finished _ \<Rightarrow> True | _ \<Rightarrow> False)"

definition task_outcome :: "del_task \<Rightarrow> outcome option" where
  "task_outcome t = (case dt_pc t of Finished out \<Rightarrow> Some out | _ \<Rightarrow> None)"

section \<open>Interleaving with the rest of the server\<close>

inductive conc_step :: "del_task \<times> srv \<Rightarrow> del_task \<times> srv \<Rightarrow> bool" where
  resume: "\<not> finished t \<Longrightarrow> delete_resume t (store s) = (t', d') \<Longrightarrow> conc_step (t, s) (t', s\<lparr>store := d'\<rparr>)"
| other: "server_step s s' \<Longrightarrow> conc_step (t, s) (t, s')"

section \<open>Lemmas\<close>

lemma resume_intro:
  "\<not> finished t \<Longrightarrow> delete_resume t (store s) = (t', d') \<Longrightarrow> s' = s\<lparr>store := d'\<rparr> \<Longrightarrow> conc_step (t, s) (t', s')"
  using conc_step.resume by blast

lemma other_like: "add_like l (store s) = d' \<Longrightarrow> conc_step (t, s) (t, s\<lparr>store := d'\<rparr>)"
  by (drule sym) (simp add: conc_step.other server_step.like)

section \<open>Interleaved, the delete may stop half way\<close>

text \<open>
  C19. The four calls of \<open>DELETE /:id\<close> run outside a transaction. For any stored post,
  a like that another router adds after the likes were deleted makes the final
  \<open>db.post.delete\<close> fail on the foreign key: the handler rejects unhandled, and the post
  is still stored while its comments and image are gone.
\<close>

theorem delete_race_partial:
  assumes "lookup_post (string_to_number i) (store s) = Some p"
    and "u \<in> set (user_ids (store s))" and "lid \<notin> set (map like_id (likes (store s)))"
  shows "\<exists>t s'. conc_step\<^sup>*\<^sup>* (delete_start i, s) (t, s')
           \<and> task_outcome t = Some (Unhandled ForeignKeyViolation)
           \<and> lookup_post (string_to_number i) (store s') = Some p
           \<and> comments_of (store s') (post_id p) = []
           \<and> filter (\<lambda>x. image_postId x = post_id p) (images (store s')) = []"
proof -
  let ?k = "string_to_number i" and ?d = "store s" and ?n = "post_id p"
  let ?l = "\<lparr>like_id = lid, like_postId = ?n, like_authorId = u\<rparr>"
  let ?d1 = "?d\<lparr>likes := filter (\<lambda>l. like_postId l \<noteq> ?n) (likes ?d)\<rparr>"
  let ?d1' = "?d1\<lparr>likes := likes ?d1 @ [?l]\<rparr>"
  let ?d2 = "?d1'\<lparr>comments := map (unlink_parent (map comment_id (comments_of ?d ?n)))
                     (filter (\<lambda>c. comment_postId c \<noteq> ?n) (comments ?d))\<rparr>"
  let ?d3 = "?d2\<lparr>images := filter (\<lambda>x. image_postId x \<noteq> ?n) (images ?d)\<rparr>"
  let ?t0 = "delete_start i"
  let ?t1 = "?t0\<lparr>dt_pc := AtComments, dt_nl := length (likes_of ?d ?n)\<rparr>"
  let ?t2 = "?t1\<lparr>dt_pc := AtImages, dt_nc := length (comments_of ?d ?n)\<rparr>"
  let ?t3 = "?t2\<lparr>dt_pc := AtPost, dt_ni := length (filter (\<lambda>x. image_postId x = ?n) (images ?d))\<rparr>"
  let ?t4 = "?t3\<lparr>dt_pc := Finished (Unhandled ForeignKeyViolation)\<rparr>"
  have key: "dt_key ?t0 = ?k" "dt_pc ?t0 = AtLikes" "int_arg ?k = Inr ?n"
    using lookup_post_arg [OF assms(1)] by (simp_all add: delete_start_def)
  have l: "lookup_post ?k ?d1 = Some p" "lookup_post ?k ?d1' = Some p" "lookup_post ?k ?d2 = Some p"
    "lookup_post ?k ?d3 = Some p"
    using assms(1) key(3) by (simp_all add: lookup_post_def)
  have rel: "\<And>d' pid. lookup_post ?k d' = Some p \<Longrightarrow> rel_post_is ?k d' pid \<longleftrightarrow> pid = ?n"
    by (rule rel_post_is_present)
  have pid: "?n \<in> set (post_ids ?d)" using lookup_post_Some [OF assms(1)] by simp
  have st1: "conc_step (?t0, s) (?t1, s\<lparr>store := ?d1\<rparr>)"
    using rel [OF assms(1)] key
    by (intro resume_intro [where d' = ?d1])
       (simp_all add: finished_def delete_resume_def await_call_def like_delete_many_def likes_of_def)
  have "add_like ?l ?d1 = ?d1'"
    using assms(2,3) pid by (auto simp: add_like_def)
  then have st2: "conc_step (?t1, s\<lparr>store := ?d1\<rparr>) (?t1, s\<lparr>store := ?d1'\<rparr>)"
    using other_like [of ?l "s\<lparr>store := ?d1\<rparr>" ?d1' ?t1] by simp
  have st3: "conc_step (?t1, s\<lparr>store := ?d1'\<rparr>) (?t2, s\<lparr>store := ?d2\<rparr>)"
    using rel [OF l(2)] key
    by (intro resume_intro [where d' = ?d2])
       (simp_all add: finished_def delete_resume_def await_call_def comment_delete_many_def comments_of_def Let_def)
  have st4: "conc_step (?t2, s\<lparr>store := ?d2\<rparr>) (?t3, s\<lparr>store := ?d3\<rparr>)"
    using rel [OF l(3)] key
    by (intro resume_intro [where d' = ?d3])
       (simp_all add: finished_def delete_resume_def await_call_def image_delete_many_def)
  have "post_referenced ?n ?d3" by (simp add: post_referenced_def list_ex_iff)
  then have st5: "conc_step (?t3, s\<lparr>store := ?d3\<rparr>) (?t4, s\<lparr>store := ?d3\<rparr>)"
    using l(4) key
    by (intro resume_intro [where d' = ?d3])
       (simp_all add: finished_def delete_resume_def await_call_def post_delete_def)
  have "conc_step\<^sup>*\<^sup>* (?t0, s) (?t4, s\<lparr>store := ?d3\<rparr>)"
    using st1 st2 st3 st4 st5 by (meson converse_rtranclp_into_rtranclp rtranclp.rtrancl_refl)
  moreover have "task_outcome ?t4 = Some (Unhandled ForeignKeyViolation)" by (simp add: task_outcome_def)
  moreover have "comments_of ?d3 ?n = []" by (simp add: comments_of_def filter_map comp_def)
  ultimately show ?thesis using l(4) by fastforce
qed

theorem delete_race_partial_witness:
  "lookup_post (string_to_number (show_int 1)) (store demo_srv) = Some demo_post
   \<and> 7 \<in> set (user_ids (store demo_srv)) \<and> 2 \<notin> set (map like_id (likes (store demo_srv)))
   \<and> (\<exists>t s'. conc_step\<^sup>*\<^sup>* (delete_start (show_int 1), demo_srv) (t, s')
        \<and> task_outcome t = Some (Unhandled ForeignKeyViolation)
        \<and> lookup_post (string_to_number (show_int 1)) (store s') = Some demo_post
        \<and> comments_of (store s') 1 = [])"
proof -
  have h: "lookup_post (string_to_number (show_int 1)) (store demo_srv) = Some demo_post"
    "7 \<in> set (user_ids (store demo_srv))" "2 \<notin> set (map like_id (likes (store demo_srv)))"
    by (rule demo_lookup) (simp_all add: demo_defs)
  have k: "post_id demo_post = 1" by (simp add: demo_post_def)
  show ?thesis using h delete_race_partial [OF h] unfolding k by blast
qed

end
