(* ===== verification/InterleaveImage.thy ===== *)
theory InterleaveImage
  imports Writes Server
begin

text \<open>
  The handler of \<open>POST /create/image\<close> (src/controllers/posts.js, lines 131-160)
  as a resumable task: multer's upload runs first (\<open>image_start\<close>), then the handler
  awaits \<open>db.post.create\<close> and \<open>db.image.create\<close>; each await is a point where the
  event loop may serve other requests. \<open>img_pc\<close> names the program point,
  \<open>image_resume\<close> runs the code up to the next await, and \<open>img_step\<close> interleaves
  the task with any \<open>server_step\<close> of the rest of the application. A DELETE of the
  fresh post in between leaves an orphan upload.
\<close>

section \<open>The handler as a resumable task\<close>

datatype img_pc = ImgCreatePost | ImgCreateImage post | ImgDone outcome

record img_task =
  it_form :: "string jsobj"
  it_file :: "upload_file option"
  it_pc :: img_pc

definition image_start :: "request \<Rightarrow> srv \<Rightarrow> img_task \<times> srv" where
  "image_start r s =
     (case upload_single ''image'' (clock s) (req_parts r) (files s) of
        (Inl me, fs') \<Rightarrow> (\<lparr>it_form = req_form r, it_file = None, it_pc = ImgDone (ErrorPage me)\<rparr>, s\<lparr>files := fs'\<rparr>)
      | (Inr upl, fs') \<Rightarrow> (\<lparr>it_form = req_form r, it_file = upl, it_pc = ImgCreatePost\<rparr>, s\<lparr>files := fs'\<rparr>))"

definition image_resume :: "img_task \<Rightarrow> db \<Rightarrow> img_task \<times> db" where
  "image_resume t d =
     (case it_pc t of
        ImgCreatePost \<Rightarrow>
          (case post_create (image_post_data (it_form t)) d of
             (Inl e, d') \<Rightarrow> (t\<lparr>it_pc := ImgDone (Unhandled e)\<rparr>, d')
           | (Inr p, d') \<Rightarrow> (t\<lparr>it_pc := ImgCreateImage p\<rparr>, d'))
      | ImgCreateImage p \<Rightarrow>
          (case image_create (it_file t) (post_id p) 1 d of
             (Inl e, d') \<Rightarrow> (t\<lparr>it_pc := ImgDone (Unhandled e)\<rparr>, d')
           | (Inr i, d') \<Rightarrow>
               (t\<lparr>it_pc := ImgDone (Respond (JObj [(''message'', JStr ''Created Post''),
                   (''post'', JObj (post_scalars p)), (''image'', image_json i)]))\<rparr>, d'))
      | ImgDone out \<Rightarrow> (t, d))"

definition img_outcome :: "img_task \<Rightarrow> outcome option" where
  "img_outcome t = (case it_pc t of ImgDone out \<Rightarrow> Some out | _ \<Rightarrow> None)"

definition img_done :: "img_task \<Rightarrow> bool" where
  "img_done t \<longleftrightarrow> img_outcome t \<noteq> None"

inductive img_step :: "img_task \<times> srv \<Rightarrow> img_task \<times> srv \<Rightarrow> bool" where
  resume: "\<not> img_done t \<Longrightarrow> image_resume t (store s) = (t', d') \<Longrightarrow> img_step (t, s) (t', s\<lparr>store := d'\<rparr>)"
| other: "server_step s s' \<Longrightarrow> img_step (t, s) (t, s')"

section \<open>The interfering request: DELETE of the fresh post\<close>

lemma show_int_chars: "c \<in> set (show_int i) \<Longrightarrow> c = CHR ''-'' \<or> (48 \<le> (of_char c :: nat) \<and> of_char c \<le> (57 :: nat))"
  using show_nat_of_char by (auto simp: show_int_def split: if_splits)

lemma lower_char_show_int: "c \<in> set (show_int i) \<Longrightarrow> lower_char c = c"
  by (drule show_int_chars) (auto simp: lower_char_def)

lemma show_int_not_ci:
  assumes "lower_char c \<notin> set (show_int i)"
  shows "\<not> ci_eq (CHR ''/'' # show_int i) (CHR ''/'' # c # w)"
proof
  assume ci: "ci_eq (CHR ''/'' # show_int i) (CHR ''/'' # c # w)"
  obtain x xs where x: "show_int i = x # xs"
    using show_int_segment [of i] by (cases "show_int i") auto
  then have "lower_char x = lower_char c" using ci by (simp add: ci_eq_def)
  moreover have "lower_char x = x" using x lower_char_show_int [of x i] by simp
  ultimately show False using assms x by simp
qed

lemma dispatch_delete_key: "dispatch DELETE (CHR ''/'' # show_int i) = Some (T_Delete, show_int i)"
proof -
  have a: "CHR ''a'' \<notin> set (show_int i)" and u: "CHR ''u'' \<notin> set (show_int i)"
    using show_int_chars [of "CHR ''a''" i] show_int_chars [of "CHR ''u''" i] by auto
  have "lower_char (CHR ''a'') = CHR ''a''" "lower_char (CHR ''u'') = CHR ''u''"
    by (simp_all add: lower_char_def)
  then have "\<not> ci_eq (CHR ''/'' # show_int i) ''/allunpublished''"
    "\<not> ci_eq (CHR ''/'' # show_int i) ''/unpublished''"
    using show_int_not_ci [of "CHR ''a''" i] show_int_not_ci [of "CHR ''u''" i] a u by simp_all
  then show ?thesis
    using dispatch_write_segment [of "show_int i" DELETE] show_int_segment [of i] by simp
qed

lemma lookup_post_show_int:
  assumes "db_wf d" and "p \<in> set (posts d)"
  shows "lookup_post (string_to_number (show_int (post_id p))) d = Some p"
proof -
  have "distinct (post_ids d)" and r: "in_int4 (post_id p)"
    using assms by (simp_all add: db_wf_def keys_ok_def list_all_iff)
  then have "find (\<lambda>y. post_id y = post_id p) (posts d) = Some p"
    using assms(2) by (intro find_unique_key)
  then show ?thesis using r by (simp add: lookup_post_Some_key string_to_number_show_int)
qed

lemma delete_request_step:
  assumes "db_wf (store s)" and "p \<in> set (posts (store s))"
  shows "server_step s (s\<lparr>store := cascade_delete (post_id p) (store s)\<rparr>)"
proof -
  obtain out where "delete_post (show_int (post_id p)) s = (out, s\<lparr>store := cascade_delete (post_id p) (store s)\<rparr>)"
    using delete_present_eq [OF lookup_post_show_int [OF assms]] by blast
  then have "serve DELETE (CHR ''/'' # show_int (post_id p)) r s
               = (Reply out, s\<lparr>store := cascade_delete (post_id p) (store s)\<rparr>)"
    by (simp add: serve_def dispatch_delete_key run_target_def)
  then show ?thesis by (rule server_step.request)
qed

text \<open>
  C29. The two awaits of \<open>POST /create/image\<close> are not a transaction. When a
  \<open>DELETE /:id\<close> of the post just created is served between \<open>db.post.create\<close>
  and \<open>db.image.create\<close>, the handler ends with an unhandled \<open>RecordNotFound\<close>
  (no response), the post is gone, no image row refers to it, and the file the
  upload wrote stays on disk with no row naming it.
\<close>

theorem image_delete_race:
  assumes wf: "db_wf (store s)"
    and up: "upload_single ''image'' (clock s) (req_parts r) (files s) = (Inr (Some f), fs')"
    and pc: "post_create (image_post_data (req_form r)) (store s) = (Inr p, d1)"
  shows "\<exists>t s'. img_step\<^sup>*\<^sup>* (image_start r s) (t, s') \<and> img_outcome t = Some (Unhandled RecordNotFound)
           \<and> post_id p \<notin> set (post_ids (store s')) \<and> \<not> list_ex (\<lambda>i. image_postId i = post_id p) (images (store s'))
           \<and> files s' = fs' \<and> fs' (path f) \<noteq> None"
proof -
  let ?t0 = "\<lparr>it_form = req_form r, it_file = Some f, it_pc = ImgCreatePost\<rparr>"
  let ?t1 = "?t0\<lparr>it_pc := ImgCreateImage p\<rparr>"
  let ?t2 = "?t1\<lparr>it_pc := ImgDone (Unhandled RecordNotFound)\<rparr>"
  let ?s1 = "s\<lparr>files := fs', store := d1\<rparr>"
  let ?d2 = "cascade_delete (post_id p) d1"
  have start: "image_start r s = (?t0, s\<lparr>files := fs'\<rparr>)"
    using up by (simp add: image_start_def)
  have st1: "img_step (?t0, s\<lparr>files := fs'\<rparr>) (?t1, ?s1)"
    using img_step.resume [of ?t0 "s\<lparr>files := fs'\<rparr>" ?t1 d1] pc
    by (simp add: img_done_def img_outcome_def image_resume_def)
  have wf1: "db_wf d1" using wf pc by (rule post_create_wf)
  have mem: "p \<in> set (posts d1)" using post_create_Inr [OF pc] by auto
  have st2: "img_step (?t1, ?s1) (?t1, ?s1\<lparr>store := ?d2\<rparr>)"
    using delete_request_step [of ?s1 p] wf1 mem by (simp add: img_step.other)
  have gone: "post_id p \<notin> set (post_ids ?d2)"
    by (auto simp: cascade_delete_def)
  have st3: "img_step (?t1, ?s1\<lparr>store := ?d2\<rparr>) (?t2, ?s1\<lparr>store := ?d2\<rparr>)"
    using img_step.resume [of ?t1 "?s1\<lparr>store := ?d2\<rparr>" ?t2 ?d2] gone
    by (simp add: img_done_def img_outcome_def image_resume_def image_create_def)
  have fl: "fs' (path f) \<noteq> None"
    using upload_single_ok [OF up] by (auto simp: disk_store_def Let_def)
  have "img_step\<^sup>*\<^sup>* (image_start r s) (?t2, ?s1\<lparr>store := ?d2\<rparr>)"
    using start st1 st2 st3 by (metis (no_types, lifting) rtranclp.rtrancl_into_rtrancl rtranclp.rtrancl_refl)
  then show ?thesis using gone fl
    by (intro exI [of _ ?t2] exI [of _ "?s1\<lparr>store := ?d2\<rparr>"]) (simp add: img_outcome_def cascade_delete_def list_ex_iff)
qed

theorem image_delete_race_witness:
  "db_wf (store image_demo_srv)
   \<and> upload_single ''image'' (clock image_demo_srv) (req_parts image_demo_req) (files image_demo_srv)
       = (Inr (Some (fst (disk_store 17 demo_part Map.empty))), snd (disk_store 17 demo_part Map.empty))
   \<and> post_create (image_post_data (req_form image_demo_req)) (store image_demo_srv)
       = (Inr image_demo_post, (store image_demo_srv)\<lparr>post_seq := 3, posts := posts (store image_demo_srv) @ [image_demo_post]\<rparr>)
   \<and> (\<exists>t s'. img_step\<^sup>*\<^sup>* (image_start image_demo_req image_demo_srv) (t, s')
        \<and> img_outcome t = Some (Unhandled RecordNotFound)
        \<and> post_id image_demo_post \<notin> set (post_ids (store s'))
        \<and> \<not> list_ex (\<lambda>i. image_postId i = post_id image_demo_post) (images (store s'))
        \<and> files s' = snd (disk_store 17 demo_part Map.empty)
        \<and> snd (disk_store 17 demo_part Map.empty) (path (fst (disk_store 17 demo_part Map.empty))) \<noteq> None)"
proof -
  have h: "db_wf (store image_demo_srv)"
    "upload_single ''image'' (clock image_demo_srv) (req_parts image_demo_req) (files image_demo_srv)
       = (Inr (Some (fst (disk_store 17 demo_part Map.empty))), snd (disk_store 17 demo_part Map.empty))"
    "post_create (image_post_data (req_form image_demo_req)) (store image_demo_srv)
       = (Inr image_demo_post, (store image_demo_srv)\<lparr>post_seq := 3, posts := posts (store image_demo_srv) @ [image_demo_post]\<rparr>)"
      apply (simp add: image_demo_srv_def demo_srv_def demo_defs db_wf_unfold in_int4_def)
     apply (simp add: image_demo_req_def image_demo_srv_def demo_srv_def upload_single_one demo_part_def)
    apply (simp add: image_demo_defs image_post_data_def post_create_def post_data_field_def
       no_post_data_def check_author_def Let_def valid_author_input_def)
    done
  show ?thesis using h image_delete_race [OF h] by blast
qed

end
