(* ===== verification/Reads.thy ===== *)
theory Reads
  imports Server
begin

text \<open>
  The read routes of \<open>src/controllers/posts.js\<close>: \<open>GET /\<close> (lines 18--35), \<open>GET /:id\<close>
  (38--55), \<open>router.use('/allunpublished')\<close> (58--76), \<open>router.use('/unpublished')\<close>
  (79--97) and \<open>GET /published\<close> (100--116). It holds what the two unpublished
  listings list, how \<open>use\<close> exposes a listing to every method, and that the methods
  \<open>GET\<close> and \<open>HEAD\<close> reach only handlers that read.
\<close>

text \<open>The targets whose handlers only read.\<close>

definition is_read_target :: "target \<Rightarrow> bool" where
  "is_read_target t \<longleftrightarrow> t \<in> {T_GetPublished, T_GetById, T_AllUnpublished, T_OwnUnpublished, T_OwnPublished}"

section \<open>Lemmas\<close>

lemma render_post_mem:
  "render_post d (OScalars # outs) p \<in> render_post d (OScalars # outs) ` X \<longleftrightarrow> p \<in> X"
  using render_post_inj [of d outs p d outs] by auto

lemma dispatch_allunpublished:
  "m \<noteq> GET \<Longrightarrow> m \<noteq> HEAD \<Longrightarrow> dispatch m ''/allunpublished'' = Some (T_AllUnpublished, [])"
  by (cases m) (simp_all add: dispatch_def posts_routes_def method_matches_def ci_eq_def)

section \<open>The unpublished listings\<close>

text \<open>
  C22. \<open>/unpublished\<close> with a current user whose \<open>Number\<close> is a 32-bit integer \<open>u\<close>
  lists exactly the drafts of \<open>u\<close> and changes nothing. With no current user it does
  not answer the empty list the specification asks for: \<open>Number(undefined)\<close> is
  \<open>NaN\<close>, Prisma refuses \<open>authorId: NaN\<close>, and the request gets no response.
\<close>

theorem own_unpublished_lists:
  assumes "js_number cu = Some u" and "in_int4 u"
  shows "(\<exists>ps. get_own_unpublished cu s = (Respond (posts_json ps), s)
            \<and> (render_post (store s) own_unpublished_include p \<in> set ps
                 \<longleftrightarrow> p \<in> set (posts (store s)) \<and> authorId p = u \<and> \<not> published p))
         \<and> get_own_unpublished JsUndefined s = (Unhandled ValidationError, s)"
proof -
  let ?ps = "map (render_post (store s) own_unpublished_include)
               (filter (\<lambda>p. authorId p = u \<and> \<not> published p) (posts (store s)))"
  have g: "get_own_unpublished cu s = (Respond (posts_json ?ps), s)"
    using assms by (simp add: get_own_unpublished_def post_find_many_valid find_posts_def where_post_fun
        map_filter_simps conj_commute eq_commute)
  have m: "render_post (store s) own_unpublished_include p \<in> set ?ps
             \<longleftrightarrow> p \<in> set (posts (store s)) \<and> authorId p = u \<and> \<not> published p"
    unfolding own_unpublished_include_def set_map by (simp only: render_post_mem) simp
  have "get_own_unpublished JsUndefined s = (Unhandled ValidationError, s)"
    by (simp add: get_own_unpublished_def post_find_many_def map_filter_simps)
  then show ?thesis using g m by blast
qed

theorem own_unpublished_lists_witness:
  "js_number (JsNum 7) = Some 7 \<and> in_int4 7
   \<and> (render_post (store demo_srv) own_unpublished_include demo_post \<in> set (map (render_post (store demo_srv) own_unpublished_include) [demo_post]))
   \<and> get_own_unpublished JsUndefined demo_srv = (Unhandled ValidationError, demo_srv)"
proof -
  have h: "js_number (JsNum 7) = Some 7" "in_int4 7" by (simp_all add: in_int4_def)
  have "demo_post \<in> set (posts (store demo_srv)) \<and> authorId demo_post = 7 \<and> \<not> published demo_post"
    by (simp add: demo_defs)
  then show ?thesis using h own_unpublished_lists [OF h, of demo_srv demo_post] by simp
qed

text \<open>
  C23. \<open>router.use('/allunpublished')\<close> answers every method but \<open>GET\<close> and \<open>HEAD\<close>
  (which \<open>GET /:id\<close> takes first): \<open>POST\<close>, \<open>PUT\<close> or \<open>DELETE /allunpublished\<close> list
  the drafts of every author, whoever asks, and change nothing.
\<close>

theorem allunpublished_any_method:
  assumes "m \<noteq> GET" and "m \<noteq> HEAD"
  shows "serve m ''/allunpublished'' r s =
           (Reply (Respond (posts_json (map (render_post (store s) threaded_include)
              (filter (\<lambda>p. \<not> published p) (posts (store s)))))), s)"
proof -
  show ?thesis using dispatch_allunpublished [OF assms]
    by (simp add: serve_def run_target_def get_all_unpublished_def post_find_many_def find_posts_def
        where_post_fun map_filter_simps)
qed

theorem allunpublished_any_method_witness:
  "DELETE \<noteq> GET \<and> DELETE \<noteq> HEAD \<and>
   serve DELETE ''/allunpublished'' \<lparr>req_body = [], req_currentUser = JsUndefined, req_form = [], req_parts = []\<rparr> demo_srv =
     (Reply (Respond (posts_json (map (render_post (store demo_srv) threaded_include)
        (filter (\<lambda>p. \<not> published p) (posts (store demo_srv)))))), demo_srv)"
proof -
  have h: "DELETE \<noteq> GET" "DELETE \<noteq> HEAD" by simp_all
  show ?thesis using h allunpublished_any_method [OF h] by blast
qed

lemma dispatch_layers_target: "dispatch_layers ls m p = Some (t, a) \<Longrightarrow> \<exists>r pat. Layer r pat t \<in> set ls \<and> method_matches r m"
  by (induction ls m p rule: dispatch_layers.induct) (auto split: if_splits option.splits)

lemma dispatch_safe_method:
  assumes "m = GET \<or> m = HEAD" and "dispatch m p = Some (t, a)"
  shows "is_read_target t"
  using dispatch_layers_target [OF assms(2) [unfolded dispatch_def]] assms(1)
  by (auto simp: posts_routes_def method_matches_def is_read_target_def)

lemma run_target_read: "is_read_target t \<Longrightarrow> snd (run_target t a r s) = s"
  by (auto simp: is_read_target_def run_target_def)

section \<open>Safe methods\<close>

text \<open>
  C26. \<open>GET\<close> and \<open>HEAD\<close> are safe methods: whatever the path, the request and the
  state, serving them leaves the store, the files and the clock unchanged. The router
  sends them only to the read handlers, \<open>/allunpublished/...\<close> included.
\<close>

theorem safe_methods_keep_state:
  assumes "m = GET \<or> m = HEAD"
  shows "snd (serve m p r s) = s"
proof (cases "dispatch m p")
  case None
  then show ?thesis by (simp add: serve_def)
next
  case (Some ta)
  obtain t a where ta: "ta = (t, a)" by fastforce
  have "is_read_target t" using dispatch_safe_method [OF assms] Some ta by simp
  then show ?thesis using Some ta
    by (simp add: serve_def split_def run_target_read)
qed

theorem safe_methods_keep_state_witness:
  "(GET = GET \<or> GET = HEAD) \<and>
   snd (serve GET ''/allunpublished/x'' \<lparr>req_body = [], req_currentUser = JsUndefined, req_form = [], req_parts = []\<rparr>
          demo_srv) = demo_srv"
proof -
  have h: "GET = GET \<or> GET = HEAD" by simp
  show ?thesis using h safe_methods_keep_state [OF h] by blast
qed

end
