(* ===== verification/Files.thy ===== *)
theory Files
  imports Writes Server
begin

text \<open>
  Where the files that image rows name live. The upload middleware (lines 6--15 and
  133 of \<open>src/controllers/posts.js\<close>) writes each file directly into \<open>image/\<close>; the
  upload route (131--160) spreads that file object into the image row; the other
  handlers never create image rows and never change a row's file. This theory proves
  that, across all of them, every image row of every reachable state names a file
  directly inside \<open>image/\<close> whose name has no path separator.
\<close>

section \<open>Confined files\<close>

definition confined_file :: "upload_file \<Rightarrow> bool" where
  "confined_file f \<longleftrightarrow> path f = upload_destination @ filename f \<and> (\<forall>c \<in> set (filename f). \<not> is_path_sep c)"

definition image_files :: "db \<Rightarrow> upload_file set" where
  "image_files d = set (map image_file (images d))"

definition files_confined :: "db \<Rightarrow> bool" where
  "files_confined d \<longleftrightarrow> (\<forall>f \<in> image_files d. confined_file f)"

section \<open>Lemmas: every operation keeps the files of image rows confined\<close>

lemma disk_store_file_confined: "confined_file (fst (disk_store now fp fs))"
  using upload_filename_no_sep by (auto simp: confined_file_def disk_store_def Let_def)

lemma upload_single_confined:
  "upload_single name now parts fs = (Inr upl, fs') \<Longrightarrow> f \<in> set_option upl \<Longrightarrow> confined_file f"
  using upload_single_ok [of name now parts fs f fs'] disk_store_file_confined
  by (auto simp: prod_eq_iff)

lemma image_files_replace_post: "image_files (replace_post old p' d) = image_files d"
  by (force simp: image_files_def replace_post_def image_iff)

lemma store_ops_image_files:
  "post_create data d = (r1, d') \<Longrightarrow> image_files d' = image_files d"
  "post_update k data d = (r2, d') \<Longrightarrow> image_files d' = image_files d"
  "like_delete_many k d = (r3, d') \<Longrightarrow> image_files d' = image_files d"
  "comment_delete_many k d = (r4, d') \<Longrightarrow> image_files d' = image_files d"
  "image_delete_many k d = (r5, d') \<Longrightarrow> image_files d' \<subseteq> image_files d"
  "post_delete k d = (r6, d') \<Longrightarrow> image_files d' = image_files d"
  "image_create upl pid u d = (r7, d') \<Longrightarrow> image_files d' \<subseteq> image_files d \<union> set_option upl"
  apply (auto simp: image_files_def post_create_def Let_def split: sum.splits if_splits option.splits)[1]
  apply (auto simp: post_update_def image_files_replace_post Let_def split: sum.splits if_splits option.splits)[1]
  apply (auto simp: image_files_def like_delete_many_def comment_delete_many_def image_delete_many_def
        post_delete_def image_create_def Let_def split: if_splits option.splits sum.splits)
  done

lemma keeps_run_db_pred:
  "(\<And>d r d'. P d \<Longrightarrow> f d = (r, d') \<Longrightarrow> P d') \<Longrightarrow> keeps (\<lambda>s. P (store s)) (run_db f)"
  by (auto simp del: run_db_apply simp: run_db_def split: prod.splits)

lemma respond_keeps_pred: "keeps P m \<Longrightarrow> P s \<Longrightarrow> respond m s = (out, s') \<Longrightarrow> P s'"
  by (auto simp: respond_def split: prod.splits sum.splits)

lemma respond_keeps_snd: "keeps P m \<Longrightarrow> P s \<Longrightarrow> P (snd (respond m s))"
  by (auto simp: respond_def split: prod.splits sum.splits)

lemma keeps_confined_ops:
  "keeps (\<lambda>s. files_confined (store s)) (run_db (post_create data))"
  "keeps (\<lambda>s. files_confined (store s)) (run_db (post_update k data))"
  "keeps (\<lambda>s. files_confined (store s)) (run_db (like_delete_many k))"
  "keeps (\<lambda>s. files_confined (store s)) (run_db (comment_delete_many k))"
  "keeps (\<lambda>s. files_confined (store s)) (run_db (image_delete_many k))"
  "keeps (\<lambda>s. files_confined (store s)) (run_db (post_delete k))"
  "(\<And>f. f \<in> set_option upl \<Longrightarrow> confined_file f) \<Longrightarrow>
     keeps (\<lambda>s. files_confined (store s)) (run_db (image_create upl pid u))"
  by (rule keeps_run_db_pred; auto simp: files_confined_def dest!: store_ops_image_files)+


lemma write_handlers_confined:
  assumes "files_confined (store s)"
  shows "files_confined (store (snd (create_post b cu s)))"
    "files_confined (store (snd (update_post i b s)))"
    "files_confined (store (snd (delete_post i s)))"
  unfolding create_post_def update_post_def delete_post_def Let_def
  by (rule respond_keeps_snd [where P = "\<lambda>s. files_confined (store s)", OF _ assms],
      (intro keeps_bindE keeps_returnE keeps_confined_ops)+)+

lemma create_image_confined:
  assumes "files_confined (store s)"
  shows "files_confined (store (snd (create_post_with_image r s)))"
proof -
  obtain res fs' where up: "upload_single ''image'' (clock s) (req_parts r) (files s) = (res, fs')"
    by fastforce
  show ?thesis
  proof (cases res)
    case (Inl me)
    then show ?thesis using assms up by (simp add: create_post_with_image_def)
  next
    case (Inr upl)
    have c: "\<And>f. f \<in> set_option upl \<Longrightarrow> confined_file f"
      using upload_single_confined up Inr by blast
    have f: "files_confined (store (s\<lparr>files := fs'\<rparr>))" using assms by simp
    show ?thesis using up Inr
      by (simp add: create_post_with_image_def)
         (rule respond_keeps_snd [where P = "\<lambda>s. files_confined (store s)", OF _ f],
          (intro keeps_bindE keeps_returnE keeps_confined_ops c)+)
  qed
qed

lemma run_target_confined:
  "files_confined (store s) \<Longrightarrow> files_confined (store (snd (run_target t a r s)))"
  by (cases t) (simp_all add: run_target_def write_handlers_confined create_image_confined)

lemma serve_confined: "files_confined (store s) \<Longrightarrow> files_confined (store (snd (serve m p r s)))"
  by (simp add: serve_def split_def Let_def run_target_confined split: option.splits)

lemma server_step_confined: "server_step s s' \<Longrightarrow> files_confined (store s) \<Longrightarrow> files_confined (store s')"
proof (induction rule: server_step.induct)
  case (request m p r s resp s')
  then show ?case using serve_confined [of s m p r] by simp
qed (auto simp: files_confined_def image_files_def add_user_def add_comment_def add_like_def)

section \<open>In every reachable state\<close>

text \<open>
  C28. In every reachable state, every image row names a file directly inside
  \<open>image/\<close> (its path is \<open>image/\<close> followed by its file name), and that name contains
  no \<open>/\<close> or \<open>\\\<close>, whatever file names clients sent.
\<close>

theorem reachable_files_confined: "reachable s \<Longrightarrow> files_confined (store s)"
proof (induction rule: reachable.induct)
  case init
  then show ?case by (simp add: files_confined_def image_files_def init_srv_def empty_db_def)
next
  case (step s s')
  then show ?case by (blast intro: server_step_confined)
qed

text \<open>A reachable state with an image row: user 1 is added, then one upload is served.\<close>

lemma uploaded_state:
  "reachable (snd (serve POST ''/create/image'' image_demo_req
      (init_srv\<lparr>store := add_user \<lparr>user_id = 1, user_name = ''root''\<rparr> (store init_srv)\<rparr>)))
   \<and> images (store (snd (serve POST ''/create/image'' image_demo_req
      (init_srv\<lparr>store := add_user \<lparr>user_id = 1, user_name = ''root''\<rparr> (store init_srv)\<rparr>)))) \<noteq> []"
proof -
  let ?s1 = "init_srv\<lparr>store := add_user \<lparr>user_id = 1, user_name = ''root''\<rparr> (store init_srv)\<rparr>"
  have r1: "reachable ?s1" by (rule reachable.step [OF reachable.init server_step.user])
  have r2: "reachable (snd (serve POST ''/create/image'' image_demo_req ?s1))"
    by (rule reachable.step [OF r1 server_step.request [OF prod.collapse [symmetric]]])
  have d: "dispatch POST ''/create/image'' = Some (T_CreateImage, [])"
    by (simp add: dispatch_def posts_routes_def method_matches_def ci_eq_def)
  have up: "upload_single ''image'' (clock ?s1) (req_parts image_demo_req) (files ?s1)
      = (Inr (Some (fst (disk_store 0 demo_part Map.empty))), snd (disk_store 0 demo_part Map.empty))"
    by (simp add: image_demo_req_def init_srv_def upload_single_one demo_part_def)
  have "images (store (snd (create_post_with_image image_demo_req ?s1))) \<noteq> []"
    using create_image_after_upload [OF up]
    by (simp add: image_demo_req_def init_srv_def empty_db_def add_user_def
        image_post_data_def post_create_def post_data_field_def no_post_data_def check_author_def
        image_create_def Let_def valid_author_input_def data_in_range_def in_int4_def split: prod.splits)
  then show ?thesis using r2 d by (simp add: serve_def run_target_def split_def Let_def)
qed

theorem reachable_files_confined_witness:
  "reachable (snd (serve POST ''/create/image'' image_demo_req
      (init_srv\<lparr>store := add_user \<lparr>user_id = 1, user_name = ''root''\<rparr> (store init_srv)\<rparr>))) \<and> images (store (snd (serve POST ''/create/image'' image_demo_req
      (init_srv\<lparr>store := add_user \<lparr>user_id = 1, user_name = ''root''\<rparr> (store init_srv)\<rparr>)))) \<noteq> [] \<and> files_confined (store (snd (serve POST ''/create/image'' image_demo_req
      (init_srv\<lparr>store := add_user \<lparr>user_id = 1, user_name = ''root''\<rparr> (store init_srv)\<rparr>))))"
  using uploaded_state reachable_files_confined [OF conjunct1 [OF uploaded_state]] by blast

end
