(* ===== verification/Spec2Isabelle.thy ===== *)
theory Spec2Isabelle
  imports Server Writes Interleave InterleaveImage Reads Files
begin

text \<open>
  \<^bold>\<open>A verification development of the posts controller of prisma-test.\<close>

  \<^bold>\<open>The program.\<close> \<open>src/controllers/posts.js\<close> is an Express router for a "posts"
  resource over a Prisma client. It registers nine layers, in this order: \<open>GET /\<close>
  (published posts), \<open>GET /:id\<close> (one post), \<open>use /allunpublished\<close> and
  \<open>use /unpublished\<close> (unpublished posts, all or the current user's), \<open>GET /published\<close>
  (the current user's published posts, narrowed), \<open>POST /create\<close>, \<open>POST /create/image\<close>
  (behind multer's \<open>upload.single('image')\<close> with disk storage in \<open>image/\<close> and file
  names \<open><millis>_<originalname>\<close>), \<open>PUT /:id\<close> and \<open>DELETE /:id\<close> (which deletes
  the post's likes, comments and images, then the post, in four awaited calls). The
  handlers share no state but the database and the upload directory; the identity
  \<open>req.currentUser\<close> comes from middleware outside the repository.

  \<^bold>\<open>The theories.\<close>
  \<^item> \<open>Prelude\<close>: the names of the model's types; \<open>bindE\<close>, which sequences awaited
    calls that may throw while keeping their effects on the state; JavaScript object
    spread as \<open>AList.update\<close>; the rule collections \<open>handler_defs\<close> and \<open>keeps_intros\<close>;
    list lemmas.
  \<^item> \<open>Json\<close>: JSON values, the values of \<open>req.currentUser\<close>, ECMAScript \<open>Number(...)\<close>
    (\<open>string_to_number\<close>, \<open>js_number\<close>: trimming, the empty string, \<open>0x\<close>/\<open>0o\<close>/\<open>0b\<close>,
    signed decimals with fraction and exponent; \<open>None\<close> for \<open>NaN\<close> and non-integers)
    and number printing (\<open>show_nat\<close>, \<open>show_int\<close>); \<open>Number(String(n)) = n\<close> is
    proved there (\<open>string_to_number_show_int\<close>).
  \<^item> \<open>Upload\<close>: multer's disk storage (lines 6--15) and \<open>single('image')\<close>: busboy's base
    name of the client's file name, \<open>upload_filename\<close>, \<open>disk_store\<close>, \<open>upload_single\<close>
    with multer's unexpected-field error and its removal of stored files on error.
  \<^item> \<open>Store\<close>: the Prisma client as the code uses it. Tables are lists of rows in
    insertion order; the schema (not in the repository) follows the specification's
    data model with Prisma's default referential actions. Every \<open>Int\<close> argument is
    checked as Prisma does before the query runs (\<open>int_arg\<close>): \<open>Number(...)\<close> that is
    \<open>NaN\<close> or not an integer is a validation error, an integer outside 32 bits is
    refused by the \<open>INT4\<close> column; \<open>lookup_post\<close> is the row a valid key selects. One
    definition per call shape
    of the code: \<open>post_find_many\<close>/\<open>post_find_unique\<close> with the code's \<open>where\<close>,
    \<open>include\<close> and \<open>select\<close>, \<open>post_create\<close> and \<open>post_update\<close> with Prisma's validation
    of \<open>data\<close> (unknown keys, wrong types, \<open>author\<close>/\<open>authorId\<close> mixed), the three
    \<open>deleteMany\<close> calls with their relation filter, \<open>post_delete\<close> (refused while
    referenced) and \<open>image_create\<close>. The invariant \<open>db_wf\<close> (unique keys that fit
    32 bits, every reference resolves, one image per post) is kept by every operation.
  \<^item> \<open>Handlers\<close>: the server state (store, files, clock), one definition per route
    handler composed with \<open>bindE\<close> in the order of the source's awaits; a thrown error is
    \<open>Unhandled\<close> (Express 4 does not catch a rejected async handler, so nothing is sent),
    a multer error is Express's \<open>ErrorPage\<close>. The contract \<open>cascade_delete\<close> of the
    specification's delete, and the handler-level theorems.
  \<^item> \<open>Writes\<close>: the write handlers' behaviour: how Prisma validates the objects the
    handlers build by spreading (\<open>{...req.body, author: ...}\<close>, \<open>{...req.body,
    authorId: 1}\<close>), and what \<open>POST /create\<close>, \<open>POST /create/image\<close> and \<open>PUT /:id\<close>
    store and answer, their errors included.
  \<^item> \<open>Router\<close>: the nine layers in source order and Express's first-match dispatch with
    path-to-regexp's matching (case-insensitive, optional trailing slash, \<open>:id\<close> one
    segment, \<open>use\<close> a prefix for every method; \<open>get\<close> also answers \<open>HEAD\<close>).
  \<^item> \<open>Server\<close>: \<open>serve\<close> (dispatch, then the handler), the step relation
    \<open>server_step\<close> (a request, a clock tick, or an insert by the rest of the application)
    and the reachable states.
  \<^item> \<open>Interleave\<close>: \<open>DELETE /:id\<close> await by await. \<open>del_task\<close> is the handler's
    frame, \<open>del_pc\<close> its program point (one per \<open>await\<close>), \<open>delete_resume\<close> runs it to its
    next \<open>await\<close>, and \<open>conc_step\<close> interleaves it with every \<open>server_step\<close>.
  \<^item> \<open>InterleaveImage\<close>: \<open>POST /create/image\<close> the same way: \<open>image_start\<close> is the
    upload middleware, \<open>img_pc\<close> the two awaits, \<open>image_resume\<close> the code between them,
    and \<open>img_step\<close> interleaves the task with every \<open>server_step\<close>.
  \<^item> \<open>Reads\<close>: the read routes' results: the unpublished listings, the \<open>use\<close> layer
    that answers \<open>/allunpublished\<close> for every method, and the safe methods.
  \<^item> \<open>Files\<close>: where the files named by image rows live (\<open>confined_file\<close>,
    \<open>files_confined\<close>), kept by the upload middleware, every handler and every step.
  \<^item> This theory: the properties that span the router, the handlers and the store, and
    the scenario of the specification's section 8.

  \<^bold>\<open>What is proved.\<close> Routing: the router never runs the \<open>GET /published\<close>
  handler (C1); every one-segment \<open>GET\<close> goes to \<open>GET /:id\<close> (C2); a one-segment
  \<open>PUT\<close> or \<open>DELETE\<close> reaches its handler unless it names \<open>/unpublished\<close> or
  \<open>/allunpublished\<close> (C27); every method but \<open>GET\<close> and \<open>HEAD\<close> on \<open>/allunpublished\<close>
  lists all drafts to anyone (C23); \<open>GET\<close> and \<open>HEAD\<close> never change the state (C26).
  Reads: \<open>GET /\<close> lists exactly the published posts (C3); \<open>GET /:id\<close> answers \<open>null\<close>
  for a missing key only while the key fits 32 bits (C4), and through the router the
  post whose key the path spells (C5); every \<open>GET\<close> of a one-segment path whose
  \<open>Number\<close> is \<open>NaN\<close>, \<open>/published\<close> and \<open>/unpublished\<close> included, is an unhandled
  rejection with no response, against the specification (C12); \<open>/unpublished\<close> lists
  the current user's drafts, and rejects when there is no current user (C22). Delete:
  the four calls refine the specification's cascading delete (C6), leave nothing that
  refers to the post, so that \<open>GET\<close> then answers \<open>null\<close> (C7), are all or nothing when
  run alone (C8), and for a missing post change nothing and throw (C9); interleaved
  with a like from another router they can stop half way (C19). Create: a non-number
  identity is refused (C13); otherwise the post gets the next key and the current user
  as author (C14), and is what \<open>GET /<key>\<close> then answers (C20); the scenario of the
  specification fails as written and runs without \<open>authorId\<close> (C21). Create with
  image: a response means one stored file, a post by user 1 and an image linked to both
  (C15); without a file the post stays behind unanswered (C16); a \<open>published\<close> field
  always fails while the file stays (C17); a \<open>DELETE\<close> of the fresh post between the
  two awaits leaves an orphan file (C29). Update: the body is merged into the post
  (C18). Upload: stored names are injective (C10), inside \<open>image/\<close> (C11), 14
  characters longer than the original (C24); a rejected upload leaves no new file
  (C25); in every reachable state every image row's file lies inside \<open>image/\<close> (C28).

  \<^bold>\<open>Choices and limits.\<close> Numbers are integers (\<open>int\<close>); \<open>Number\<close> of a string that
  is not an integer is \<open>None\<close>, like \<open>NaN\<close>, and Prisma refuses both for an \<open>Int\<close>.
  Integers are exact: a key beyond 32 bits is refused before the precision of doubles
  (\<open>2^53\<close>) matters. The database is taken to store \<open>Int\<close> as
  \<open>INT4\<close>, as PostgreSQL does (the schema is not in the repository). There is no partial
  function and no fuel: every loop of the model is structural recursion over a finite
  list, and the resumable tasks are stepped by their relations. Characters are 8-bit:
  \<open>is_js_space\<close> has every white space and line terminator of that range (U+00A0
  included), and none above it (U+2028, U+FEFF). An unhandled rejection sends no
  response and the server is taken to go on serving, as Node does before version 15
  (from 15 on, the process exits). Not modelled: the HTTP layer below routing
  (status codes, headers, the JSON and multipart body parsers, which are taken as
  given), percent-decoding of path parameters, the \<open>console.log\<close> calls of the upload
  handler, the authentication middleware (its result is the input \<open>req_currentUser\<close>),
  timestamps of rows. Await by await are \<open>DELETE /:id\<close> and \<open>POST /create/image\<close>,
  the handlers with more than one await; \<open>POST /create\<close> and \<open>PUT /:id\<close> make one
  database call each, so taking them as atomic steps loses no interleaving.
\<close>

section \<open>Reading a listing response\<close>

text \<open>The posts array of a \<open>{posts: [...]}\<close> response.\<close>

definition listed :: "outcome \<Rightarrow> json list" where
  "listed out = (case out of Respond (JObj [(k, JArr ps)]) \<Rightarrow> ps | _ \<Rightarrow> [])"

section \<open>Referential integrity in every reachable state\<close>

lemma empty_db_wf: "db_wf empty_db"
  by (simp add: empty_db_def db_wf_unfold)

text \<open>
  The invariant holds in every state the server can reach from an empty store, so the
  hypothesis \<open>db_wf\<close> of the properties below holds there.
\<close>

lemma reachable_wf: "reachable s \<Longrightarrow> db_wf (store s)"
proof (induction rule: reachable.induct)
  case init
  show ?case by (simp add: init_srv_def empty_db_wf)
next
  case (step s s')
  then show ?case by (blast intro: server_step_wf)
qed

section \<open>Routing and handling together\<close>

text \<open>
  C5. \<open>GET /<n>\<close>, with \<open><n>\<close> the decimal form of a stored post's key, is routed to
  the get-by-id handler and answers that post, expanded with author, comments, likes and
  image, and changes nothing.
\<close>

theorem get_by_id_through_router:
  assumes "db_wf (store s)" and "p \<in> set (posts (store s))"
  shows "serve GET (CHR ''/'' # show_int (post_id p)) r s
           = (Reply (Respond (JObj [(''post'', render_post (store s) full_include p)])), s)"
proof -
  have "dispatch GET (CHR ''/'' # show_int (post_id p)) = Some (T_GetById, show_int (post_id p))"
    using show_int_segment [of "post_id p"] by (simp add: dispatch_get_segment)
  then show ?thesis
    using get_post_by_id_found [OF assms] by (simp add: serve_def run_target_def)
qed

theorem get_by_id_through_router_witness:
  "db_wf (store demo_srv) \<and> demo_post \<in> set (posts (store demo_srv)) \<and>
   serve GET (CHR ''/'' # show_int 1)
     \<lparr>req_body = [], req_currentUser = JsUndefined, req_form = [], req_parts = []\<rparr> demo_srv
     = (Reply (Respond (JObj [(''post'', render_post demo_db full_include demo_post)])), demo_srv)"
proof -
  have h: "db_wf (store demo_srv)" "demo_post \<in> set (posts (store demo_srv))"
    using demo_wf by (simp_all add: demo_srv_def demo_db_def)
  show ?thesis using h get_by_id_through_router [OF h] by (simp add: demo_post_def demo_srv_def)
qed

text \<open>
  C12. Every \<open>GET\<close> or \<open>HEAD\<close> of a one-segment path whose \<open>Number\<close> is \<open>NaN\<close> is routed
  to the get-by-id handler, where Prisma refuses \<open>id: NaN\<close>: the rejection is not
  caught, no response is sent and nothing changes. The specification requires the
  opposite (a failed coercion must be a lookup miss, not an error), and the paths of the
  routes the router shadows, \<open>/published\<close>, \<open>/unpublished\<close> and \<open>/allunpublished\<close>,
  are such paths.
\<close>

theorem get_non_numeric_segment_rejects:
  assumes "seg \<noteq> []" and "CHR ''/'' \<notin> set seg" and "string_to_number seg = None" and "m = GET \<or> m = HEAD"
  shows "serve m (CHR ''/'' # seg) r s = (Reply (Unhandled ValidationError), s)"
  using dispatch_get_segment [OF assms(4,1,2)] assms(3)
  by (simp add: serve_def run_target_def get_post_by_id_def post_find_unique_def)

theorem get_non_numeric_segment_rejects_witness:
  "''published'' \<noteq> [] \<and> CHR ''/'' \<notin> set ''published'' \<and> string_to_number ''published'' = None
   \<and> (GET = GET \<or> GET = HEAD)
   \<and> serve GET (CHR ''/'' # ''published'')
       \<lparr>req_body = [], req_currentUser = JsUndefined, req_form = [], req_parts = []\<rparr> demo_srv
     = (Reply (Unhandled ValidationError), demo_srv)"
proof -
  have n: "string_to_number ''published'' = None" by code_simp
  have h: "''published'' \<noteq> []" "CHR ''/'' \<notin> set ''published''" "string_to_number ''published'' = None"
    "GET = GET \<or> GET = HEAD"
    using n by simp_all
  show ?thesis using h get_non_numeric_segment_rejects [OF h] by blast
qed

lemma serve_get_found:
  assumes "db_wf (store s)" and "p \<in> set (posts (store s))"
  shows "serve GET (CHR ''/'' # show_int (post_id p)) r s
           = (Reply (Respond (JObj [(''post'', render_post (store s) full_include p)])), s)"
proof -
  have "dispatch GET (CHR ''/'' # show_int (post_id p)) = Some (T_GetById, show_int (post_id p))"
    using show_int_segment [of "post_id p"] by (simp add: dispatch_get_segment)
  then show ?thesis
    using get_post_by_id_found [OF assms] by (simp add: serve_def run_target_def)
qed

section \<open>Creating, then reading back\<close>

text \<open>
  C20. A post created by \<open>POST /create\<close> is what \<open>GET /<n>\<close> answers afterwards, with
  \<open><n>\<close> the key the store gave it: the create response and the read agree through the
  router, the handlers and the store.
\<close>

theorem create_then_get:
  assumes wf: "db_wf (store s)"
    and h: "parse_post_data body no_post_data = Inr pd" "''author'' \<notin> set (map fst body)"
      "d_id pd = None" "d_authorId pd = None" "d_title pd \<noteq> None"
      "u \<in> set (user_ids (store s))" "post_seq (store s) \<notin> set (post_ids (store s))"
    and rng: "in_int4 (post_seq (store s))"
    and c: "create_post body (JsNum u) s = (out, s')"
  shows "out = Respond (JObj [(''message'', JStr ''Created Post''),
                              (''post'', JObj (post_scalars (new_post pd (post_seq (store s)) u)))])
         \<and> serve GET (CHR ''/'' # show_int (post_seq (store s))) r s'
             = (Reply (Respond (JObj [(''post'', render_post (store s') full_include (new_post pd (post_seq (store s)) u))])), s')"
proof -
  let ?p = "new_post pd (post_seq (store s)) u"
  have u4: "in_int4 u" using wf h(6) by (auto simp: db_wf_def keys_ok_def list_all_iff)
  have eq: "out = Respond (JObj [(''message'', JStr ''Created Post''), (''post'', JObj (post_scalars ?p))])"
    "s' = s\<lparr>store := (store s)\<lparr>post_seq := post_seq (store s) + 1, posts := posts (store s) @ [?p]\<rparr>\<rparr>"
    using create_post_success [OF h rng u4] c by simp_all
  have "db_wf (store s')" using create_post_wf [OF wf c] .
  moreover have "?p \<in> set (posts (store s'))" using eq(2) by simp
  ultimately have "serve GET (CHR ''/'' # show_int (post_id ?p)) r s'
      = (Reply (Respond (JObj [(''post'', render_post (store s') full_include ?p)])), s')"
    by (rule serve_get_found)
  then show ?thesis using eq(1) by simp
qed

theorem create_then_get_witness:
  "db_wf (store demo_srv)
   \<and> in_int4 (post_seq (store demo_srv))
   \<and> create_post [(''title'', JStr ''B'')] (JsNum 7) demo_srv =
       (Respond (JObj [(''message'', JStr ''Created Post''),
                       (''post'', JObj (post_scalars (new_post (no_post_data\<lparr>d_title := Some ''B''\<rparr>) (post_seq (store demo_srv)) 7)))]), demo_srv\<lparr>store := demo_db\<lparr>post_seq := 3, posts := [demo_post, new_post (no_post_data\<lparr>d_title := Some ''B''\<rparr>) 2 7]\<rparr>\<rparr>)
   \<and> serve GET (CHR ''/'' # show_int (post_seq (store demo_srv)))
       \<lparr>req_body = [], req_currentUser = JsUndefined, req_form = [], req_parts = []\<rparr> (demo_srv\<lparr>store := demo_db\<lparr>post_seq := 3, posts := [demo_post, new_post (no_post_data\<lparr>d_title := Some ''B''\<rparr>) 2 7]\<rparr>\<rparr>)
     = (Reply (Respond (JObj [(''post'', render_post (store (demo_srv\<lparr>store := demo_db\<lparr>post_seq := 3, posts := [demo_post, new_post (no_post_data\<lparr>d_title := Some ''B''\<rparr>) 2 7]\<rparr>\<rparr>)) full_include (new_post (no_post_data\<lparr>d_title := Some ''B''\<rparr>) (post_seq (store demo_srv)) 7))])), demo_srv\<lparr>store := demo_db\<lparr>post_seq := 3, posts := [demo_post, new_post (no_post_data\<lparr>d_title := Some ''B''\<rparr>) 2 7]\<rparr>\<rparr>)"
proof -
  have wf: "db_wf (store demo_srv)" using demo_wf by (simp add: demo_srv_def)
  have h: "parse_post_data [(''title'', JStr ''B'')] no_post_data = Inr (no_post_data\<lparr>d_title := Some ''B''\<rparr>)"
    "''author'' \<notin> set (map fst [(''title'', JStr ''B'')])"
    "d_id (no_post_data\<lparr>d_title := Some ''B''\<rparr>) = None"
    "d_authorId (no_post_data\<lparr>d_title := Some ''B''\<rparr>) = None"
    "d_title (no_post_data\<lparr>d_title := Some ''B''\<rparr>) \<noteq> None"
    "7 \<in> set (user_ids (store demo_srv))" "post_seq (store demo_srv) \<notin> set (post_ids (store demo_srv))"
    "in_int4 (post_seq (store demo_srv))"
    by (simp_all add: post_data_field_def no_post_data_def demo_defs in_int4_def)
  have r7: "in_int4 7" by (simp add: in_int4_def)
  have st: "store demo_srv = demo_db" "post_seq demo_db = 2" "posts demo_db = [demo_post]"
    by (simp_all add: demo_srv_def demo_db_def)
  have c: "create_post [(''title'', JStr ''B'')] (JsNum 7) demo_srv =
       (Respond (JObj [(''message'', JStr ''Created Post''),
                       (''post'', JObj (post_scalars (new_post (no_post_data\<lparr>d_title := Some ''B''\<rparr>) (post_seq (store demo_srv)) 7)))]), demo_srv\<lparr>store := demo_db\<lparr>post_seq := 3, posts := [demo_post, new_post (no_post_data\<lparr>d_title := Some ''B''\<rparr>) 2 7]\<rparr>\<rparr>)"
    using create_post_success [OF h r7] by (simp add: st)
  show ?thesis using wf h(8) c create_then_get [OF wf h c] by blast
qed

lemma listed_posts_json [simp]: "listed (Respond (posts_json ps)) = ps"
  by (simp add: listed_def posts_json_def)

lemma get_published_eq:
  "get_published s = (Respond (posts_json (map (render_post (store s) full_include) (filter published (posts (store s))))), s)"
  by (simp add: get_published_def post_find_many_valid find_posts_def where_post_fun map_filter_simps)

lemma get_own_unpublished_eq:
  "in_int4 u \<Longrightarrow> get_own_unpublished (JsNum u) s = (Respond (posts_json (map (render_post (store s) own_unpublished_include)
          (filter (\<lambda>p. authorId p = u \<and> \<not> published p) (posts (store s))))), s)"
  by (simp add: get_own_unpublished_def post_find_many_valid find_posts_def where_post_fun
        map_filter_simps conj_commute eq_commute)

section \<open>The scenario of the specification\<close>

text \<open>
  C21. The scenario of the specification's testable properties, on any store where
  user 7 exists. As written, with \<open>authorId: 7\<close> in the body, its first step fails:
  the handler adds \<open>author: {connect: {id: 7}}\<close> to the body, Prisma refuses a
  \<open>data\<close> that sets the author both ways, and nothing is created. Without \<open>authorId\<close>
  it runs: the draft created by \<open>POST /create\<close> is in user 7's unpublished listing and
  not in the published one, and after \<open>PUT /<key>\<close> with \<open>{published: true}\<close> it is in
  the published listing.
\<close>

theorem publish_scenario:
  assumes wf: "db_wf (store s)" and u: "7 \<in> set (user_ids (store s))"
    and fresh: "post_seq (store s) \<notin> set (post_ids (store s))" and rng: "in_int4 (post_seq (store s))"
  defines "p \<equiv> new_post (no_post_data\<lparr>d_title := Some ''A'', d_published := Some False\<rparr>) (post_seq (store s)) 7"
    and "s1 \<equiv> snd (create_post [(''title'', JStr ''A''), (''published'', JBool False)] (JsNum 7) s)"
  defines "s2 \<equiv> snd (update_post (show_int (post_seq (store s))) [(''published'', JBool True)] s1)"
  shows "create_post [(''title'', JStr ''A''), (''published'', JBool False), (''authorId'', JNum 7)] (JsNum 7) s
           = (Unhandled ValidationError, s)
         \<and> render_post (store s1) own_unpublished_include p \<in> set (listed (fst (get_own_unpublished (JsNum 7) s1)))
         \<and> render_post (store s1) full_include p \<notin> set (listed (fst (get_published s1)))
         \<and> render_post (store s2) full_include (p\<lparr>published := True\<rparr>) \<in> set (listed (fst (get_published s2)))"
proof -
  let ?pd = "no_post_data\<lparr>d_title := Some ''A'', d_published := Some False\<rparr>"
  have r7: "in_int4 7" by (simp add: in_int4_def)
  have parse: "parse_post_data [(''title'', JStr ''A''), (''published'', JBool False)] no_post_data = Inr ?pd"
    by (simp add: post_data_field_def no_post_data_def)
  have c1: "create_post [(''title'', JStr ''A''), (''published'', JBool False)] (JsNum 7) s =
           (Respond (JObj [(''message'', JStr ''Created Post''), (''post'', JObj (post_scalars p))]),
            s\<lparr>store := (store s)\<lparr>post_seq := post_seq (store s) + 1, posts := posts (store s) @ [p]\<rparr>\<rparr>)"
    unfolding p_def
    by (rule create_post_success [OF parse _ _ _ _ u fresh rng r7]) (simp_all add: no_post_data_def)
  then have s1: "s1 = s\<lparr>store := (store s)\<lparr>post_seq := post_seq (store s) + 1, posts := posts (store s) @ [p]\<rparr>\<rparr>"
    by (simp add: s1_def)
  have wf1: "db_wf (store s1)" using create_post_wf [OF wf c1] by (simp add: s1)
  have pin: "p \<in> set (posts (store s1))" and pk: "post_id p = post_seq (store s)" and pa: "authorId p = 7"
    and pp: "\<not> published p"
    by (simp_all add: s1 p_def new_post_def no_post_data_def)
  have bad: "create_post [(''title'', JStr ''A''), (''published'', JBool False), (''authorId'', JNum 7)] (JsNum 7) s
               = (Unhandled ValidationError, s)"
    by (simp add: create_post_def post_create_def create_data_def connect_to_def post_data_field_def
        connect_id_def no_post_data_def valid_author_input_def respond_def bindE_def)
  have own: "render_post (store s1) own_unpublished_include p \<in> set (listed (fst (get_own_unpublished (JsNum 7) s1)))"
    using pin pa pp r7 by (simp add: get_own_unpublished_eq own_unpublished_include_def render_post_mem)
  have pub1: "render_post (store s1) full_include p \<notin> set (listed (fst (get_published s1)))"
    using pp by (simp add: get_published_eq full_include_def render_post_mem)
  let ?pd2 = "no_post_data\<lparr>d_published := Some True\<rparr>"
  have look: "lookup_post (string_to_number (show_int (post_seq (store s)))) (store s1) = Some p"
  proof -
    have "distinct (post_ids (store s1))" and "in_int4 (post_id p)"
      using wf1 pin by (simp_all add: db_wf_def keys_ok_def list_all_iff)
    moreover have "find (\<lambda>y. post_id y = post_id p) (posts (store s1)) = Some p"
      using calculation(1) pin by (intro find_unique_key)
    ultimately show ?thesis using pk by (simp add: lookup_post_Some_key string_to_number_show_int)
  qed
  have p2: "apply_post_data ?pd2 (d_authorId ?pd2) p = p\<lparr>published := True\<rparr>"
    by (simp add: apply_post_data_def no_post_data_def)
  have "post_update (string_to_number (show_int (post_seq (store s)))) [(''published'', JBool True)] (store s1)
          = (Inr (p\<lparr>published := True\<rparr>), replace_post (post_id p) (p\<lparr>published := True\<rparr>) (store s1))"
    using post_update_found [OF look, of "[(''published'', JBool True)]" ?pd2] p2
    by (simp add: post_data_field_def no_post_data_def)
  then have s2: "s2 = s1\<lparr>store := replace_post (post_id p) (p\<lparr>published := True\<rparr>) (store s1)\<rparr>"
    by (simp add: s2_def update_post_def respond_def bindE_def)
  have "p\<lparr>published := True\<rparr> \<in> set (posts (store s2))"
    using pin by (force simp: s2 replace_post_def)
  then have pub2: "render_post (store s2) full_include (p\<lparr>published := True\<rparr>) \<in> set (listed (fst (get_published s2)))"
    by (simp add: get_published_eq full_include_def render_post_mem)
  show ?thesis using bad own pub1 pub2 by blast
qed

theorem publish_scenario_witness:
  "db_wf (store demo_srv) \<and> 7 \<in> set (user_ids (store demo_srv))
   \<and> post_seq (store demo_srv) \<notin> set (post_ids (store demo_srv)) \<and> in_int4 (post_seq (store demo_srv))
   \<and> create_post [(''title'', JStr ''A''), (''published'', JBool False), (''authorId'', JNum 7)] (JsNum 7) demo_srv
         = (Unhandled ValidationError, demo_srv)"
proof -
  have h: "db_wf (store demo_srv)" "7 \<in> set (user_ids (store demo_srv))"
    "post_seq (store demo_srv) \<notin> set (post_ids (store demo_srv))" "in_int4 (post_seq (store demo_srv))"
    using demo_wf by (simp_all add: demo_defs in_int4_def)
  show ?thesis using h conjunct1 [OF publish_scenario [OF h]] by blast
qed

end
